(* ===== verification/Prelude.thy ===== *)
theory Prelude
  imports Complex_Main "HOL-Library.Multiset" "HOL-Library.List_Lexorder" "HOL-Library.Char_ord" "HOL-Library.Product_Lexorder" "HOL-Library.Sublist" "HOL-Library.AList" "HOL-Library.Code_Target_Nat"
begin

text \<open>
  Shared vocabulary of the development: Python text and dynamically typed values, UTF-8 sizes,
  insertion-ordered dictionaries, SQL's ORDER BY / LIMIT 1, and the collections of proof rules
  that the component theories extend.

  An identifier that the code only compares, orders or uses as a key (a session id, a document id,
  a digest, a schema name) is a \<open>string\<close>. Text whose characters the code counts, cuts or
  encodes is a \<open>ustr\<close>, the list of its Unicode code points, surrogates included.
  A wall-clock or monotonic time is an exact \<open>real\<close>: the rounding of double arithmetic is
  not modelled; infinities and NaN appear where the code tests for them (\<open>pyfloat\<close>).
\<close>

section \<open>Collections of proof rules\<close>

named_theorems result_iff
  \<open>inversion rules that read a result value off a model function\<close>

named_theorems keeps
  \<open>frame and preservation rules of the operations\<close>

section \<open>Text\<close>

type_synonym ustr = "nat list"
type_synonym bytes = "nat list"

definition lit :: "string \<Rightarrow> ustr" where
  "lit s = map of_char s"

lemma lit_inject: "lit s = lit t \<longleftrightarrow> s = t"
  by (simp add: lit_def inj_map_eq_map inj_def)

definition surrogate :: "nat \<Rightarrow> bool" where
  "surrogate c \<longleftrightarrow> 55296 \<le> c \<and> c \<le> 57343"

text \<open>The bytes of one code point in UTF-8.\<close>

definition utf8_char :: "nat \<Rightarrow> bytes" where
  "utf8_char c =
     (if c < 128 then [c]
      else if c < 2048 then [192 + c div 64, 128 + c mod 64]
      else if c < 65536 then [224 + c div 4096, 128 + (c div 64) mod 64, 128 + c mod 64]
      else [240 + c div 262144, 128 + (c div 4096) mod 64, 128 + (c div 64) mod 64,
            128 + c mod 64])"

definition utf8_bytes :: "ustr \<Rightarrow> bytes" where
  "utf8_bytes s = concat (map utf8_char s)"

text \<open>\<open>s.encode("utf-8")\<close> raises \<open>UnicodeEncodeError\<close> on a lone surrogate: \<open>None\<close>.\<close>

definition encode_utf8 :: "ustr \<Rightarrow> bytes option" where
  "encode_utf8 s = (if list_ex surrogate s then None else Some (utf8_bytes s))"

text \<open>\<open>len(s.encode("utf-8"))\<close> where the encoding exists.\<close>

definition utf8_len :: "ustr \<Rightarrow> nat" where
  "utf8_len s = length (utf8_bytes s)"

definition scalar_text :: "ustr \<Rightarrow> bool" where
  "scalar_text s \<longleftrightarrow> \<not> list_ex surrogate s"

lemma utf8_len_Nil [simp]: "utf8_len [] = 0"
  by (simp add: utf8_len_def utf8_bytes_def)

lemma utf8_len_append [simp]: "utf8_len (xs @ ys) = utf8_len xs + utf8_len ys"
  by (simp add: utf8_len_def utf8_bytes_def)

lemma utf8_len_Cons [simp]: "utf8_len (x # xs) = length (utf8_char x) + utf8_len xs"
  by (simp add: utf8_len_def utf8_bytes_def)

lemma length_utf8_char_pos: "0 < length (utf8_char c)"
  by (simp add: utf8_char_def)

lemma length_utf8_char_le: "length (utf8_char c) \<le> 4"
  by (simp add: utf8_char_def)

lemma length_le_utf8_len: "length s \<le> utf8_len s"
proof (induction s)
  case (Cons c s)
  then show ?case using length_utf8_char_pos [of c] by (cases "utf8_char c") auto
qed simp

lemma utf8_len_concat: "utf8_len (concat xss) = sum_list (map utf8_len xss)"
  by (induction xss) auto

lemma utf8_len_take_mono: "m \<le> n \<Longrightarrow> utf8_len (take m s) \<le> utf8_len (take n s)"
  by (metis le_add1 le_add_diff_inverse take_add utf8_len_append)

lemma utf8_len_take_le: "utf8_len (take n s) \<le> utf8_len s"
  by (metis append_take_drop_id le_add1 utf8_len_append)

lemma encode_utf8_Some [result_iff]:
  "encode_utf8 s = Some b \<longleftrightarrow> scalar_text s \<and> b = utf8_bytes s"
  by (auto simp: encode_utf8_def scalar_text_def)

lemma scalar_text_append [simp]: "scalar_text (xs @ ys) \<longleftrightarrow> scalar_text xs \<and> scalar_text ys"
  by (auto simp: scalar_text_def)

lemma scalar_text_Nil [simp]: "scalar_text []"
  by (simp add: scalar_text_def)

lemma scalar_text_Cons [simp]: "scalar_text (x # xs) \<longleftrightarrow> \<not> surrogate x \<and> scalar_text xs"
  by (simp add: scalar_text_def)

lemma scalar_text_concat: "scalar_text (concat xss) \<longleftrightarrow> list_all scalar_text xss"
  by (induction xss) auto

text \<open>\<open>str.isspace\<close> of one character, and \<open>str.strip\<close> (CPython's white-space table).\<close>

definition py_space :: "nat \<Rightarrow> bool" where
  "py_space c \<longleftrightarrow>
     (9 \<le> c \<and> c \<le> 13) \<or> (28 \<le> c \<and> c \<le> 32) \<or> c = 133 \<or> c = 160 \<or> c = 5760 \<or>
     (8192 \<le> c \<and> c \<le> 8202) \<or> c = 8232 \<or> c = 8233 \<or> c = 8239 \<or> c = 8287 \<or> c = 12288"

definition lstrip :: "ustr \<Rightarrow> ustr" where
  "lstrip s = dropWhile py_space s"

definition strip :: "ustr \<Rightarrow> ustr" where
  "strip s = rev (lstrip (rev (lstrip s)))"

definition ascii_lower :: "ustr \<Rightarrow> ustr" where
  "ascii_lower s = map (\<lambda>c. if 65 \<le> c \<and> c \<le> 90 then c + 32 else c) s"

text \<open>\<open>not s.strip()\<close>.\<close>

definition blank :: "ustr \<Rightarrow> bool" where
  "blank s \<longleftrightarrow> list_all py_space s"

lemma lstrip_Nil_iff: "lstrip s = [] \<longleftrightarrow> blank s"
  by (simp add: lstrip_def blank_def list_all_iff dropWhile_eq_Nil_conv)

lemma strip_Nil_iff: "strip s = [] \<longleftrightarrow> blank s"
proof -
  have "blank (dropWhile py_space s) \<longleftrightarrow> blank s"
    by (induction s) (auto simp: blank_def)
  then show ?thesis
    by (auto simp: strip_def lstrip_def blank_def list_all_iff dropWhile_eq_Nil_conv)
qed

section \<open>Dynamically typed values\<close>

datatype pyfloat = Fin real | PosInf | NegInf | NaN

datatype py =
    PNone
  | PBool bool
  | PInt int
  | PFloat pyfloat
  | PStr ustr
  | PBytes
  | PList "py list"
  | PDict "(ustr \<times> py) list"
  | PObj nat

definition py_str :: "py \<Rightarrow> ustr option" where
  "py_str v = (case v of PStr s \<Rightarrow> Some s | _ \<Rightarrow> None)"

definition py_bool :: "py \<Rightarrow> bool option" where
  "py_bool v = (case v of PBool b \<Rightarrow> Some b | _ \<Rightarrow> None)"

lemma py_str_Some [result_iff]: "py_str v = Some s \<longleftrightarrow> v = PStr s"
  by (auto simp: py_str_def split: py.splits)

lemma py_str_PStr [simp]: "py_str (PStr s) = Some s"
  by (simp add: py_str_def)

lemma py_bool_Some [result_iff]: "py_bool v = Some b \<longleftrightarrow> v = PBool b"
  by (auto simp: py_bool_def split: py.splits)

primrec finite_float :: "pyfloat \<Rightarrow> real option" where
  "finite_float (Fin r) = Some r"
| "finite_float PosInf = None"
| "finite_float NegInf = None"
| "finite_float NaN = None"

text \<open>\<open>float(value)\<close> of an int raises \<open>OverflowError\<close> from about \<open>2 ^ 1024\<close> on.\<close>

definition float_limit :: int where
  "float_limit = 2 ^ 1024 - 2 ^ 970"

definition float_of_int :: "int \<Rightarrow> real option" where
  "float_of_int i = (if \<bar>i\<bar> < float_limit then Some (real_of_int i) else None)"

section \<open>Insertion-ordered dictionaries\<close>

text \<open>
  A Python \<open>dict\<close> is an association list in insertion order: assignment to a present key keeps
  its place, a new key goes to the end, \<open>pop\<close> removes it.
\<close>

type_synonym ('k, 'v) dict = "('k \<times> 'v) list"

definition dict_get :: "('k, 'v) dict \<Rightarrow> 'k \<Rightarrow> 'v option" where
  "dict_get d k = map_of d k"

definition dict_set :: "('k, 'v) dict \<Rightarrow> 'k \<Rightarrow> 'v \<Rightarrow> ('k, 'v) dict" where
  "dict_set d k v = AList.update k v d"

definition dict_pop :: "('k, 'v) dict \<Rightarrow> 'k \<Rightarrow> ('k, 'v) dict" where
  "dict_pop d k = filter (\<lambda>(k', _). k' \<noteq> k) d"

definition dict_ok :: "('k, 'v) dict \<Rightarrow> bool" where
  "dict_ok d \<longleftrightarrow> distinct (map fst d)"

abbreviation dict_keys :: "('k, 'v) dict \<Rightarrow> 'k set" where
  "dict_keys d \<equiv> fst ` set d"

abbreviation dict_values :: "('k, 'v) dict \<Rightarrow> 'v set" where
  "dict_values d \<equiv> snd ` set d"

lemma dict_get_Nil [simp]: "dict_get [] k = None"
  by (simp add: dict_get_def)

lemma dict_get_set [simp]: "dict_get (dict_set d k v) k' = (if k' = k then Some v else dict_get d k')"
  by (auto simp: dict_get_def dict_set_def update_conv)

lemma dict_get_pop [simp]: "dict_get (dict_pop d k) k' = (if k' = k then None else dict_get d k')"
  by (induction d) (auto simp: dict_get_def dict_pop_def)

lemma dict_ok_Nil [simp]: "dict_ok []"
  by (simp add: dict_ok_def)

lemma dict_ok_set [simp]: "dict_ok d \<Longrightarrow> dict_ok (dict_set d k v)"
  by (simp add: dict_ok_def dict_set_def distinct_update)

lemma dict_ok_filter: "dict_ok d \<Longrightarrow> dict_ok (filter P d)"
  by (induction d) (auto simp: dict_ok_def image_iff)

lemma dict_ok_pop [simp]: "dict_ok d \<Longrightarrow> dict_ok (dict_pop d k)"
  by (simp add: dict_pop_def dict_ok_filter)

lemma dict_get_filter:
  "dict_ok d \<Longrightarrow> dict_get (filter (\<lambda>(k, v). P k v) d) k =
     (case dict_get d k of Some v \<Rightarrow> if P k v then Some v else None | None \<Rightarrow> None)"
  by (induction d)
    (auto simp: dict_ok_def dict_get_def split: option.splits dest: map_of_SomeD
      intro!: map_of_eq_None_iff [THEN iffD2])

lemma dict_get_Some_iff: "dict_ok d \<Longrightarrow> dict_get d k = Some v \<longleftrightarrow> (k, v) \<in> set d"
  by (simp add: dict_ok_def dict_get_def)

lemma dict_get_None_iff: "dict_get d k = None \<longleftrightarrow> k \<notin> dict_keys d"
  by (simp add: dict_get_def map_of_eq_None_iff)

lemma dict_get_in_set: "dict_get d k = Some v \<Longrightarrow> (k, v) \<in> set d"
  by (simp add: dict_get_def map_of_SomeD)

lemma set_dict_set_subset: "set (dict_set d k v) \<subseteq> insert (k, v) (set d)"
  by (induction d) (auto simp: dict_set_def)

lemma dict_set_new: "dict_get d k = None \<Longrightarrow> dict_set d k v = d @ [(k, v)]"
  by (induction d) (auto simp: dict_set_def dict_get_def split: if_splits)

lemma set_dict_pop: "set (dict_pop d k) = {(k', v) \<in> set d. k' \<noteq> k}"
  by (auto simp: dict_pop_def)

section \<open>SQL: ORDER BY, LIMIT 1, MIN, aggregate sums\<close>

definition first_by :: "('a \<Rightarrow> 'k::linorder) \<Rightarrow> 'a list \<Rightarrow> 'a option" where
  "first_by f xs = (case sort_key f xs of [] \<Rightarrow> None | x # _ \<Rightarrow> Some x)"

definition sql_min :: "'k::linorder list \<Rightarrow> 'k option" where
  "sql_min xs = (case xs of [] \<Rightarrow> None | y # ys \<Rightarrow> Some (foldl min y ys))"

lemma first_by_None [result_iff]: "first_by f xs = None \<longleftrightarrow> xs = []"
  by (cases "sort_key f xs") (auto simp: first_by_def dest: arg_cong [where f = set] arg_cong [where f = length])

lemma first_by_Some:
  assumes "first_by f xs = Some x"
  shows "x \<in> set xs" and "\<And>y. y \<in> set xs \<Longrightarrow> f x \<le> f y"
proof -
  from assms obtain ys where s: "sort_key f xs = x # ys"
    by (auto simp: first_by_def split: list.splits)
  have "set (sort_key f xs) = set xs" by simp
  with s have set: "set xs = insert x (set ys)" by simp
  then show "x \<in> set xs" by simp
  have "sorted (map f (x # ys))"
    using s sorted_sort_key [of f xs] by simp
  then show "f x \<le> f y" if "y \<in> set xs" for y
    using that set by auto
qed

lemma foldl_min_le: "foldl min y ys \<le> (y::'k::linorder)" "z \<in> set ys \<Longrightarrow> foldl min y ys \<le> z"
proof -
  have le: "foldl min y ys \<le> y" for y
    by (induction ys arbitrary: y) (auto intro: order_trans [OF _ min.cobounded1])
  then show "foldl min y ys \<le> y" .
  have le': "foldl min y ys \<le> y" for y :: 'k and ys
    by (induction ys arbitrary: y) (auto intro: order_trans [OF _ min.cobounded1])
  show "z \<in> set ys \<Longrightarrow> foldl min y ys \<le> z"
  proof (induction ys arbitrary: y)
    case (Cons a ys)
    then show ?case using le' [of "min y a" ys] by auto
  qed simp
qed

lemma foldl_min_in: "foldl min y ys \<in> insert (y::'k::linorder) (set ys)"
proof (induction ys arbitrary: y)
  case (Cons a ys)
  show ?case using Cons.IH [of "min y a"] by (auto simp: min_def split: if_splits)
qed simp

lemma sql_min_None [result_iff]: "sql_min xs = None \<longleftrightarrow> xs = []"
  by (simp add: sql_min_def split: list.splits)

lemma sql_min_Some:
  assumes "sql_min xs = Some m"
  shows "m \<in> set xs" and "\<And>z. z \<in> set xs \<Longrightarrow> m \<le> z"
  using assms foldl_min_in foldl_min_le by (auto simp: sql_min_def split: list.splits)

definition count_if :: "('a \<Rightarrow> bool) \<Rightarrow> 'a list \<Rightarrow> int" where
  "count_if P xs = int (length (filter P xs))"

lemma count_if_nonneg [simp]: "0 \<le> count_if P xs"
  by (simp add: count_if_def)

lemma map_sum_InrD: "map_sum f g x = Inr y \<Longrightarrow> \<exists>z. x = Inr z \<and> g z = y"
  by (cases x) auto

section \<open>Fallible code\<close>

text \<open>A sum is the result of code that may raise: \<open>Inl\<close> the error, \<open>Inr\<close> the value.\<close>

definition and_then :: "'e + 'a \<Rightarrow> ('a \<Rightarrow> 'e + 'b) \<Rightarrow> 'e + 'b" where
  "and_then r f = (case r of Inl e \<Rightarrow> Inl e | Inr x \<Rightarrow> f x)"

definition ensure :: "bool \<Rightarrow> 'e \<Rightarrow> 'e + unit" where
  "ensure b e = (if b then Inr () else Inl e)"

lemma and_then_simps [simp]: "and_then (Inl e) f = Inl e" "and_then (Inr x) f = f x"
  by (simp_all add: and_then_def)

lemma and_then_Inr [result_iff]: "and_then r f = Inr y \<longleftrightarrow> (\<exists>x. r = Inr x \<and> f x = Inr y)"
  by (cases r) auto

lemma ensure_Inr [result_iff]: "ensure b e = Inr u \<longleftrightarrow> b"
  by (simp add: ensure_def)

lemma ensure_simps [simp]: "ensure True e = Inr ()" "ensure False e = Inl e"
  by (simp_all add: ensure_def)

lemma and_then_cong [fundef_cong]:
  "r = r' \<Longrightarrow> (\<And>x. r' = Inr x \<Longrightarrow> f x = g x) \<Longrightarrow> and_then r f = and_then r' g"
  by (cases r') auto

text \<open>Collecting the results of a parser over a list, left to right.\<close>

primrec all_of :: "('a \<Rightarrow> 'e + 'b) \<Rightarrow> 'a list \<Rightarrow> 'e + 'b list" where
  "all_of f [] = Inr []"
| "all_of f (x # xs) = and_then (f x) (\<lambda>y. and_then (all_of f xs) (\<lambda>ys. Inr (y # ys)))"

lemma all_of_Inr [result_iff]: "all_of f xs = Inr ys \<longleftrightarrow> list_all2 (\<lambda>x y. f x = Inr y) xs ys"
  by (induction xs arbitrary: ys) (auto simp: result_iff list_all2_Cons1)

section \<open>List lemmas\<close>

lemma map_if_unique:
  assumes "distinct (map f xs)" and "x \<in> set xs"
  shows "filter (\<lambda>y. f y = f x) xs = [x]"
  using assms
proof (induction xs)
  case (Cons a xs)
  show ?case
  proof (cases "a = x")
    case True
    with Cons.prems have "f x \<notin> f ` set xs" by auto
    then have "filter (\<lambda>y. f y = f x) xs = []" unfolding filter_empty_conv by (metis image_eqI)
    with True show ?thesis by simp
  next
    case False
    with Cons have "x \<in> set xs" "f a \<noteq> f x" by (auto simp: image_iff)
    with Cons show ?thesis by simp
  qed
qed simp

lemma sum_list_filter_le: "sum_list (map f (filter P xs)) \<le> sum_list (map f (xs :: 'a list) :: nat list)"
  by (induction xs) auto

end
