(* ===== verification/Json.thy ===== *)
theory Json
  imports Prelude
begin

text \<open>
  \<open>json.dumps(value, ensure_ascii=False, separators=(",", ":"), sort_keys=True)\<close>, the canonical
  form in which the code hashes, stores and measures records, for the values it builds: text,
  integers, booleans, null, lists and dictionaries with ASCII keys.

  The lemmas give the size of a rendered record as a sum over its parts, whatever the order of the
  keys: escaping is character by character, so the size of a record that holds a text is a fixed
  overhead plus the size of the escaped text. The retention and formatting code rely on that.
\<close>

datatype json =
    JNull
  | JBool bool
  | JInt int
  | JStr ustr
  | JList "json list"
  | JObj "(string \<times> json) list"

definition hex_digit :: "nat \<Rightarrow> nat" where
  "hex_digit n = (if n < 10 then 48 + n else 87 + n)"

definition escape_char :: "nat \<Rightarrow> ustr" where
  "escape_char c =
     (if c = 34 then [92, 34]
      else if c = 92 then [92, 92]
      else if c = 10 then [92, 110]
      else if c = 13 then [92, 114]
      else if c = 9 then [92, 116]
      else if c = 8 then [92, 98]
      else if c = 12 then [92, 102]
      else if c < 32 then [92, 117, 48, 48, hex_digit (c div 16), hex_digit (c mod 16)]
      else [c])"

definition escape :: "ustr \<Rightarrow> ustr" where
  "escape s = concat (map escape_char s)"

definition quote_str :: "ustr \<Rightarrow> ustr" where
  "quote_str s = [34] @ escape s @ [34]"

fun decimal :: "nat \<Rightarrow> ustr" where
  "decimal n = (if n < 10 then [48 + n] else decimal (n div 10) @ [48 + n mod 10])"

declare decimal.simps [simp del]

definition show_int :: "int \<Rightarrow> ustr" where
  "show_int i = (if i < 0 then 45 # decimal (nat (- i)) else decimal (nat i))"

fun join :: "ustr \<Rightarrow> ustr list \<Rightarrow> ustr" where
  "join sep [] = []"
| "join sep [x] = x"
| "join sep (x # y # ys) = x @ sep @ join sep (y # ys)"

definition render_item :: "string \<times> ustr \<Rightarrow> ustr" where
  "render_item kv = quote_str (lit (fst kv)) @ [58] @ snd kv"

fun dumps :: "json \<Rightarrow> ustr" where
  "dumps JNull = lit ''null''"
| "dumps (JBool b) = (if b then lit ''true'' else lit ''false'')"
| "dumps (JInt i) = show_int i"
| "dumps (JStr s) = quote_str s"
| "dumps (JList xs) = [91] @ join [44] (map dumps xs) @ [93]"
| "dumps (JObj kvs) =
     [123] @ join [44] (map render_item (sort_key fst (map (\<lambda>(k, v). (k, dumps v)) kvs))) @ [125]"

section \<open>Sizes\<close>

lemma escape_Nil [simp]: "escape [] = []"
  by (simp add: escape_def)

lemma escape_append [simp]: "escape (xs @ ys) = escape xs @ escape ys"
  by (simp add: escape_def)

lemma escape_Cons: "escape (x # xs) = escape_char x @ escape xs"
  by (simp add: escape_def)

lemma utf8_len_quote [simp]: "utf8_len (quote_str s) = 2 + utf8_len (escape s)"
  by (simp add: quote_str_def utf8_char_def)

lemma utf8_len_join:
  "utf8_len (join sep xs) = sum_list (map utf8_len xs) + (length xs - 1) * utf8_len sep"
  by (induction sep xs rule: join.induct) (auto simp: algebra_simps)

lemma utf8_len_escape_char: "length (utf8_char c) \<le> utf8_len (escape_char c)"
  by (auto simp: escape_char_def utf8_char_def)

lemma utf8_len_escape_ge: "utf8_len s \<le> utf8_len (escape s)"
proof (induction s)
  case (Cons c s)
  then show ?case using utf8_len_escape_char [of c] by (simp add: escape_Cons)
qed simp

lemma utf8_len_escape_mono: "m \<le> n \<Longrightarrow> utf8_len (escape (take m s)) \<le> utf8_len (escape (take n s))"
  by (metis append_take_drop_id escape_append le_add1 min.absorb1 take_take utf8_len_append)

lemma sum_list_sort_key: "sum_list (map f (sort_key k xs)) = sum_list (map f xs :: nat list)"
  by (simp flip: sum_mset_sum_list add: mset_map [symmetric] del: mset_map) simp

lemma utf8_len_dumps_JObj:
  "utf8_len (dumps (JObj kvs)) =
     2 + sum_list (map (\<lambda>(k, v). utf8_len (escape (lit k)) + 3 + utf8_len (dumps v)) kvs) + (length kvs - 1)"
proof -
  let ?items = "map (\<lambda>(k, v). (k, dumps v)) kvs"
  have "sum_list (map (utf8_len \<circ> render_item) (sort_key fst ?items)) =
        sum_list (map (utf8_len \<circ> render_item) ?items)"
    by (rule sum_list_sort_key)
  also have "\<dots> = sum_list (map (\<lambda>(k, v). utf8_len (escape (lit k)) + 3 + utf8_len (dumps v)) kvs)"
    by (rule arg_cong [where f = sum_list])
      (auto simp: render_item_def utf8_char_def intro!: map_cong)
  finally show ?thesis
    by (simp add: utf8_len_join utf8_char_def)
qed

declare dumps.simps(6) [simp del]

lemma utf8_len_dumps_JStr: "utf8_len (dumps (JStr s)) = 2 + utf8_len (escape s)"
  by simp

lemma utf8_len_dumps_JList:
  "utf8_len (dumps (JList xs)) = 2 + sum_list (map (utf8_len \<circ> dumps) xs) + (length xs - 1)"
  by (simp add: utf8_len_join utf8_char_def)

lemmas json_sizes = utf8_len_dumps_JObj utf8_len_dumps_JStr utf8_len_dumps_JList

section \<open>Text without surrogates\<close>

lemma scalar_text_escape [simp]: "scalar_text (escape s) \<longleftrightarrow> scalar_text s"
proof (induction s)
  case (Cons c s)
  have "scalar_text (escape_char c) \<longleftrightarrow> \<not> surrogate c"
    by (auto simp: escape_char_def hex_digit_def surrogate_def)
  with Cons show ?case by (simp add: escape_Cons)
qed simp

lemma surrogate_small: "c < 55296 \<Longrightarrow> \<not> surrogate c"
  by (simp add: surrogate_def)

lemma scalar_text_quote [simp]: "scalar_text (quote_str s) \<longleftrightarrow> scalar_text s"
  by (simp add: quote_str_def surrogate_small)

lemma of_char_not_surrogate [simp]: "\<not> surrogate (of_char c)"
proof -
  have "(of_char c :: nat) < 256" by (rule nat_of_char_less_256)
  then have "\<not> 55296 \<le> (of_char c :: nat)" by linarith
  then show ?thesis by (simp add: surrogate_def)
qed

lemma scalar_text_lit [simp]: "scalar_text (lit s)"
  by (induction s) (auto simp: lit_def)

end
