(* ===== verification/Settings.thy ===== *)
theory Settings
  imports Json
begin

text \<open>
  The data of \<open>config.py\<close> and \<open>summary_policy.py\<close>: the constants, the configuration
  records and the authorization of one provider handle. Field names carry a short prefix, since the
  fields of all records of a theory share one name space.
\<close>

section \<open>Constants\<close>

definition LEGACY_PAYLOAD_SCHEMA_VERSION :: string where
  "LEGACY_PAYLOAD_SCHEMA_VERSION = ''better-hindsight-turn-v1''"

definition PAYLOAD_SCHEMA_VERSION :: string where
  "PAYLOAD_SCHEMA_VERSION = ''better-hindsight-turn-v2''"

definition RETAINED_EVENT_RECORD_SCHEMA :: string where
  "RETAINED_EVENT_RECORD_SCHEMA = ''better-hindsight-retained-event-v2''"

definition RETAINED_MODEL_RECORD_SCHEMA :: string where
  "RETAINED_MODEL_RECORD_SCHEMA = ''better-hindsight-retained-memory-v1''"

definition MULTIMODAL_PAYLOAD_SCHEMA :: string where
  "MULTIMODAL_PAYLOAD_SCHEMA = ''better-hindsight-multimodal-v1''"

definition OUTBOX_ROW_ACCOUNTING_ALLOWANCE_BYTES :: int where
  "OUTBOX_ROW_ACCOUNTING_ALLOWANCE_BYTES = 1024"

definition PLANNER_AND_RECALL_BUDGET_SECONDS :: real where
  "PLANNER_AND_RECALL_BUDGET_SECONDS = 7.5"

definition MAX_PLANNER_QUERY_CHARS :: int where
  "MAX_PLANNER_QUERY_CHARS = 8192"

definition MAX_TAG_COUNT :: nat where
  "MAX_TAG_COUNT = 64"

definition MAX_TAG_CHARS :: nat where
  "MAX_TAG_CHARS = 256"

lemma payload_schemas_distinct [simp]:
  "PAYLOAD_SCHEMA_VERSION \<noteq> MULTIMODAL_PAYLOAD_SCHEMA"
  "MULTIMODAL_PAYLOAD_SCHEMA \<noteq> PAYLOAD_SCHEMA_VERSION"
  "LEGACY_PAYLOAD_SCHEMA_VERSION \<noteq> PAYLOAD_SCHEMA_VERSION"
  "PAYLOAD_SCHEMA_VERSION \<noteq> LEGACY_PAYLOAD_SCHEMA_VERSION"
  "LEGACY_PAYLOAD_SCHEMA_VERSION \<noteq> MULTIMODAL_PAYLOAD_SCHEMA"
  by (simp_all add: PAYLOAD_SCHEMA_VERSION_def MULTIMODAL_PAYLOAD_SCHEMA_def
      LEGACY_PAYLOAD_SCHEMA_VERSION_def)

section \<open>Configuration records\<close>

type_synonym path = "ustr list"

datatype identifier_kind = UserId | UserIdAlt

record allowed_principal =
  pr_platform :: ustr
  pr_kind :: identifier_kind
  pr_identifier :: ustr

record recall_min_scores =
  ms_semantic :: "real option"
  ms_keyword :: "real option"
  ms_reranker :: "real option"
  ms_final :: "real option"

record recall_config =
  rc_enabled :: bool
  rc_timeout_seconds :: real
  rc_input_max_chars :: int
  rc_input_max_tokens :: int
  rc_context_max_bytes :: int
  rc_budget :: "ustr option"
  rc_max_tokens :: "int option"
  rc_types :: "ustr list option"
  rc_tags :: "ustr list option"
  rc_tag_mode :: "ustr option"
  rc_prefer_observations :: "bool option"
  rc_min_scores :: "recall_min_scores option"
  rc_include_attachments :: bool
  rc_include_source_facts :: "bool option"
  rc_max_source_facts_tokens :: "int option"

datatype planner_mode = Off | Shadow | Active

datatype rewrite_mode = NoRewrite | ApplyRewrite | ShadowRewrite

record planner_config =
  pl_mode :: planner_mode
  pl_rewrite :: rewrite_mode
  pl_timeout_seconds :: real
  pl_history_max_exchanges :: int
  pl_history_max_chars :: int
  pl_query_max_chars :: int

record reflect_config =
  rf_enabled :: bool
  rf_timeout_seconds :: real
  rf_input_max_chars :: int
  rf_input_max_tokens :: int
  rf_include_attachments :: bool
  rf_output_max_bytes :: int
  rf_budget :: ustr
  rf_max_tokens :: int
  rf_tags :: "ustr list option"
  rf_tag_mode :: "ustr option"

record summary_policy =
  sp_mode :: ustr
  sp_budget :: ustr
  sp_refresh_after_consolidation :: bool
  sp_refresh_cron :: "ustr option"
  sp_min_refresh_interval_seconds :: int
  sp_max_tokens :: int
  sp_recall_max_tokens :: int
  sp_observations_max_tokens :: int

record mental_models_config =
  mm_enabled :: bool
  mm_create_enabled :: bool
  mm_refresh_enabled :: bool
  mm_pages_enabled :: bool
  mm_creation :: summary_policy
  mm_max_models :: int
  mm_timeout_seconds :: real

record multimodal_config =
  mu_enabled :: bool
  mu_allowed_roots :: "path list"
  mu_max_attachments :: int
  mu_max_decoded_bytes :: int
  mu_max_encoded_bytes :: int

datatype observation_scopes = NoScopes | Combined | SharedScope

record retain_config =
  rt_enabled :: bool
  rt_timeout_seconds :: real
  rt_segment_max_bytes :: int
  rt_observation_scopes :: observation_scopes
  rt_tags :: "ustr list"

record mission_config =
  mi_retain :: "ustr option"
  mi_observations :: "ustr option"

record outbox_config =
  oc_path :: path
  oc_max_pending_rows :: int
  oc_max_pending_bytes :: int
  oc_busy_timeout_seconds :: real
  oc_poll_interval_seconds :: real
  oc_retry_initial_seconds :: real
  oc_retry_max_seconds :: real

definition busy_timeout_ms :: "outbox_config \<Rightarrow> int" where
  "busy_timeout_ms c = \<lceil>oc_busy_timeout_seconds c * 1000\<rceil>"

record evaluation_config =
  ev_enabled :: bool
  ev_max_records :: int
  ev_max_record_bytes :: int
  ev_max_age_seconds :: int

record diagnostic_config =
  dg_enabled :: bool
  dg_path :: path
  dg_slow_threshold_seconds :: real
  dg_max_records :: int
  dg_replay_timeout_seconds :: real

record better_config =
  hermes_home :: path
  api_url :: ustr
  api_key :: "ustr option"
  bank_id :: ustr
  single_principal :: bool
  allowed_principals :: "allowed_principal list"
  recall_cfg :: recall_config
  planner_cfg :: planner_config
  reflect_cfg :: reflect_config
  mental_models_cfg :: mental_models_config
  retain_cfg :: retain_config
  multimodal_cfg :: multimodal_config
  missions_cfg :: mission_config
  outbox_cfg :: outbox_config
  diagnostics_cfg :: diagnostic_config
  evaluation_cfg :: evaluation_config

section \<open>Destination fingerprints\<close>

text \<open>
  The SHA-256 of the standard library is the parameter \<open>sha\<close>, from bytes to the hexadecimal
  digest. What follows holds for every such function. The canonical destination record uses
  \<open>ensure_ascii=True\<close>, which turns every character outside ASCII into \<open>\uXXXX\<close> escapes.
\<close>

definition u_escape :: "nat \<Rightarrow> ustr" where
  "u_escape c =
     [92, 117, hex_digit (c div 4096 mod 16), hex_digit (c div 256 mod 16),
      hex_digit (c div 16 mod 16), hex_digit (c mod 16)]"

definition ascii_json_char :: "nat \<Rightarrow> ustr" where
  "ascii_json_char c =
     (if c < 127 then [c]
      else if c < 65536 then u_escape c
      else u_escape (55296 + (c - 65536) div 1024) @ u_escape (56320 + (c - 65536) mod 1024))"

definition ascii_json :: "ustr \<Rightarrow> ustr" where
  "ascii_json s = concat (map ascii_json_char s)"

definition scopes_json :: "observation_scopes \<Rightarrow> json" where
  "scopes_json s =
     (case s of NoScopes \<Rightarrow> JNull | Combined \<Rightarrow> JStr (lit ''combined'') | SharedScope \<Rightarrow> JList [JList []])"

definition derive_destination_fingerprint ::
    "(bytes \<Rightarrow> string) \<Rightarrow> better_config \<Rightarrow> string \<Rightarrow> string" where
  "derive_destination_fingerprint sha c schema =
     sha (utf8_bytes (ascii_json (dumps (JObj
       [(''api_url'', JStr (api_url c)),
        (''bank_id'', JStr (bank_id c)),
        (''observation_scopes'', scopes_json (rt_observation_scopes (retain_cfg c))),
        (''payload_schema'', JStr (lit schema)),
        (''retain_tags'', JList (map JStr (rt_tags (retain_cfg c))))]))))"

definition destination_fingerprint :: "(bytes \<Rightarrow> string) \<Rightarrow> better_config \<Rightarrow> string" where
  "destination_fingerprint sha c = derive_destination_fingerprint sha c PAYLOAD_SCHEMA_VERSION"

definition legacy_destination_fingerprint :: "(bytes \<Rightarrow> string) \<Rightarrow> better_config \<Rightarrow> string" where
  "legacy_destination_fingerprint sha c =
     derive_destination_fingerprint sha c LEGACY_PAYLOAD_SCHEMA_VERSION"

definition path_text :: "path \<Rightarrow> ustr" where
  "path_text p = concat (map (\<lambda>part. 47 # part) p)"

definition multimodal_destination_fingerprint ::
    "(bytes \<Rightarrow> string) \<Rightarrow> better_config \<Rightarrow> string" where
  "multimodal_destination_fingerprint sha c =
     sha (utf8_bytes (ascii_json (dumps (JList
       [JStr (lit (derive_destination_fingerprint sha c MULTIMODAL_PAYLOAD_SCHEMA)),
        JBool (mu_enabled (multimodal_cfg c)),
        JBool (rt_enabled (retain_cfg c)),
        JList (map (JStr \<circ> path_text) (mu_allowed_roots (multimodal_cfg c))),
        JInt (mu_max_attachments (multimodal_cfg c)),
        JInt (mu_max_decoded_bytes (multimodal_cfg c)),
        JInt (mu_max_encoded_bytes (multimodal_cfg c))]))))"

section \<open>Authorization\<close>

record memory_authorization =
  identity_authorized :: bool
  recall_enabled :: bool
  reflect_enabled :: bool
  retain_enabled :: bool
  mental_models_enabled :: bool

definition memory_enabled :: "memory_authorization \<Rightarrow> bool" where
  "memory_enabled a \<longleftrightarrow>
     recall_enabled a \<or> reflect_enabled a \<or> retain_enabled a \<or> mental_models_enabled a"

definition authorization :: "better_config \<Rightarrow> bool \<Rightarrow> ustr option \<Rightarrow> memory_authorization" where
  "authorization c ident agent_context =
     \<lparr>identity_authorized = ident,
      recall_enabled = ident \<and> rc_enabled (recall_cfg c),
      reflect_enabled = ident \<and> rf_enabled (reflect_cfg c),
      retain_enabled = ident \<and> rt_enabled (retain_cfg c) \<and> agent_context = Some (lit ''primary''),
      mental_models_enabled = ident \<and> mm_enabled (mental_models_cfg c)\<rparr>"

text \<open>A falsy optional string is absent or empty.\<close>

definition truthy :: "ustr option \<Rightarrow> ustr option" where
  "truthy s = (case s of None \<Rightarrow> None | Some t \<Rightarrow> if t = [] then None else Some t)"

definition gateway_candidates ::
    "ustr \<Rightarrow> ustr option \<Rightarrow> ustr option \<Rightarrow> (ustr \<times> identifier_kind \<times> ustr) list" where
  "gateway_candidates platform user_id user_id_alt =
     (case truthy user_id of None \<Rightarrow> [] | Some u \<Rightarrow> [(platform, UserId, u)]) @
     (case truthy user_id_alt of None \<Rightarrow> [] | Some u \<Rightarrow> [(platform, UserIdAlt, u)])"

definition authorize_gateway ::
    "better_config \<Rightarrow> ustr option \<Rightarrow> ustr option \<Rightarrow> ustr option \<Rightarrow> ustr option \<Rightarrow> memory_authorization"
where
  "authorize_gateway c platform user_id user_id_alt agent_context =
     (let allowed = map (\<lambda>p. (pr_platform p, pr_kind p, pr_identifier p)) (allowed_principals c);
          ident =
            (if single_principal c
             then (case truthy platform of
                     None \<Rightarrow> False
                   | Some pf \<Rightarrow> list_ex (\<lambda>cand. cand \<in> set allowed)
                       (gateway_candidates pf user_id user_id_alt))
             else False)
      in authorization c ident agent_context)"

definition authorize_cli :: "better_config \<Rightarrow> ustr option \<Rightarrow> memory_authorization" where
  "authorize_cli c agent_context = authorization c (single_principal c) agent_context"

lemma authorize_gateway_identity [result_iff]:
  "identity_authorized (authorize_gateway c pf u ua ctx) \<longleftrightarrow>
     single_principal c \<and>
     (\<exists>p \<in> set (allowed_principals c). pr_platform p \<noteq> [] \<and> pf = Some (pr_platform p) \<and>
        pr_identifier p \<noteq> [] \<and>
        (pr_kind p = UserId \<and> u = Some (pr_identifier p) \<or>
         pr_kind p = UserIdAlt \<and> ua = Some (pr_identifier p)))"
  by (auto simp: authorize_gateway_def authorization_def Let_def gateway_candidates_def truthy_def
      list_ex_iff split: option.splits if_splits)

end
