(* ===== verification/Redaction.thy ===== *)
theory Redaction
  imports Prelude
begin

text \<open>
  \<open>redaction.py\<close>: the five credential patterns and \<open>redact_sensitive_text\<close>.

  The patterns are regular expressions of Python's \<open>re\<close>. \<open>rx\<close> is the part of that language
  they use, and \<open>rx_match\<close> its backtracking semantics as a list of successes: all the ways
  to match at a position, in the order in which the engine tries them, so the head of the list is the
  match it reports. \<open>rx_sub\<close> is \<open>Pattern.sub\<close>: leftmost matches, from left to right, without
  overlap. The Unicode word-character table behind \<open>\b\<close> is the parameter \<open>word\<close>.
\<close>

section \<open>Matching\<close>

datatype rx =
    Cls "nat \<Rightarrow> bool"              \<comment> \<open>one character of a class\<close>
  | Many "nat \<Rightarrow> bool" nat         \<comment> \<open>a class repeated at least n times, greedy\<close>
  | Lazy "nat \<Rightarrow> bool"             \<comment> \<open>a class repeated, as few times as possible\<close>
  | Opt rx                        \<comment> \<open>\<open>(?:r)?\<close>, greedy\<close>
  | Seq rx rx
  | Grp string rx                 \<comment> \<open>a named group\<close>
  | Ref string                    \<comment> \<open>\<open>(?P=name)\<close>\<close>
  | WordBoundary
  | NotBehind "nat \<Rightarrow> bool"        \<comment> \<open>\<open>(?<!class)\<close>\<close>

record rx_state =
  prev :: "nat option"
  rest :: ustr
  groups :: "(string \<times> ustr) list"

definition advance :: "nat \<Rightarrow> rx_state \<Rightarrow> rx_state" where
  "advance n s =
     (if n = 0 then s
      else s\<lparr>prev := Some (last (take n (rest s))), rest := drop n (rest s)\<rparr>)"

definition run_length :: "(nat \<Rightarrow> bool) \<Rightarrow> ustr \<Rightarrow> nat" where
  "run_length p s = length (takeWhile p s)"

definition word_boundary :: "(nat \<Rightarrow> bool) \<Rightarrow> rx_state \<Rightarrow> bool" where
  "word_boundary word s \<longleftrightarrow>
     ((case prev s of None \<Rightarrow> False | Some c \<Rightarrow> word c) \<noteq>
      (case rest s of [] \<Rightarrow> False | c # _ \<Rightarrow> word c))"

primrec rx_match :: "(nat \<Rightarrow> bool) \<Rightarrow> rx \<Rightarrow> rx_state \<Rightarrow> rx_state list" where
  "rx_match word (Cls p) s =
     (case rest s of [] \<Rightarrow> [] | c # _ \<Rightarrow> if p c then [advance 1 s] else [])"
| "rx_match word (Many p lo) s =
     map (\<lambda>n. advance n s) (rev [lo ..< Suc (run_length p (rest s))])"
| "rx_match word (Lazy p) s = map (\<lambda>n. advance n s) [0 ..< Suc (run_length p (rest s))]"
| "rx_match word (Opt r) s = rx_match word r s @ [s]"
| "rx_match word (Seq r1 r2) s = concat (map (rx_match word r2) (rx_match word r1 s))"
| "rx_match word (Grp g r) s =
     map (\<lambda>s'. s'\<lparr>groups := (g, take (length (rest s) - length (rest s')) (rest s)) # groups s'\<rparr>)
       (rx_match word r s)"
| "rx_match word (Ref g) s =
     (case map_of (groups s) g of
        None \<Rightarrow> []
      | Some t \<Rightarrow> if prefix t (rest s) then [advance (length t) s] else [])"
| "rx_match word WordBoundary s = (if word_boundary word s then [s] else [])"
| "rx_match word (NotBehind p) s =
     (case prev s of None \<Rightarrow> [s] | Some c \<Rightarrow> if p c then [] else [s])"

definition group_text :: "string \<Rightarrow> rx_state \<Rightarrow> ustr" where
  "group_text g s = (case map_of (groups s) g of None \<Rightarrow> [] | Some t \<Rightarrow> t)"

text \<open>
  \<open>Pattern.sub\<close>. None of the patterns matches the empty text; a match that consumes nothing
  is treated as no match, which also bounds the scan.
\<close>

function rx_sub ::
    "(nat \<Rightarrow> bool) \<Rightarrow> rx \<Rightarrow> (rx_state \<Rightarrow> ustr) \<Rightarrow> nat option \<Rightarrow> ustr \<Rightarrow> ustr" where
  "rx_sub word r repl pv [] = []"
| "rx_sub word r repl pv (c # cs) =
     (case rx_match word r \<lparr>prev = pv, rest = c # cs, groups = []\<rparr> of
        [] \<Rightarrow> c # rx_sub word r repl (Some c) cs
      | m # _ \<Rightarrow>
          if length (rest m) \<le> length cs then repl m @ rx_sub word r repl (prev m) (rest m)
          else c # rx_sub word r repl (Some c) cs)"
  by pat_completeness auto
termination
  by (relation "measure (\<lambda>(word, r, repl, pv, cs). length cs)") auto

section \<open>The patterns\<close>

definition upper_case :: "nat \<Rightarrow> bool" where
  "upper_case c \<longleftrightarrow> 65 \<le> c \<and> c \<le> 90"

definition digit :: "nat \<Rightarrow> bool" where
  "digit c \<longleftrightarrow> 48 \<le> c \<and> c \<le> 57"

definition one_of :: "string \<Rightarrow> nat \<Rightarrow> bool" where
  "one_of cs c \<longleftrightarrow> c \<in> set (lit cs)"

text \<open>
  \<open>re.IGNORECASE\<close> on text also folds the dotted capital and the dotless i, the long s and the
  Kelvin sign.
\<close>

definition fold_case :: "nat \<Rightarrow> nat" where
  "fold_case c =
     (if upper_case c then c + 32
      else if c = 304 \<or> c = 305 then 105
      else if c = 383 then 115
      else if c = 8490 then 107
      else c)"

definition lower_case :: "nat \<Rightarrow> bool" where
  "lower_case c \<longleftrightarrow> 97 \<le> c \<and> c \<le> 122"

definition alnum_ci :: "nat \<Rightarrow> bool" where
  "alnum_ci c \<longleftrightarrow> lower_case (fold_case c) \<or> digit c"

fun seqs :: "rx list \<Rightarrow> rx" where
  "seqs [] = Many (\<lambda>_. False) 0"
| "seqs [r] = r"
| "seqs (r # rs) = Seq r (seqs rs)"

definition exact :: "string \<Rightarrow> rx list" where
  "exact s = map (\<lambda>c. Cls (\<lambda>x. x = c)) (lit s)"

definition exact_ci :: "string \<Rightarrow> rx list" where
  "exact_ci s = map (\<lambda>c. Cls (\<lambda>x. fold_case x = c)) (lit s)"

definition REDACTION_MARKER :: ustr where
  "REDACTION_MARKER = lit ''[REDACTED]''"

definition private_key_pattern :: rx where
  "private_key_pattern = seqs
     (exact ''-----BEGIN '' @
      [Grp ''label'' (seqs
         (Opt (seqs ([Cls (\<lambda>c. upper_case c \<or> digit c),
                     Many (\<lambda>c. upper_case c \<or> digit c \<or> one_of '' -'' c) 0] @ exact '' ''))
          # exact ''PRIVATE KEY''))] @
      exact ''-----'' @
      [Lazy (\<lambda>_. True)] @
      exact ''-----END '' @ [Ref ''label''] @ exact ''-----'')"

definition blanks :: rx where
  "blanks = Many (\<lambda>c. c = 32 \<or> c = 9) 0"

definition authorization_header_pattern :: rx where
  "authorization_header_pattern = seqs
     [Grp ''prefix'' (seqs
        (WordBoundary # exact_ci ''authorization'' @ [blanks] @ exact '':'' @ [blanks])),
      Many (\<lambda>c. c \<noteq> 13 \<and> c \<noteq> 10) 1]"

definition bearer_token_pattern :: rx where
  "bearer_token_pattern = seqs
     [Grp ''prefix'' (seqs
        (WordBoundary # exact_ci ''bearer'' @ [Many (\<lambda>c. c = 32 \<or> c = 9) 1])),
      Many (\<lambda>c. alnum_ci c \<or> one_of ''._~+/=-'' c) 8]"

definition quote_char :: "nat \<Rightarrow> bool" where
  "quote_char c \<longleftrightarrow> c = 34 \<or> c = 39"

definition api_key_pattern :: rx where
  "api_key_pattern = seqs
     [Grp ''prefix'' (seqs
        (NotBehind alnum_ci # exact_ci ''api'' @ [Opt (Cls (one_of ''-_ ''))] @
         exact_ci ''key'' @
         [WordBoundary, Opt (Cls quote_char), blanks, Cls (one_of ''=:''), blanks])),
      Grp ''quote'' (Opt (Cls quote_char)),
      Many (\<lambda>c. \<not> (py_space c \<or> quote_char c \<or> one_of ''`,;}]'' c)) 4,
      Ref ''quote'']"

definition url_userinfo_pattern :: rx where
  "url_userinfo_pattern = seqs
     [Grp ''scheme'' (seqs
        (WordBoundary # exact_ci ''http'' @ [Opt (Cls (\<lambda>c. fold_case c = 115))] @ exact ''://'')),
      Many (\<lambda>c. \<not> (py_space c \<or> one_of ''/@'' c)) 1,
      Opt (seqs (exact '':'' @ [Many (\<lambda>c. \<not> (py_space c \<or> one_of ''/@'' c)) 0])),
      Cls (\<lambda>c. c = 64)]"

section \<open>The redactor\<close>

definition redact_private_key :: "(nat \<Rightarrow> bool) \<Rightarrow> ustr \<Rightarrow> ustr" where
  "redact_private_key word = rx_sub word private_key_pattern (\<lambda>_. REDACTION_MARKER) None"

definition redact_authorization :: "(nat \<Rightarrow> bool) \<Rightarrow> ustr \<Rightarrow> ustr" where
  "redact_authorization word =
     rx_sub word authorization_header_pattern (\<lambda>m. group_text ''prefix'' m @ REDACTION_MARKER) None"

definition redact_bearer :: "(nat \<Rightarrow> bool) \<Rightarrow> ustr \<Rightarrow> ustr" where
  "redact_bearer word =
     rx_sub word bearer_token_pattern (\<lambda>m. group_text ''prefix'' m @ REDACTION_MARKER) None"

definition redact_api_key :: "(nat \<Rightarrow> bool) \<Rightarrow> ustr \<Rightarrow> ustr" where
  "redact_api_key word =
     rx_sub word api_key_pattern
       (\<lambda>m. group_text ''prefix'' m @ group_text ''quote'' m @ REDACTION_MARKER @
            group_text ''quote'' m) None"

definition redact_url_userinfo :: "(nat \<Rightarrow> bool) \<Rightarrow> ustr \<Rightarrow> ustr" where
  "redact_url_userinfo word =
     rx_sub word url_userinfo_pattern
       (\<lambda>m. group_text ''scheme'' m @ REDACTION_MARKER @ lit ''@'') None"

definition redact_sensitive_text :: "(nat \<Rightarrow> bool) \<Rightarrow> ustr \<Rightarrow> ustr" where
  "redact_sensitive_text word text =
     redact_url_userinfo word
       (redact_api_key word
         (redact_bearer word
           (redact_authorization word
             (redact_private_key word text))))"

definition ascii_word :: "nat \<Rightarrow> bool" where
  "ascii_word c \<longleftrightarrow> upper_case c \<or> lower_case c \<or> digit c \<or> c = 95"

end
