(* ===== verification/Retention.thy ===== *)
theory Retention
  imports Settings Redaction
begin

text \<open>
  \<open>retention.py\<close>: from one completed turn to the segments that the outbox stores. The model
  follows the code from the argument checks over redaction, the split into paragraphs, the packing
  of paragraphs into records of bounded size, to the digests and document ids.

  Parameters: \<open>sha\<close> (SHA-256, bytes to hexadecimal digest), \<open>word\<close> (the Unicode word
  table behind the redactor), the fresh event id and the clock reading of one call.
\<close>

section \<open>Data\<close>

datatype retention_error = CapacityExceeded | Rejected

record retained_role =
  role_name :: ustr
  role_content :: ustr
  role_prefix :: "ustr option"

record retained_segment =
  document_id :: string
  payload_hash :: string
  payload_schema :: string
  source_sha256 :: string
  segment_index :: int
  segment_count :: int
  content :: ustr

definition derive_segment_payload_hash ::
    "(bytes \<Rightarrow> string) \<Rightarrow> string \<Rightarrow> string \<Rightarrow> int \<Rightarrow> int \<Rightarrow> ustr \<Rightarrow> string" where
  "derive_segment_payload_hash sha schema source index n text =
     sha (utf8_bytes (dumps (JObj
       [(''content'', JStr text),
        (''payload_schema'', JStr (lit schema)),
        (''segment_count'', JInt n),
        (''segment_index'', JInt index),
        (''source_sha256'', JStr (lit source))])))"

section \<open>Paragraphs\<close>

text \<open>
  The separator pattern is \<open>(?:\r\n|[\r\n])(?:[ \t]*(?:\r\n|[\r\n]))+\<close>. \<open>newline_lengths\<close>
  lists the ways to match one line break in the order of the alternatives, \<open>more_breaks\<close> the
  ways to match the repeated group, longest first, as the backtracking engine tries them.
\<close>

definition newline_lengths :: "ustr \<Rightarrow> nat list" where
  "newline_lengths s =
     (if take 2 s = [13, 10] then [2, 1]
      else if take 1 s = [13] \<or> take 1 s = [10] then [1]
      else [])"

definition blank_run :: "ustr \<Rightarrow> nat" where
  "blank_run s = run_length (\<lambda>c. c = 32 \<or> c = 9) s"

lemma newline_lengths_bound: "t \<in> set (newline_lengths s) \<Longrightarrow> 0 < t \<and> t \<le> length s"
  by (cases s; cases "tl s") (auto simp: newline_lengths_def split: if_splits)

function more_breaks :: "ustr \<Rightarrow> nat list" where
  "more_breaks [] = []"
| "more_breaks (c # cs) =
     (let b = blank_run (c # cs); r = drop b (c # cs)
      in concat (map (\<lambda>t. map (\<lambda>n. b + t + n) (more_breaks (drop t r)) @ [b + t])
           (newline_lengths r)))"
  by pat_completeness auto
termination
proof (relation "measure length")
  fix c :: nat and cs b r t
  assume "b = blank_run (c # cs)" "r = drop b (c # cs)" "t \<in> set (newline_lengths r)"
  then show "(drop t r, c # cs) \<in> measure length"
    using newline_lengths_bound [of t r] by (auto simp: less_Suc_eq_le)
qed simp

declare more_breaks.simps [simp del]

definition separator_match :: "ustr \<Rightarrow> nat option" where
  "separator_match s =
     (case concat (map (\<lambda>t. map (\<lambda>n. t + n) (more_breaks (drop t s))) (newline_lengths s)) of
        [] \<Rightarrow> None | n # _ \<Rightarrow> Some n)"

text \<open>
  \<open>_semantic_paragraphs\<close>: the text between two matches is a paragraph unless it is blank; a
  paragraph carries the last separator before it.
\<close>

fun scan_paragraphs :: "ustr \<Rightarrow> ustr \<Rightarrow> ustr \<Rightarrow> (ustr \<times> ustr) list" where
  "scan_paragraphs sep acc [] = (if blank acc then [] else [(sep, acc)])"
| "scan_paragraphs sep acc (c # cs) =
     (case separator_match (c # cs) of
        None \<Rightarrow> scan_paragraphs sep (acc @ [c]) cs
      | Some n \<Rightarrow>
          (if blank acc then [] else [(sep, acc)]) @
          scan_paragraphs (take n (c # cs)) [] (drop (n - 1) cs))"

definition semantic_paragraphs :: "ustr \<Rightarrow> retention_error + (ustr \<times> ustr) list" where
  "semantic_paragraphs text =
     (let ps = scan_paragraphs [] [] text in if ps = [] then Inl Rejected else Inr ps)"

section \<open>Records\<close>

type_synonym common = "(string \<times> json) list"

definition role_payload :: "retained_role \<Rightarrow> ustr option \<Rightarrow> json" where
  "role_payload role override =
     (let rendered = (case override of None \<Rightarrow> role_content role | Some c \<Rightarrow> c);
          text = (case role_prefix role of None \<Rightarrow> rendered | Some p \<Rightarrow> p @ [10, 10] @ rendered)
      in JObj [(''role'', JStr (role_name role)), (''content'', JStr text)])"

definition event_content :: "common \<Rightarrow> json list \<Rightarrow> ustr" where
  "event_content common roles = dumps (JObj (common @ [(''roles'', JList roles)]))"

definition role_record :: "common \<Rightarrow> retained_role \<Rightarrow> ustr \<Rightarrow> ustr" where
  "role_record common role text = event_content common [role_payload role (Some text)]"

text \<open>JSON escaping is additive; the two surrounding quotes are omitted.\<close>

definition text_bytes :: "ustr \<Rightarrow> int" where
  "text_bytes s = int (utf8_len (dumps (JStr s))) - 2"

definition record_bytes :: "ustr \<Rightarrow> int" where
  "record_bytes s = int (utf8_len s)"

section \<open>Packing\<close>

definition over_limit :: "int option \<Rightarrow> (int \<Rightarrow> int \<Rightarrow> bool) \<Rightarrow> ustr list \<Rightarrow> bool" where
  "over_limit limit cmp contents =
     (case limit of None \<Rightarrow> False | Some l \<Rightarrow> cmp (int (length contents)) l)"

text \<open>The loop over the paragraphs of one role: \<open>packed\<close> is the record being filled.\<close>

fun pack_paragraphs ::
    "common \<Rightarrow> retained_role \<Rightarrow> int \<Rightarrow> int \<Rightarrow> int option \<Rightarrow> ustr list \<Rightarrow> ustr list \<Rightarrow> int
     \<Rightarrow> (ustr \<times> ustr) list \<Rightarrow> retention_error + (ustr list \<times> ustr list)" where
  "pack_paragraphs common role overhead max_bytes limit contents packed packed_bytes [] =
     Inr (contents, packed)"
| "pack_paragraphs common role overhead max_bytes limit contents packed packed_bytes
     ((separator, paragraph) # ps) =
     (let paragraph_bytes = text_bytes paragraph; separator_bytes = text_bytes separator in
      if overhead + paragraph_bytes > max_bytes then Inl CapacityExceeded
      else if packed \<noteq> [] \<and> packed_bytes + separator_bytes + paragraph_bytes > max_bytes then
        (let contents' = contents @ [role_record common role (concat packed)] in
         if over_limit limit (\<ge>) contents' then Inl CapacityExceeded
         else pack_paragraphs common role overhead max_bytes limit contents' [paragraph]
                (overhead + paragraph_bytes) ps)
      else if packed \<noteq> [] then
        pack_paragraphs common role overhead max_bytes limit contents
          (packed @ [separator, paragraph]) (packed_bytes + separator_bytes + paragraph_bytes) ps
      else
        pack_paragraphs common role overhead max_bytes limit contents
          (packed @ [paragraph]) (packed_bytes + paragraph_bytes) ps)"

definition pack_role ::
    "common \<Rightarrow> int \<Rightarrow> int option \<Rightarrow> ustr list \<Rightarrow> retained_role \<Rightarrow> retention_error + ustr list" where
  "pack_role common max_bytes limit contents role =
     (let complete_role = event_content common [role_payload role None] in
      if record_bytes complete_role \<le> max_bytes then
        (let contents' = contents @ [complete_role] in
         if over_limit limit (>) contents' then Inl CapacityExceeded else Inr contents')
      else
        (let overhead = record_bytes (role_record common role []) in
         case semantic_paragraphs (role_content role) of
           Inl e \<Rightarrow> Inl e
         | Inr ps \<Rightarrow>
             (case pack_paragraphs common role overhead max_bytes limit contents [] overhead ps of
                Inl e \<Rightarrow> Inl e
              | Inr (contents', packed) \<Rightarrow>
                  (let contents'' = contents' @ [role_record common role (concat packed)] in
                   if over_limit limit (>) contents'' then Inl CapacityExceeded
                   else Inr contents''))))"

fun pack_roles ::
    "common \<Rightarrow> int \<Rightarrow> int option \<Rightarrow> ustr list \<Rightarrow> retained_role list \<Rightarrow> retention_error + ustr list" where
  "pack_roles common max_bytes limit contents [] = Inr contents"
| "pack_roles common max_bytes limit contents (role # roles) =
     (case pack_role common max_bytes limit contents role of
        Inl e \<Rightarrow> Inl e
      | Inr contents' \<Rightarrow> pack_roles common max_bytes limit contents' roles)"

text \<open>
  Encoding the complete record raises if a text holds a lone surrogate; every later record holds
  parts of the same texts.
\<close>

definition semantic_contents ::
    "common \<Rightarrow> retained_role list \<Rightarrow> int \<Rightarrow> int option \<Rightarrow> retention_error + ustr list" where
  "semantic_contents common roles max_bytes limit =
     (let complete = event_content common (map (\<lambda>r. role_payload r None) roles) in
      if \<not> scalar_text complete then Inl Rejected
      else if record_bytes complete \<le> max_bytes then
        (case limit of
           Some l \<Rightarrow> if l < 1 then Inl CapacityExceeded else Inr [complete]
         | None \<Rightarrow> Inr [complete])
      else
        (case pack_roles common max_bytes limit [] roles of
           Inl e \<Rightarrow> Inl e
         | Inr contents \<Rightarrow> if contents = [] then Inl Rejected else Inr contents))"

section \<open>The turn\<close>

text \<open>
  The configured tags arrive as the canonical tuple of \<open>canonicalize_retain_tags\<close>, which that
  function returns unchanged; the shape checks of the code are repeated on them.
\<close>

definition tags_shape_ok :: "ustr list \<Rightarrow> bool" where
  "tags_shape_ok tags \<longleftrightarrow> list_all (\<lambda>t. t \<noteq> [] \<and> strip t = t) tags \<and> distinct tags"

definition hex_digest :: "nat \<Rightarrow> string \<Rightarrow> bool" where
  "hex_digest n s \<longleftrightarrow> length s = n \<and> list_all (\<lambda>c. c \<in> set ''0123456789abcdef'') s"

record turn_input =
  ti_session_id :: py
  ti_user_content :: py
  ti_assistant_content :: py
  ti_tags :: "ustr list"
  ti_segment_max_bytes :: py
  ti_segment_count_limit :: py
  ti_assistant_context :: py
  ti_model_selected :: py

record validated_turn =
  vt_session_id :: ustr
  vt_user :: ustr
  vt_assistant :: ustr
  vt_max_bytes :: int
  vt_limit :: "int option"
  vt_context :: "ustr option"
  vt_model_selected :: bool

definition nonblank_text :: "py \<Rightarrow> ustr option" where
  "nonblank_text v = (case v of PStr s \<Rightarrow> if blank s then None else Some s | _ \<Rightarrow> None)"

definition positive_int :: "py \<Rightarrow> int option" where
  "positive_int v = (case v of PInt i \<Rightarrow> if 0 < i then Some i else None | _ \<Rightarrow> None)"

definition optional :: "(py \<Rightarrow> 'a option) \<Rightarrow> py \<Rightarrow> 'a option option" where
  "optional f v = (case v of PNone \<Rightarrow> Some None | _ \<Rightarrow> map_option Some (f v))"

definition validate_turn :: "turn_input \<Rightarrow> validated_turn option" where
  "validate_turn t =
     Option.bind (py_str (ti_session_id t)) (\<lambda>session.
     Option.bind (nonblank_text (ti_user_content t)) (\<lambda>u.
     Option.bind (nonblank_text (ti_assistant_content t)) (\<lambda>a.
     Option.bind (positive_int (ti_segment_max_bytes t)) (\<lambda>m.
     Option.bind (py_bool (ti_model_selected t)) (\<lambda>b.
     Option.bind (optional nonblank_text (ti_assistant_context t)) (\<lambda>ctx.
     Option.bind (optional positive_int (ti_segment_count_limit t)) (\<lambda>lmt.
     if tags_shape_ok (ti_tags t)
     then Some \<lparr>vt_session_id = session, vt_user = u, vt_assistant = a, vt_max_bytes = m,
                vt_limit = lmt, vt_context = ctx, vt_model_selected = b\<rparr>
     else None)))))))"

definition turn_roles :: "(nat \<Rightarrow> bool) \<Rightarrow> validated_turn \<Rightarrow> retained_role list" where
  "turn_roles word v =
     [\<lparr>role_name = lit ''user'', role_content = redact_sensitive_text word (vt_user v),
       role_prefix = None\<rparr>,
      \<lparr>role_name = lit ''assistant'', role_content = redact_sensitive_text word (vt_assistant v),
       role_prefix = map_option (\<lambda>c. lit ''Context: '' @ redact_sensitive_text word c) (vt_context v)\<rparr>]"

definition turn_common ::
    "(bytes \<Rightarrow> string) \<Rightarrow> (nat \<Rightarrow> bool) \<Rightarrow> ustr list \<Rightarrow> string \<Rightarrow> ustr \<Rightarrow> validated_turn
     \<Rightarrow> common option" where
  "turn_common sha word tags event_id occurred_at v =
     (case encode_utf8 (vt_session_id v) of
        None \<Rightarrow> None
      | Some session_bytes \<Rightarrow>
          (let common =
             [(''payload_schema'', JStr (lit PAYLOAD_SCHEMA_VERSION)),
              (''session_sha256'', JStr (lit (sha session_bytes))),
              (''tags'', JList (map JStr tags))] in
           if vt_model_selected v then
             (let identity = dumps (JObj (common @
                [(''record_schema'', JStr (lit RETAINED_MODEL_RECORD_SCHEMA)),
                 (''roles'', JList (map (\<lambda>r. role_payload r None) (turn_roles word v)))])) in
              case encode_utf8 identity of
                None \<Rightarrow> None
              | Some b \<Rightarrow> Some (common @
                  [(''memory_id'', JStr (lit (take 32 (sha b)))),
                   (''record_schema'', JStr (lit RETAINED_MODEL_RECORD_SCHEMA))]))
           else if hex_digest 32 event_id \<and> occurred_at \<noteq> [] then
             Some (common @
               [(''event_id'', JStr (lit event_id)),
                (''occurred_at'', JStr occurred_at),
                (''record_schema'', JStr (lit RETAINED_EVENT_RECORD_SCHEMA))])
           else None))"

definition DOCUMENT_ID_PREFIX :: string where
  "DOCUMENT_ID_PREFIX = PAYLOAD_SCHEMA_VERSION @ '':''"

definition build_segment ::
    "(bytes \<Rightarrow> string) \<Rightarrow> string \<Rightarrow> nat \<Rightarrow> nat \<times> ustr \<Rightarrow> retained_segment" where
  "build_segment sha source n entry =
     (let digest = derive_segment_payload_hash sha PAYLOAD_SCHEMA_VERSION source
                     (int (fst entry)) (int n) (snd entry) in
      \<lparr>document_id = DOCUMENT_ID_PREFIX @ digest, payload_hash = digest,
       payload_schema = PAYLOAD_SCHEMA_VERSION, source_sha256 = source,
       segment_index = int (fst entry), segment_count = int n, content = snd entry\<rparr>)"

definition build_segments :: "(bytes \<Rightarrow> string) \<Rightarrow> ustr list \<Rightarrow> retained_segment list" where
  "build_segments sha contents =
     map (build_segment sha (sha (utf8_bytes (concat contents))) (length contents))
       (enumerate 0 contents)"

definition build_retained_segments ::
    "(bytes \<Rightarrow> string) \<Rightarrow> (nat \<Rightarrow> bool) \<Rightarrow> string \<Rightarrow> ustr \<Rightarrow> turn_input
     \<Rightarrow> retention_error + retained_segment list" where
  "build_retained_segments sha word event_id occurred_at t =
     (case validate_turn t of
        None \<Rightarrow> Inl Rejected
      | Some v \<Rightarrow>
          (case turn_common sha word (ti_tags t) event_id occurred_at v of
             None \<Rightarrow> Inl Rejected
           | Some common \<Rightarrow>
               (case semantic_contents common (turn_roles word v) (vt_max_bytes v) (vt_limit v) of
                  Inl e \<Rightarrow> Inl e
                | Inr contents \<Rightarrow> Inr (build_segments sha contents))))"


section \<open>Separators\<close>

lemma newline_lengths_break: "t \<in> set (newline_lengths s) \<Longrightarrow> set (take t s) \<subseteq> {10, 13}"
  by (cases s; cases "tl s") (auto simp: newline_lengths_def split: if_splits)

lemma blank_run_le: "blank_run s \<le> length s"
  by (simp add: blank_run_def run_length_def length_takeWhile_le)

lemma take_blank_run: "set (take (blank_run s) s) \<subseteq> {9, 32}"
  unfolding blank_run_def run_length_def takeWhile_eq_take [symmetric]
  by (auto dest: set_takeWhileD)

lemma more_breaks_sound:
  "n \<in> set (more_breaks s) \<Longrightarrow> 0 < n \<and> n \<le> length s \<and> set (take n s) \<subseteq> {9, 10, 13, 32}"
proof (induction s arbitrary: n rule: more_breaks.induct)
  case 1
  then show ?case by (simp add: more_breaks.simps)
next
  case (2 c cs)
  let ?s = "c # cs"
  let ?b = "blank_run ?s"
  let ?r = "drop ?b ?s"
  from "2.prems" obtain t k where t: "t \<in> set (newline_lengths ?r)" and n: "n = ?b + t + k"
    and k: "k = 0 \<or> k \<in> set (more_breaks (drop t ?r))"
    by (subst (asm) more_breaks.simps) (auto simp: Let_def)
  have tb: "0 < t" "t \<le> length ?s - ?b" "set (take t ?r) \<subseteq> {10, 13}"
    using newline_lengths_bound [OF t] newline_lengths_break [OF t] by auto
  have kb: "k \<le> length (drop t ?r) \<and> set (take k (drop t ?r)) \<subseteq> {9, 10, 13, 32}"
    using k "2.IH" [OF refl refl t, of k] by auto
  have "take n ?s = take ?b ?s @ take t ?r @ take k (drop t ?r)"
    unfolding n take_add drop_drop append_assoc by (simp only: add.commute)
  then have "set (take n ?s) \<subseteq> {9, 10, 13, 32}"
    using take_blank_run [of ?s] tb(3) kb by auto
  moreover have "n \<le> length ?s" using blank_run_le [of ?s] tb(2) kb n by auto
  ultimately show ?case using tb n by auto
qed

lemma separator_match_sound:
  assumes "separator_match s = Some n"
  shows "0 < n \<and> n \<le> length s \<and> set (take n s) \<subseteq> {9, 10, 13, 32}"
proof -
  from assms have "n \<in> set (concat (map (\<lambda>t. map (\<lambda>n. t + n) (more_breaks (drop t s))) (newline_lengths s)))"
    by (simp add: separator_match_def split: list.splits del: set_concat)
  then obtain t k where t: "t \<in> set (newline_lengths s)" and k: "k \<in> set (more_breaks (drop t s))"
    and n: "n = t + k" by auto
  have "take n s = take t s @ take k (drop t s)" by (simp add: n take_add)
  then show ?thesis
    using newline_lengths_bound [OF t] newline_lengths_break [OF t] more_breaks_sound [OF k] n by auto
qed

abbreviation ink :: "ustr \<Rightarrow> ustr" where
  "ink s \<equiv> filter (\<lambda>c. \<not> py_space c) s"

lemma blank_ink: "blank s \<longleftrightarrow> ink s = []"
  by (simp add: blank_def list_all_iff filter_empty_conv)

lemma ink_separator:
  assumes "separator_match s = Some n"
  shows "ink (take n s) = []"
proof -
  have "set (take n s) \<subseteq> {9, 10, 13, 32}" using separator_match_sound [OF assms] by blast
  then show ?thesis by (fastforce simp: filter_empty_conv py_space_def)
qed

lemma scan_paragraphs_ink:
  "concat (map (ink \<circ> snd) (scan_paragraphs sep acc s)) = ink (acc @ s)"
proof (induction sep acc s rule: scan_paragraphs.induct)
  case (1 sep acc)
  then show ?case by (simp add: blank_ink)
next
  case (2 sep acc c cs)
  show ?case
  proof (cases "separator_match (c # cs)")
    case None
    then show ?thesis using "2.IH"(1) [OF None] by simp
  next
    case (Some n)
    then have "0 < n" using separator_match_sound by blast
    then have "ink (c # cs) = ink (take n (c # cs)) @ ink (drop (n - 1) cs)"
      by (metis append_take_drop_id drop_Cons' filter_append not_gr_zero)
    then have "ink (drop (n - 1) cs) = ink (c # cs)" using ink_separator [OF Some] by simp
    then show ?thesis using Some "2.IH"(2) [OF Some] by (simp add: blank_ink)
  qed
qed

lemma scan_paragraphs_parts:
  "(s, p) \<in> set (scan_paragraphs sep acc t) \<Longrightarrow> \<not> blank p \<and> (s = sep \<or> ink s = [])"
proof (induction sep acc t rule: scan_paragraphs.induct)
  case (2 sep acc c cs)
  then show ?case using ink_separator by (auto split: option.splits if_splits)
qed (auto split: if_splits)


lemma scan_paragraphs_chars:
  "(s, p) \<in> set (scan_paragraphs sep acc t) \<Longrightarrow> set s \<union> set p \<subseteq> set sep \<union> set acc \<union> set t"
proof (induction sep acc t rule: scan_paragraphs.induct)
  case (2 sep acc c cs)
  show ?case
  proof (cases "separator_match (c # cs)")
    case None
    with "2.prems" "2.IH"(1) [OF None] show ?thesis by auto
  next
    case (Some n)
    have "set (take n (c # cs)) \<subseteq> insert c (set cs)" "set (drop (n - 1) cs) \<subseteq> set cs"
      by (metis list.simps(15) set_take_subset, rule set_drop_subset)
    with "2.prems" "2.IH"(2) [OF Some] Some show ?thesis by (fastforce split: if_splits)
  qed
qed (auto split: if_splits)

section \<open>Sizes of records\<close>

text \<open>The size of a role's record is its empty record's size plus the size of the escaped text.\<close>

lemma record_bytes_role:
  "record_bytes (role_record common role t) = record_bytes (role_record common role []) + text_bytes t"
  using escape_append [of "[10, 10]" t]
  by (cases "role_prefix role")
    (simp_all add: record_bytes_def role_record_def event_content_def role_payload_def text_bytes_def
      json_sizes del: dumps.simps(4,5))

lemma text_bytes_append: "text_bytes (s @ t) = text_bytes s + text_bytes t"
  by (simp add: text_bytes_def)

lemma text_bytes_nonneg: "0 \<le> text_bytes t"
  by (simp add: text_bytes_def)

lemma complete_role_record: "event_content common [role_payload role None] = role_record common role (role_content role)"
  by (simp add: role_record_def role_payload_def)

section \<open>Packing: grouping and bounds\<close>

text \<open>A pack is a nonempty run of paragraphs; the separator before the first one is dropped.\<close>

fun pack_text :: "(ustr \<times> ustr) list \<Rightarrow> ustr" where
  "pack_text [] = []"
| "pack_text ((_, p) # ps) = p @ concat (map (\<lambda>(s, p). s @ p) ps)"

lemma pack_text_snoc:
  "pack_text (ps @ [(s, p)]) = (if ps = [] then p else pack_text ps @ s @ p)"
  by (cases ps rule: pack_text.cases) auto

definition grouping :: "(ustr \<times> ustr) list list \<Rightarrow> (ustr \<times> ustr) list \<Rightarrow> bool" where
  "grouping gs ps \<longleftrightarrow> concat gs = ps \<and> [] \<notin> set gs"

lemma pack_paragraphs_grouping:
  assumes "pack_paragraphs common role overhead m lmt contents packed pb ps = Inr (contents', packed')"
    and "concat packed = pack_text cur" and "packed = [] \<longleftrightarrow> cur = []"
    and "cur @ ps \<noteq> []"
  shows "\<exists>gs g. grouping (gs @ [g]) (cur @ ps) \<and> concat packed' = pack_text g \<and>
           contents' = contents @ map (\<lambda>g. role_record common role (pack_text g)) gs"
  using assms
proof (induction common role overhead m lmt contents packed pb ps arbitrary: cur
    rule: pack_paragraphs.induct)
  case (1 common role overhead m lmt contents packed pb)
  then show ?case
    by (intro exI [of _ "[]"] exI [of _ cur]) (auto simp: grouping_def)
next
  case (2 common role overhead m lmt contents packed pb s p ps)
  let ?c = "contents @ [role_record common role (concat packed)]"
  from "2.prems"(1) have fits: "\<not> m < overhead + text_bytes p" by (auto split: if_splits)
  show ?case
  proof (cases "packed \<noteq> [] \<and> m < pb + text_bytes s + text_bytes p")
    case True
    with "2.prems"(1) fits have rec: "pack_paragraphs common role overhead m lmt ?c [p]
        (overhead + text_bytes p) ps = Inr (contents', packed')" and lim: "\<not> over_limit lmt (\<ge>) ?c"
      by (auto simp: Let_def split: if_splits)
    from "2.IH"(1) [OF refl refl fits True refl lim rec, of "[(s, p)]"] obtain gs g where
      gs: "grouping (gs @ [g]) ((s, p) # ps)" "concat packed' = pack_text g"
        "contents' = ?c @ map (\<lambda>g. role_record common role (pack_text g)) gs"
      by auto
    then show ?thesis using True "2.prems"(2,3)
      by (intro exI [of _ "cur # gs"] exI [of _ g]) (auto simp: grouping_def)
  next
    case False
    note no = this
    show ?thesis
    proof (cases "packed = []")
      case True
      with "2.prems"(1) fits have "pack_paragraphs common role overhead m lmt contents (packed @ [p])
          (pb + text_bytes p) ps = Inr (contents', packed')"
        by (auto simp: Let_def split: if_splits)
      from "2.IH"(3) [OF refl refl fits no _ this, of "[(s, p)]"] True "2.prems"(3)
      show ?thesis by simp
    next
      case nonempty: False
      with "2.prems"(1) fits no have "pack_paragraphs common role overhead m lmt contents
          (packed @ [s, p]) (pb + text_bytes s + text_bytes p) ps = Inr (contents', packed')"
        by (auto simp: Let_def split: if_splits)
      from "2.IH"(2) [OF refl refl fits no nonempty this, of "cur @ [(s, p)]"] nonempty "2.prems"(2,3)
      show ?thesis by (simp add: pack_text_snoc)
    qed
  qed
qed

lemma pack_paragraphs_bounds:
  assumes "pack_paragraphs common role overhead m lmt contents packed pb ps = Inr (contents', packed')"
    and "overhead = record_bytes (role_record common role [])"
    and "pb = record_bytes (role_record common role (concat packed))"
    and "packed \<noteq> [] \<Longrightarrow> pb \<le> m" and "packed \<noteq> [] \<or> ps \<noteq> []"
    and "list_all (\<lambda>c. record_bytes c \<le> m) contents"
  shows "list_all (\<lambda>c. record_bytes c \<le> m) (contents' @ [role_record common role (concat packed')])"
  using assms
proof (induction common role overhead m lmt contents packed pb ps
    rule: pack_paragraphs.induct)
  case (2 common role overhead m lmt contents packed pb s p ps)
  note size = record_bytes_role [of common role "concat packed"] record_bytes_role [of common role p]
    record_bytes_role [of common role "concat packed @ s @ p"]
  show ?case
  proof (cases "packed = []")
    case True
    with "2.prems" show ?thesis
      by (intro "2.IH"(3) [OF refl refl _ _ _]) (auto simp: Let_def size text_bytes_append split: if_splits)
  next
    case nonempty: False
    then show ?thesis
    proof (cases "m < pb + text_bytes s + text_bytes p")
      case True
      with nonempty "2.prems" show ?thesis
        by (intro "2.IH"(1) [OF refl refl _ _ refl]) (auto simp: Let_def size split: if_splits)
    next
      case False
      with nonempty "2.prems" show ?thesis
        by (intro "2.IH"(2) [OF refl refl]) (auto simp: Let_def size text_bytes_append split: if_splits)
    qed
  qed
qed simp


section \<open>One role, all roles\<close>

lemma semantic_paragraphs_Inr [result_iff]:
  "semantic_paragraphs t = Inr ps \<longleftrightarrow> ps = scan_paragraphs [] [] t \<and> ps \<noteq> []"
  by (auto simp: semantic_paragraphs_def Let_def)

definition in_limit :: "int option \<Rightarrow> ustr list \<Rightarrow> bool" where
  "in_limit limit contents \<longleftrightarrow> \<not> over_limit limit (>) contents"

lemma in_limit_iff: "in_limit limit cs \<longleftrightarrow> (case limit of None \<Rightarrow> True | Some l \<Rightarrow> int (length cs) \<le> l)"
  by (auto simp: in_limit_def over_limit_def split: option.splits)

lemma ink_concat: "ink (concat xss) = concat (map (\<lambda>s. ink s) xss)"
  by (induction xss) auto

lemma ink_pack_text:
  assumes "\<And>s p. (s, p) \<in> set g \<Longrightarrow> ink s = []"
  shows "ink (pack_text g) = concat (map (ink \<circ> snd) g)"
proof (cases g)
  case (Cons a ps)
  obtain s p where a: "a = (s, p)" by fastforce
  have "\<forall>(s, p) \<in> set ps. ink s = []" using assms Cons by auto
  then have "ink (concat (map (\<lambda>(s, p). s @ p) ps)) = concat (map (ink \<circ> snd) ps)"
    by (induction ps) auto
  then show ?thesis by (simp add: Cons a)
qed simp

lemma pack_text_groups_ink:
  assumes "grouping gs (scan_paragraphs [] [] t)"
  shows "concat (map (\<lambda>g. ink (pack_text g)) gs) = ink t"
proof -
  have c: "concat gs = scan_paragraphs [] [] t" using assms by (simp add: grouping_def)
  have "ink s = []" if "(s, p) \<in> set g" "g \<in> set gs" for s p g
    using that c scan_paragraphs_parts [of s p "[]" "[]" t] by (metis (no_types) UN_I filter.simps(1) set_concat)
  then have "map (\<lambda>g. ink (pack_text g)) gs = map (\<lambda>g. concat (map (ink \<circ> snd) g)) gs"
    by (intro map_cong refl ink_pack_text) blast
  also have "concat (map (\<lambda>g. concat (map (ink \<circ> snd) g)) gs) = concat (map (ink \<circ> snd) (concat gs))"
    by (induction gs) auto
  finally show ?thesis unfolding c scan_paragraphs_ink by simp
qed

lemma pack_text_chars:
  assumes "\<forall>(s, p) \<in> set g. set s \<union> set p \<subseteq> A"
  shows "set (pack_text g) \<subseteq> A"
  using assms by (cases g) fastforce+

lemma pack_text_groups_chars:
  assumes "grouping gs (scan_paragraphs [] [] t)" and "g \<in> set gs"
  shows "set (pack_text g) \<subseteq> set t"
proof (rule pack_text_chars)
  have "concat gs = scan_paragraphs [] [] t" using assms(1) by (simp add: grouping_def)
  then have "set g \<subseteq> set (scan_paragraphs [] [] t)" using assms(2) by (metis UN_upper set_concat)
  then show "\<forall>(s, p) \<in> set g. set s \<union> set p \<subseteq> set t"
    using scan_paragraphs_chars [of _ _ "[]" "[]" t] by fastforce
qed

text \<open>
  What \<open>pack_role\<close> appends: the records of the packs \<open>ts\<close> of the role, which together
  hold every character of the role's text that is not white space, in order, and no character that
  is not in the text.
\<close>

definition role_split :: "retained_role \<Rightarrow> ustr list \<Rightarrow> bool" where
  "role_split role ts \<longleftrightarrow> ts \<noteq> [] \<and> concat (map (\<lambda>t. ink t) ts) = ink (role_content role) \<and>
     (\<forall>t \<in> set ts. set t \<subseteq> set (role_content role))"

lemma pack_role_sound:
  assumes "pack_role common m lmt contents role = Inr contents'"
    and "list_all (\<lambda>c. record_bytes c \<le> m) contents"
  shows "\<exists>ts. contents' = contents @ map (role_record common role) ts \<and> role_split role ts"
    and "list_all (\<lambda>c. record_bytes c \<le> m) contents'" and "in_limit lmt contents'"
proof -
  let ?whole = "role_record common role (role_content role)"
  show "in_limit lmt contents'"
    using assms(1) by (auto simp: pack_role_def Let_def in_limit_def split: if_splits sum.splits)
  have "(\<exists>ts. contents' = contents @ map (role_record common role) ts \<and> role_split role ts) \<and>
        list_all (\<lambda>c. record_bytes c \<le> m) contents'"
  proof (cases "record_bytes ?whole \<le> m")
    case True
    then have "contents' = contents @ map (role_record common role) [role_content role]"
      using assms(1) by (auto simp: pack_role_def Let_def complete_role_record split: if_splits)
    then show ?thesis using True assms(2) by (auto simp: role_split_def intro!: exI [of _ "[role_content role]"])
  next
    case False
    let ?ps = "scan_paragraphs [] [] (role_content role)"
    let ?o = "record_bytes (role_record common role [])"
    from False assms(1) obtain c p where ne: "?ps \<noteq> []"
      and run: "pack_paragraphs common role ?o m lmt contents [] ?o ?ps = Inr (c, p)"
      and out: "contents' = c @ [role_record common role (concat p)]"
      by (auto simp: pack_role_def Let_def complete_role_record result_iff split: if_splits sum.splits)
    obtain gs g where gs: "grouping (gs @ [g]) ?ps" "concat p = pack_text g"
        "c = contents @ map (\<lambda>g. role_record common role (pack_text g)) gs"
      using pack_paragraphs_grouping [OF run, of "[]"] ne by auto
    have "contents' = contents @ map (role_record common role) (map pack_text (gs @ [g]))"
      using gs out by simp
    moreover have "role_split role (map pack_text (gs @ [g]))"
      using pack_text_groups_ink [OF gs(1)] pack_text_groups_chars [OF gs(1)]
      by (auto simp: role_split_def comp_def)
    moreover have "list_all (\<lambda>c. record_bytes c \<le> m) contents'"
      using pack_paragraphs_bounds [OF run refl] ne assms(2) out by auto
    ultimately show ?thesis by blast
  qed
  then show "\<exists>ts. contents' = contents @ map (role_record common role) ts \<and> role_split role ts"
    and "list_all (\<lambda>c. record_bytes c \<le> m) contents'" by blast+
qed

definition split_records :: "common \<Rightarrow> retained_role list \<Rightarrow> ustr list list \<Rightarrow> ustr list" where
  "split_records common roles tss = concat (map2 (\<lambda>role. map (role_record common role)) roles tss)"

lemma pack_roles_sound:
  assumes "pack_roles common m lmt contents roles = Inr contents'"
    and "list_all (\<lambda>c. record_bytes c \<le> m) contents" and "in_limit lmt contents"
  shows "(\<exists>tss. list_all2 role_split roles tss \<and> contents' = contents @ split_records common roles tss) \<and>
         list_all (\<lambda>c. record_bytes c \<le> m) contents' \<and> in_limit lmt contents'"
  using assms
proof (induction common m lmt contents roles rule: pack_roles.induct)
  case (1 common m lmt contents)
  then show ?case by (auto simp: split_records_def intro!: exI [of _ "[]"])
next
  case (2 common m lmt contents role roles)
  then obtain c where one: "pack_role common m lmt contents role = Inr c"
    and rest: "pack_roles common m lmt c roles = Inr contents'" by (auto split: sum.splits)
  note s = pack_role_sound [OF one "2.prems"(2)]
  from s(1) obtain ts where ts: "c = contents @ map (role_record common role) ts" "role_split role ts"
    by blast
  from "2.IH" [OF one rest s(2,3)] obtain tss where "list_all2 role_split roles tss"
    "contents' = c @ split_records common roles tss" "list_all (\<lambda>c. record_bytes c \<le> m) contents'"
    "in_limit lmt contents'" by blast
  then show ?case using ts
    by (auto simp: split_records_def intro!: exI [of _ "ts # tss"])
qed

lemma semantic_contents_Inr:
  assumes "semantic_contents common roles m lmt = Inr cs" and "in_limit lmt []"
  shows "(cs = [event_content common (map (\<lambda>r. role_payload r None) roles)] \<or>
          (\<exists>tss. list_all2 role_split roles tss \<and> cs = split_records common roles tss))"
    and "cs \<noteq> []" and "list_all (\<lambda>c. record_bytes c \<le> m) cs" and "in_limit lmt cs"
proof -
  let ?all = "event_content common (map (\<lambda>r. role_payload r None) roles)"
  have or: "cs = [?all] \<and> record_bytes ?all \<le> m \<and> in_limit lmt [?all] \<or>
      pack_roles common m lmt [] roles = Inr cs \<and> cs \<noteq> []"
    using assms(1)
    by (auto simp: semantic_contents_def Let_def in_limit_iff split: if_splits sum.splits option.splits)
  then show "cs \<noteq> []" by blast
  have *: "(\<exists>tss. list_all2 role_split roles tss \<and> cs = split_records common roles tss) \<and>
     list_all (\<lambda>c. record_bytes c \<le> m) cs \<and> in_limit lmt cs"
    if "pack_roles common m lmt [] roles = Inr cs"
    using pack_roles_sound [OF that] assms(2) by simp
  show "(cs = [?all] \<or> (\<exists>tss. list_all2 role_split roles tss \<and> cs = split_records common roles tss))"
    and "list_all (\<lambda>c. record_bytes c \<le> m) cs" and "in_limit lmt cs"
    using or * by auto
qed


section \<open>Failure\<close>

lemma pack_paragraphs_unlimited:
  "(\<exists>r. pack_paragraphs common role overhead m None contents packed pb ps = Inr r) \<longleftrightarrow>
     list_all (\<lambda>(_, p). overhead + text_bytes p \<le> m) ps"
  "pack_paragraphs common role overhead m None contents packed pb ps = Inl e \<Longrightarrow> e = CapacityExceeded"
  by (induction common role overhead m "None :: int option" contents packed pb ps
      rule: pack_paragraphs.induct)
    (auto simp: Let_def over_limit_def split: if_splits)

section \<open>Built segments\<close>

lemma build_segments_nth:
  assumes "i < length cs"
  shows "build_segments sha cs ! i =
    build_segment sha (sha (utf8_bytes (concat cs))) (length cs) (i, cs ! i)"
  using assms by (simp add: build_segments_def nth_enumerate_eq)

lemma length_build_segments [simp]: "length (build_segments sha cs) = length cs"
  by (simp add: build_segments_def)

lemma contents_build_segments [simp]: "map content (build_segments sha cs) = cs"
  by (rule nth_equalityI) (auto simp: build_segments_nth build_segment_def Let_def)

lemma build_retained_segments_Inr [result_iff]:
  "build_retained_segments sha word eid now t = Inr segs \<longleftrightarrow>
     (\<exists>v common cs. validate_turn t = Some v \<and> turn_common sha word (ti_tags t) eid now v = Some common \<and>
        semantic_contents common (turn_roles word v) (vt_max_bytes v) (vt_limit v) = Inr cs \<and>
        segs = build_segments sha cs)"
  by (auto simp: build_retained_segments_def split: option.splits sum.splits)

lemma nonblank_text_Some [result_iff]: "nonblank_text v = Some s \<longleftrightarrow> v = PStr s \<and> \<not> blank s"
  by (auto simp: nonblank_text_def split: py.splits)

lemma positive_int_Some [result_iff]: "positive_int v = Some i \<longleftrightarrow> v = PInt i \<and> 0 < i"
  by (auto simp: positive_int_def split: py.splits)

lemma optional_Some [result_iff]:
  "optional f v = Some r \<longleftrightarrow> (v = PNone \<and> r = None) \<or> (v \<noteq> PNone \<and> (\<exists>x. f v = Some x \<and> r = Some x))"
  by (auto simp: optional_def split: py.splits)

lemma validate_turn_bounds:
  assumes "validate_turn t = Some v"
  shows "0 < vt_max_bytes v" and "in_limit (vt_limit v) []"
    and "ti_segment_max_bytes t = PInt (vt_max_bytes v)"
    and "ti_segment_count_limit t = (case vt_limit v of None \<Rightarrow> PNone | Some l \<Rightarrow> PInt l)"
    and "ti_user_content t = PStr (vt_user v)" and "ti_assistant_content t = PStr (vt_assistant v)"
    and "ti_model_selected t = PBool (vt_model_selected v)"
  using assms
  by (auto simp: validate_turn_def bind_eq_Some_conv result_iff in_limit_iff split: if_splits)

section \<open>A sample turn\<close>

definition sample_turn :: "int \<Rightarrow> turn_input" where
  "sample_turn m =
     \<lparr>ti_session_id = PStr (lit ''s''), ti_user_content = PStr (lit ''ab'' @ [10, 10] @ lit ''cd''),
      ti_assistant_content = PStr (lit ''ok''), ti_tags = [], ti_segment_max_bytes = PInt m,
      ti_segment_count_limit = PInt 3, ti_assistant_context = PNone,
      ti_model_selected = PBool True\<rparr>"

definition sample_sha :: "bytes \<Rightarrow> string" where
  "sample_sha _ = ''0a''"

lemma sample_turn_splits:
  "map_sum id (map (\<lambda>s. utf8_len (content s)))
     (build_retained_segments sample_sha ascii_word [] [] (sample_turn 194)) = Inr [189, 189, 194]"
  by code_simp

lemma sample_segments:
  obtains segs where
    "build_retained_segments sample_sha ascii_word [] [] (sample_turn 194) = Inr segs"
    and "length segs = 3"
proof (cases "build_retained_segments sample_sha ascii_word [] [] (sample_turn 194)")
  case (Inr segs)
  then have "map (\<lambda>s. utf8_len (content s)) segs = [189, 189, 194]" using sample_turn_splits by simp
  from arg_cong [OF this, of length] have "length segs = 3" by simp
  with Inr show ?thesis by (rule that)
qed (use sample_turn_splits in simp)

section \<open>Properties\<close>

text \<open>
  C13. Whatever the turn, every segment the construction returns fits the configured byte bound, the
  number of segments respects the configured limit, and the segments are numbered 0, 1, \<dots> with
  the right total and the digests derived from their contents.
\<close>

theorem retained_segments_bounded:
  assumes "build_retained_segments sha word eid now t = Inr segs"
    and "ti_segment_max_bytes t = PInt m"
  shows "segs \<noteq> [] \<and> (\<forall>s \<in> set segs. int (utf8_len (content s)) \<le> m) \<and>
     (\<forall>l. ti_segment_count_limit t = PInt l \<longrightarrow> int (length segs) \<le> l) \<and>
     (\<forall>i < length segs. segment_index (segs ! i) = int i \<and>
        segment_count (segs ! i) = int (length segs) \<and>
        payload_hash (segs ! i) = derive_segment_payload_hash sha PAYLOAD_SCHEMA_VERSION
          (source_sha256 (segs ! i)) (int i) (int (length segs)) (content (segs ! i)) \<and>
        document_id (segs ! i) = DOCUMENT_ID_PREFIX @ payload_hash (segs ! i))"
proof -
  from assms(1) obtain v common cs where v: "validate_turn t = Some v"
    and cs: "semantic_contents common (turn_roles word v) (vt_max_bytes v) (vt_limit v) = Inr cs"
    and segs: "segs = build_segments sha cs" by (auto simp: result_iff)
  note vb = validate_turn_bounds [OF v]
  note c = semantic_contents_Inr [OF cs vb(2)]
  have m: "vt_max_bytes v = m" using vb(3) assms(2) by simp
  have "content s \<in> set cs" if "s \<in> set segs" for s
    using that segs contents_build_segments [of sha cs] by (metis image_eqI list.set_map)
  then have "\<forall>s \<in> set segs. int (utf8_len (content s)) \<le> m"
    using c(3) m by (auto simp: list_all_iff record_bytes_def)
  moreover have "segs \<noteq> []" using c(2) segs by (metis length_0_conv length_build_segments)
  moreover have "\<forall>l. ti_segment_count_limit t = PInt l \<longrightarrow> int (length segs) \<le> l"
    using c(4) vb(4) segs by (auto simp: in_limit_iff split: option.splits)
  ultimately show ?thesis
    by (auto simp: segs build_segments_nth build_segment_def Let_def)
qed

theorem retained_segments_bounded_witness:
  "\<exists>segs. build_retained_segments sample_sha ascii_word [] [] (sample_turn 194) = Inr segs \<and>
     length segs = 3 \<and> list_all (\<lambda>s. int (utf8_len (content s)) \<le> 194) segs"
proof -
  obtain segs where r: "build_retained_segments sample_sha ascii_word [] [] (sample_turn 194) = Inr segs"
    and n: "length segs = 3"
    by (rule sample_segments)
  show ?thesis
    using r n retained_segments_bounded [OF r, of 194] by (auto simp: sample_turn_def list_all_iff)
qed

text \<open>
  C32. No content is lost in the split: either the one segment is the record of the complete turn, or
  the segments are, role by role and in order, the records of texts \<open>ts\<close> that together
  hold every character of the role's redacted text that is not white space, in order.
\<close>

theorem retained_segments_complete:
  assumes "build_retained_segments sha word eid now t = Inr segs"
  shows "\<exists>v common. validate_turn t = Some v \<and>
     turn_common sha word (ti_tags t) eid now v = Some common \<and>
     (map content segs = [event_content common (map (\<lambda>r. role_payload r None) (turn_roles word v))] \<or>
      (\<exists>tss. list_all2 role_split (turn_roles word v) tss \<and>
         map content segs = split_records common (turn_roles word v) tss))"
proof -
  from assms(1) obtain v common cs where v: "validate_turn t = Some v"
    and common: "turn_common sha word (ti_tags t) eid now v = Some common"
    and cs: "semantic_contents common (turn_roles word v) (vt_max_bytes v) (vt_limit v) = Inr cs"
    and segs: "segs = build_segments sha cs" by (auto simp: result_iff)
  show ?thesis
    using v common semantic_contents_Inr(1) [OF cs validate_turn_bounds(2) [OF v]] segs by auto
qed

theorem retained_segments_complete_witness:
  "\<exists>v tss. validate_turn (sample_turn 194) = Some v \<and> list_all2 role_split (turn_roles ascii_word v) tss"
proof -
  obtain segs where r: "build_retained_segments sample_sha ascii_word [] [] (sample_turn 194) = Inr segs"
    and n: "length segs = 3"
    by (rule sample_segments)
  have "length (map content segs) \<noteq> 1" using n by simp
  then show ?thesis
    using retained_segments_complete [OF r] by (metis One_nat_def length_Cons list.size(3))
qed

text \<open>
  A memory selected by the model has a content-derived identity: the same input gives the same
  segments whatever the event id and the clock of the call.
\<close>

theorem model_selected_segments_deterministic:
  assumes "ti_model_selected t = PBool True"
  shows "build_retained_segments sha word eid now t = build_retained_segments sha word eid' now' t"
proof (cases "validate_turn t")
  case (Some v)
  then have "vt_model_selected v" using validate_turn_bounds(7) [OF Some] assms by simp
  then have "turn_common sha word (ti_tags t) eid now v = turn_common sha word (ti_tags t) eid' now' v"
    by (simp add: turn_common_def cong: option.case_cong)
  with Some show ?thesis by (simp add: build_retained_segments_def)
qed (simp add: build_retained_segments_def)

theorem model_selected_segments_deterministic_witness:
  "build_retained_segments sample_sha ascii_word ''a'' [49] (sample_turn 194) =
   build_retained_segments sample_sha ascii_word ''b'' [50] (sample_turn 194)"
  by (rule model_selected_segments_deterministic) (simp add: sample_turn_def)

end
