(* ===== verification/Locks.thy ===== *)
theory Locks
  imports Settings
begin

text \<open>
  The profile lock of \<open>outbox.py\<close>: the private lock file, its captured identity, the POSIX
  \<open>flock\<close> on it, \<open>ProfileLockOwner\<close>, the revalidation of the lock path before and after
  every owner-only transition, and \<open>try_acquire_profile_lock\<close>.

  A \<open>file_system\<close> is what the path operations of one moment see; another process may replace a
  file between two of them, so every operation takes the view of each moment it looks. The open
  descriptors and the locks on them are the state \<open>os_state\<close>; a descriptor is an open file
  description, and those of all processes share the one table.
\<close>

section \<open>The file system and the operating system\<close>

text \<open>A file as the kernel knows it: device and inode.\<close>

datatype file_id = FileId int int

record file_status =
  st_regular :: bool
  st_device :: int
  st_inode :: int
  st_uid :: int
  st_mode :: int

record file_system =
  fs_posix :: bool
  fs_euid :: int
  fs_resolve :: "path \<Rightarrow> path option"          \<comment> \<open>\<open>resolve(strict=True)\<close>\<close>
  fs_lstat :: "path \<Rightarrow> file_status option"
  fs_open :: "path \<Rightarrow> file_id option"     \<comment> \<open>existing file, no symbolic link\<close>
  fs_inode :: "file_id \<Rightarrow> (bool \<times> int \<times> int) option"

record os_state =
  os_fd :: "int \<Rightarrow> file_id option"
  os_flock :: "file_id \<Rightarrow> int option"
  os_next_fd :: int

definition os_open :: "file_system \<Rightarrow> path \<Rightarrow> os_state \<Rightarrow> (int \<times> os_state) option" where
  "os_open fs p os =
     (case fs_open fs p of
        None \<Rightarrow> None
      | Some ident \<Rightarrow>
          Some (os_next_fd os,
            os\<lparr>os_fd := (os_fd os)(os_next_fd os \<mapsto> ident), os_next_fd := os_next_fd os + 1\<rparr>))"

definition os_fstat :: "file_system \<Rightarrow> os_state \<Rightarrow> int \<Rightarrow> file_status option" where
  "os_fstat fs os fd =
     (case os_fd os fd of
        None \<Rightarrow> None
      | Some (FileId dev ino) \<Rightarrow>
          (case fs_inode fs (FileId dev ino) of
             None \<Rightarrow> None
           | Some (reg, uid, mode) \<Rightarrow>
               Some \<lparr>st_regular = reg, st_device = dev, st_inode = ino, st_uid = uid, st_mode = mode\<rparr>))"

definition os_unlock :: "int \<Rightarrow> os_state \<Rightarrow> os_state" where
  "os_unlock fd os =
     (case os_fd os fd of
        None \<Rightarrow> os
      | Some ident \<Rightarrow>
          if os_flock os ident = Some fd then os\<lparr>os_flock := (os_flock os)(ident := None)\<rparr> else os)"

text \<open>Closing the last descriptor of an open file description drops its lock.\<close>

definition os_close :: "int \<Rightarrow> os_state \<Rightarrow> os_state" where
  "os_close fd os = (let os' = os_unlock fd os in os'\<lparr>os_fd := (os_fd os')(fd := None)\<rparr>)"

section \<open>Identity\<close>

record profile_lock_identity =
  li_path :: path
  li_device :: int
  li_inode :: int

record profile_lock_owner =
  ow_descriptor :: int
  ow_identity :: profile_lock_identity
  ow_token :: nat

definition require_inside :: "path \<Rightarrow> path \<Rightarrow> bool" where
  "require_inside home candidate \<longleftrightarrow> prefix home candidate"

definition validate_profile_lock_status ::
    "file_system \<Rightarrow> file_status \<Rightarrow> profile_lock_identity \<Rightarrow> bool \<Rightarrow> bool" where
  "validate_profile_lock_status fs status identity require_private_mode \<longleftrightarrow>
     st_regular status \<and> (st_device status, st_inode status) = (li_device identity, li_inode identity) \<and>
     (fs_posix fs \<longrightarrow>
        st_uid status = fs_euid fs \<and> (require_private_mode \<longrightarrow> st_mode status = 384))"

text \<open>\<open>True\<close> when the check returns, \<open>False\<close> when it raises. 384 is \<open>0o600\<close>.\<close>

definition revalidate_profile_lock_identity ::
    "file_system \<Rightarrow> os_state \<Rightarrow> path \<Rightarrow> profile_lock_identity \<Rightarrow> int option \<Rightarrow> bool \<Rightarrow> bool" where
  "revalidate_profile_lock_identity fs os home identity descriptor require_private_mode =
     (case (fs_resolve fs home, fs_resolve fs (li_path identity)) of
        (Some resolved_home, Some resolved_lock) \<Rightarrow>
          require_inside resolved_home resolved_lock \<and>
          (case fs_lstat fs (li_path identity) of
             None \<Rightarrow> False
           | Some status \<Rightarrow>
               validate_profile_lock_status fs status identity require_private_mode) \<and>
          (case descriptor of
             None \<Rightarrow> True
           | Some fd \<Rightarrow>
               (case os_fstat fs os fd of
                  None \<Rightarrow> False
                | Some status \<Rightarrow>
                    validate_profile_lock_status fs status identity require_private_mode))
      | _ \<Rightarrow> False)"

section \<open>Locking\<close>

datatype flock_outcome = Locked | Busy | FlockError

text \<open>
  \<open>flock(fd, LOCK_EX | LOCK_NB)\<close>: refused with \<open>EAGAIN\<close> while another description
  holds the lock; \<open>broken\<close> stands for every other error of the call.
\<close>

definition try_flock_exclusive :: "bool \<Rightarrow> int \<Rightarrow> os_state \<Rightarrow> flock_outcome \<times> os_state" where
  "try_flock_exclusive broken fd os =
     (case os_fd os fd of
        None \<Rightarrow> (FlockError, os)
      | Some ident \<Rightarrow>
          if broken then (FlockError, os)
          else (case os_flock os ident of
                  None \<Rightarrow> (Locked, os\<lparr>os_flock := (os_flock os)(ident \<mapsto> fd)\<rparr>)
                | Some holder \<Rightarrow> if holder = fd then (Locked, os) else (Busy, os)))"

definition release_profile_lock_descriptor :: "int \<Rightarrow> os_state \<Rightarrow> os_state" where
  "release_profile_lock_descriptor fd os = os_close fd (os_unlock fd os)"

definition release_owner ::
    "profile_lock_owner \<Rightarrow> os_state \<Rightarrow> profile_lock_owner \<times> os_state" where
  "release_owner owner os =
     (if ow_descriptor owner < 0 then (owner, os)
      else (owner\<lparr>ow_descriptor := -1\<rparr>, release_profile_lock_descriptor (ow_descriptor owner) os))"

definition descriptor_for :: "profile_lock_owner \<Rightarrow> nat \<Rightarrow> int option" where
  "descriptor_for owner token =
     (if ow_token owner \<noteq> token \<or> ow_descriptor owner < 0 then None else Some (ow_descriptor owner))"

datatype profile_lock_status = Acquired | LockContended | LockLocalFailure

type_synonym acquisition = "profile_lock_status \<times> profile_lock_owner option"

text \<open>
  One nonblocking attempt: open the reserved file, check its identity, lock it, check again, and on
  every failure close the descriptor. \<open>fs1\<close>, \<open>fs2\<close> and \<open>fs3\<close> are what the open and the
  two checks see.
\<close>

definition try_acquire_profile_lock ::
    "file_system \<Rightarrow> file_system \<Rightarrow> file_system \<Rightarrow> bool \<Rightarrow> bool \<Rightarrow> path \<Rightarrow> profile_lock_identity
     \<Rightarrow> nat \<Rightarrow> os_state \<Rightarrow> acquisition \<times> os_state" where
  "try_acquire_profile_lock fs1 fs2 fs3 broken is_closed home identity token os =
     (if \<not> fs_posix fs1 then ((LockLocalFailure, None), os)
      else if is_closed then ((LockLocalFailure, None), os)
      else
        (case os_open fs1 (li_path identity) os of
           None \<Rightarrow> ((LockLocalFailure, None), os)
         | Some (fd, os1) \<Rightarrow>
             if \<not> revalidate_profile_lock_identity fs2 os1 home identity (Some fd) True then
               ((LockLocalFailure, None), os_close fd os1)
             else
               (case try_flock_exclusive broken fd os1 of
                  (FlockError, os2) \<Rightarrow> ((LockLocalFailure, None), os_close fd os2)
                | (Busy, os2) \<Rightarrow> ((LockContended, None), os_close fd os2)
                | (Locked, os2) \<Rightarrow>
                    if \<not> revalidate_profile_lock_identity fs3 os2 home identity (Some fd) True then
                      ((LockLocalFailure, None), release_profile_lock_descriptor fd os2)
                    else
                      ((Acquired,
                        Some \<lparr>ow_descriptor = fd, ow_identity = identity, ow_token = token\<rparr>),
                       os2))))"

text \<open>\<open>_probe_sender_ownership\<close> of the status command.\<close>

datatype sender_ownership = Held | Free | Unavailable

definition probe_sender_ownership ::
    "file_system \<Rightarrow> bool \<Rightarrow> path \<Rightarrow> path option \<Rightarrow> bool \<Rightarrow> path \<Rightarrow> os_state \<Rightarrow> sender_ownership \<times> os_state"
where
  "probe_sender_ownership fs broken home resolved_nonstrict lexists lock_path os =
     (case resolved_nonstrict of
        None \<Rightarrow> (Unavailable, os)
      | Some r \<Rightarrow>
          if \<not> require_inside home r then (Unavailable, os)
          else if \<not> lexists then (Free, os)
          else
            (case (fs_lstat fs lock_path, fs_resolve fs lock_path, os_open fs lock_path os) of
               (Some status, Some strict, Some (fd, os1)) \<Rightarrow>
                 if st_regular status \<and> require_inside home strict then
                   (case try_flock_exclusive broken fd os1 of
                      (Locked, os2) \<Rightarrow> (Free, os_close fd (os_unlock fd os2))
                    | (Busy, os2) \<Rightarrow> (Held, os_close fd os2)
                    | (FlockError, os2) \<Rightarrow> (Unavailable, os_close fd os2))
                 else (Unavailable, os)
             | _ \<Rightarrow> (Unavailable, os)))"

section \<open>The lock table\<close>

text \<open>
  Every held lock is held by an open descriptor of that file, and descriptors are below the next
  free number. Every operation keeps this.
\<close>

definition os_ok :: "os_state \<Rightarrow> bool" where
  "os_ok os \<longleftrightarrow> 0 \<le> os_next_fd os \<and>
     (\<forall>fd. os_fd os fd \<noteq> None \<longrightarrow> 0 \<le> fd \<and> fd < os_next_fd os) \<and>
     (\<forall>ident fd. os_flock os ident = Some fd \<longrightarrow> os_fd os fd = Some ident)"

text \<open>A live owner: its descriptor is open on the file of its identity and holds the lock on it.\<close>

definition lock_ident :: "profile_lock_identity \<Rightarrow> file_id" where
  "lock_ident i = FileId (li_device i) (li_inode i)"

definition holds :: "os_state \<Rightarrow> profile_lock_owner \<Rightarrow> bool" where
  "holds os owner \<longleftrightarrow> 0 \<le> ow_descriptor owner \<and>
     os_flock os (lock_ident (ow_identity owner)) = Some (ow_descriptor owner)"


lemma os_okD:
  assumes "os_ok os"
  shows "0 \<le> os_next_fd os" and "os_fd os fd = Some x \<Longrightarrow> 0 \<le> fd \<and> fd < os_next_fd os"
    and "os_flock os ident = Some fd \<Longrightarrow> os_fd os fd = Some ident"
  using assms by (simp_all add: os_ok_def)

lemma os_okI:
  assumes "0 \<le> os_next_fd os" and "\<And>fd x. os_fd os fd = Some x \<Longrightarrow> 0 \<le> fd \<and> fd < os_next_fd os"
    and "\<And>ident fd. os_flock os ident = Some fd \<Longrightarrow> os_fd os fd = Some ident"
  shows "os_ok os"
  using assms by (auto simp: os_ok_def)

lemma os_open_Some:
  "os_open fs p os = Some (fd, os') \<longleftrightarrow>
     (\<exists>ident. fs_open fs p = Some ident \<and> fd = os_next_fd os \<and>
        os' = os\<lparr>os_fd := (os_fd os)(fd \<mapsto> ident), os_next_fd := os_next_fd os + 1\<rparr>)"
  by (auto simp: os_open_def split: option.splits)

lemma os_ok_open [keeps]:
  assumes "os_ok os" and "os_open fs p os = Some (fd, os')"
  shows "os_ok os'"
proof (rule os_okI)
  note d = os_okD [OF assms(1)]
  from assms(2) obtain ident where fd: "fd = os_next_fd os" and
    os': "os' = os\<lparr>os_fd := (os_fd os)(fd \<mapsto> ident), os_next_fd := os_next_fd os + 1\<rparr>"
    by (auto simp: os_open_Some)
  show "0 \<le> os_next_fd os'" using d(1) by (simp add: os')
  show "0 \<le> x \<and> x < os_next_fd os'" if "os_fd os' x = Some y" for x y
    using that d(1) d(2) [of x] by (cases "x = fd") (auto simp: os' fd)
  show "os_fd os' x = Some y" if "os_flock os' y = Some x" for x y
    using that d(3) [of y x] d(2) [of x y] by (auto simp: os' fd)
qed

lemma os_ok_unlock [keeps]: "os_ok os \<Longrightarrow> os_ok (os_unlock fd os)"
  by (auto simp: os_unlock_def os_ok_def split: option.splits)

lemma os_flock_unlock:
  assumes "os_ok os"
  shows "os_flock (os_unlock fd os) ident = Some x \<longleftrightarrow> os_flock os ident = Some x \<and> x \<noteq> fd"
proof (cases "os_fd os fd")
  case None
  then have "os_flock os ident \<noteq> Some fd" using os_okD(3) [OF assms, of ident fd] by auto
  with None show ?thesis by (auto simp: os_unlock_def)
next
  case (Some j)
  then have "ident \<noteq> j \<Longrightarrow> os_flock os ident \<noteq> Some fd" using os_okD(3) [OF assms, of ident fd] by auto
  with Some show ?thesis by (cases "ident = j") (auto simp: os_unlock_def)
qed

lemma os_fd_unlock [simp]: "os_fd (os_unlock fd os) = os_fd os"
  "os_next_fd (os_unlock fd os) = os_next_fd os"
  by (simp_all add: os_unlock_def split: option.split)

lemma os_ok_close [keeps]:
  assumes "os_ok os"
  shows "os_ok (os_close fd os)"
proof (rule os_okI)
  note d = os_okD [OF assms]
  show "0 \<le> os_next_fd (os_close fd os)" using d(1) by (simp add: os_close_def Let_def)
  show "0 \<le> x \<and> x < os_next_fd (os_close fd os)" if "os_fd (os_close fd os) x = Some y" for x y
    using that d(2) [of x y] by (simp add: os_close_def Let_def split: if_splits)
  show "os_fd (os_close fd os) x = Some y" if "os_flock (os_close fd os) y = Some x" for x y
  proof -
    have "os_flock (os_unlock fd os) y = Some x" using that by (simp add: os_close_def Let_def)
    then have "os_flock os y = Some x" "x \<noteq> fd"
      unfolding os_flock_unlock [OF assms] by blast+
    then have "os_fd os x = Some y" "x \<noteq> fd" using d(3) by blast+
    then show ?thesis by (simp add: os_close_def Let_def)
  qed
qed

lemma os_ok_flock [keeps]: "os_ok os \<Longrightarrow> try_flock_exclusive b fd os = (r, os') \<Longrightarrow> os_ok os'"
  by (auto simp: try_flock_exclusive_def os_ok_def split: option.splits if_splits)

lemma os_ok_release [keeps]: "os_ok os \<Longrightarrow> os_ok (release_profile_lock_descriptor fd os)"
  by (simp add: release_profile_lock_descriptor_def os_ok_close os_ok_unlock)

lemma holds_other_descriptor:
  assumes "holds os owner" and "fd \<noteq> ow_descriptor owner"
  shows "holds (os_unlock fd os) owner" and "holds (os_close fd os) owner"
    and "holds (release_profile_lock_descriptor fd os) owner"
proof -
  have u: "holds (os_unlock fd os) owner" if "holds os owner" for os
    using that assms(2) by (auto simp: holds_def os_unlock_def split: option.splits)
  have c: "holds (os_close fd os) owner" if "holds os owner" for os
    using u [OF that] by (simp add: holds_def os_close_def Let_def)
  show "holds (os_unlock fd os) owner" "holds (os_close fd os) owner"
    using u c assms(1) by blast+
  show "holds (release_profile_lock_descriptor fd os) owner"
    using c [OF u [OF assms(1)]] by (simp add: release_profile_lock_descriptor_def)
qed

lemma holds_open: "holds os owner \<Longrightarrow> os_open fs p os = Some (fd, os') \<Longrightarrow> holds os' owner"
  by (auto simp: holds_def os_open_def split: option.splits)

lemma holds_open_fd:
  "os_ok os \<Longrightarrow> holds os owner \<Longrightarrow> os_fd os (ow_descriptor owner) = Some (lock_ident (ow_identity owner))"
  by (simp add: os_okD(3) holds_def)

lemma open_fresh:
  assumes "os_ok os" and "holds os owner" and "os_open fs p os = Some (fd, os')"
  shows "fd \<noteq> ow_descriptor owner"
  using os_okD(2) [OF assms(1) holds_open_fd [OF assms(1,2)]] assms(3) by (auto simp: os_open_Some)

lemma holds_flock:
  "holds os owner \<Longrightarrow> try_flock_exclusive b fd os = (r, os') \<Longrightarrow> holds os' owner"
  by (auto simp: holds_def try_flock_exclusive_def split: option.splits if_splits)

text \<open>What an attempt keeps: whatever its system calls on the one new descriptor keep.\<close>

lemma try_acquire_keeps:
  assumes "P os"
    and "\<And>fd os1. os_open fs1 (li_path i) os = Some (fd, os1) \<Longrightarrow> P os1 \<and> P (os_close fd os1) \<and>
      (\<forall>r os2. try_flock_exclusive b fd os1 = (r, os2) \<longrightarrow>
         P os2 \<and> P (os_close fd os2) \<and> P (release_profile_lock_descriptor fd os2))"
  shows "P (snd (try_acquire_profile_lock fs1 fs2 fs3 b c home i t os))"
proof (cases "os_open fs1 (li_path i) os")
  case None
  then show ?thesis using assms(1) by (simp add: try_acquire_profile_lock_def)
next
  case (Some r)
  obtain fd os1 where r: "r = (fd, os1)" by fastforce
  obtain fo os2 where f: "try_flock_exclusive b fd os1 = (fo, os2)" by fastforce
  from assms(2) [of fd os1] Some r f assms(1) show ?thesis
    by (simp add: try_acquire_profile_lock_def split: flock_outcome.split)
qed

lemma os_ok_try_acquire [keeps]:
  "os_ok os \<Longrightarrow> os_ok (snd (try_acquire_profile_lock fs1 fs2 fs3 b c home i t os))"
  by (rule try_acquire_keeps [where P = os_ok]) (blast intro: keeps)+

lemma try_acquire_Acquired:
  assumes "try_acquire_profile_lock fs1 fs2 fs3 b c home i t os = ((Acquired, Some new), os')"
    and "os_ok os"
  shows "holds os' new" and "ow_identity new = i" and "ow_token new = t" and "\<not> c"
    and "os_flock os (lock_ident i) = None"
proof -
  from assms(1) obtain fd os1 where op: "os_open fs1 (li_path i) os = Some (fd, os1)"
    and v: "revalidate_profile_lock_identity fs2 os1 home i (Some fd) True"
    and l: "try_flock_exclusive b fd os1 = (Locked, os')"
    and new: "new = \<lparr>ow_descriptor = fd, ow_identity = i, ow_token = t\<rparr>" and c: "\<not> c"
    by (auto simp: try_acquire_profile_lock_def split: option.splits prod.splits flock_outcome.splits
        if_splits)
  show "ow_identity new = i" "ow_token new = t" "\<not> c" using new c by simp_all
  have fd: "0 \<le> fd" "os_flock os1 = os_flock os" "\<And>x. os_flock os x \<noteq> Some fd"
    using op os_okD [OF assms(2)] by (fastforce simp: os_open_Some)+
  have "os_fd os1 fd = Some (lock_ident i)"
    using v by (auto simp: revalidate_profile_lock_identity_def os_fstat_def lock_ident_def
        validate_profile_lock_status_def split: option.splits file_id.splits prod.splits)
  with l fd show "holds os' new" and "os_flock os (lock_ident i) = None"
    by (auto simp: try_flock_exclusive_def holds_def new split: option.splits if_splits)
qed

lemma try_acquire_keeps_holders:
  assumes "os_ok os" and "holds os other"
  shows "holds (snd (try_acquire_profile_lock fs1 fs2 fs3 b c home i t os)) other"
  by (rule try_acquire_keeps [where P = "\<lambda>os. holds os other"])
    (use assms open_fresh [OF assms] in \<open>blast intro: holds_open holds_flock holds_other_descriptor\<close>)+

section \<open>Ownership over time\<close>

text \<open>
  The locks of one machine: any number of attempts on any outboxes, releases, and probes of the
  status command, in any order. \<open>live\<close> lists the owners not released so far.
\<close>

inductive lock_run :: "os_state \<Rightarrow> profile_lock_owner list \<Rightarrow> bool" where
  boot: "lock_run \<lparr>os_fd = Map.empty, os_flock = Map.empty, os_next_fd = 0\<rparr> []"
| acquire: "lock_run os live \<Longrightarrow>
    try_acquire_profile_lock fs1 fs2 fs3 b c home i t os = ((st, acquired), os') \<Longrightarrow>
    lock_run os' (case acquired of None \<Rightarrow> live | Some owner \<Rightarrow> owner # live)"
| release: "lock_run os live \<Longrightarrow> owner \<in> set live \<Longrightarrow> release_owner owner os = (owner', os') \<Longrightarrow>
    lock_run os' (remove1 owner live)"
| probe: "lock_run os live \<Longrightarrow> probe_sender_ownership fs b home r e p os = (own, os') \<Longrightarrow>
    lock_run os' live"

lemma acquired_status:
  "try_acquire_profile_lock fs1 fs2 fs3 b c home i t os = ((st, Some owner), os') \<Longrightarrow> st = Acquired"
  by (auto simp: try_acquire_profile_lock_def split: option.splits prod.splits flock_outcome.splits
      if_splits)

lemma probe_keeps:
  assumes "P os"
    and "\<And>fd os1. os_open fs p os = Some (fd, os1) \<Longrightarrow>
      (\<forall>r os2. try_flock_exclusive b fd os1 = (r, os2) \<longrightarrow>
         P (os_close fd os2) \<and> P (os_close fd (os_unlock fd os2)))"
  shows "P (snd (probe_sender_ownership fs b home r e p os))"
proof (cases "os_open fs p os")
  case None
  then show ?thesis using assms(1)
    by (simp add: probe_sender_ownership_def split: option.split)
next
  case (Some q)
  obtain fd os1 where q: "q = (fd, os1)" by fastforce
  obtain fo os2 where f: "try_flock_exclusive b fd os1 = (fo, os2)" by fastforce
  from assms(2) [of fd os1] Some q f assms(1) show ?thesis
    by (simp add: probe_sender_ownership_def split: flock_outcome.split option.split)
qed

lemma lock_run_invariant:
  assumes "lock_run os live"
  shows "os_ok os \<and> (\<forall>owner \<in> set live. holds os owner) \<and>
    distinct (map (\<lambda>owner. lock_ident (ow_identity owner)) live)"
  using assms
proof induction
  case boot
  then show ?case by (simp add: os_ok_def)
next
  case (acquire os live fs1 fs2 fs3 b c home i t st acquired os')
  then have ok: "os_ok os" and keep: "\<And>w. w \<in> set live \<Longrightarrow> holds os' w" and ok': "os_ok os'"
    using os_ok_try_acquire [of os fs1 fs2 fs3 b c home i t]
      try_acquire_keeps_holders [of os _ fs1 fs2 fs3 b c home i t] by auto
  show ?case
  proof (cases acquired)
    case (Some owner)
    with acquire.hyps acquired_status have a:
      "try_acquire_profile_lock fs1 fs2 fs3 b c home i t os = ((Acquired, Some owner), os')"
      by fastforce
    note f = try_acquire_Acquired [OF a ok]
    have "lock_ident (ow_identity w) \<noteq> lock_ident i" if "w \<in> set live" for w
      using acquire.IH that f(5) by (force simp: holds_def)
    with Some f(1,2) keep ok' acquire.IH show ?thesis by (force simp: image_iff)
  qed (use keep ok' acquire.IH in auto)
next
  case (release os live owner owner' os')
  then have h: "holds os owner" and ok: "os_ok os" by auto
  have dist: "distinct live" using release.IH distinct_map by auto
  have other: "ow_descriptor owner \<noteq> ow_descriptor w" if "w \<in> set live" "w \<noteq> owner" for w
  proof
    assume eq: "ow_descriptor owner = ow_descriptor w"
    have "lock_ident (ow_identity w) = lock_ident (ow_identity owner)"
      using holds_open_fd [OF ok h] holds_open_fd [of os w] ok release.IH that(1) eq by auto
    then show False using release.IH that release.hyps(2) by (auto simp: distinct_map inj_on_def)
  qed
  have os': "os' = release_profile_lock_descriptor (ow_descriptor owner) os"
    using release.hyps(3) h by (auto simp: release_owner_def holds_def split: if_splits)
  have "holds os' w" if "w \<in> set (remove1 owner live)" for w
    using that other [of w] holds_other_descriptor(3) [of os w "ow_descriptor owner"] release.IH dist
    by (simp add: os')
  moreover have "distinct (map (\<lambda>owner. lock_ident (ow_identity owner)) (remove1 owner live))"
    using release.IH by (auto simp: distinct_map intro: inj_on_subset)
  ultimately show ?case using os_ok_release [OF ok] by (simp add: os')
next
  case (probe os live fs b home r e p own os')
  then have ok: "os_ok os" and h: "\<And>w. w \<in> set live \<Longrightarrow> holds os w" by auto
  have "os_ok (snd (probe_sender_ownership fs b home r e p os))"
    by (rule probe_keeps [where P = os_ok])
      (use ok os_ok_open [OF ok] os_ok_flock in \<open>blast intro: os_ok_close os_ok_unlock\<close>)+
  then have "os_ok os'" using probe.hyps(2) by simp
  moreover have "holds os' w" if "w \<in> set live" for w
  proof -
    have "holds (snd (probe_sender_ownership fs b home r e p os)) w"
      by (rule probe_keeps [where P = "\<lambda>os. holds os w"])
        (use h [OF that] open_fresh [OF ok h [OF that]] in
          \<open>blast intro: holds_open holds_flock holds_other_descriptor\<close>)+
    then show ?thesis using probe.hyps(2) by simp
  qed
  ultimately show ?case using probe.IH by simp
qed

end
