(* ===== verification/Outbox.thy ===== *)
theory Outbox
  imports Retention Locks
begin

text \<open>
  \<open>outbox.py\<close>: the durable queue. \<open>rows\<close> is the committed content of the one table; every
  public operation runs under the connection's mutex and is one atomic step on it. Inside a step, a
  transaction works on its own copy of the rows; each call on the connection may raise, as the list
  \<open>faults\<close> says (\<open>None\<close> succeeds, an exhausted list means no fault). A raise, or an
  explicit rollback, leaves the committed rows as they were.

  \<open>ORDER BY ... LIMIT 1\<close> is \<open>first_by\<close> with the tuple of the columns as key. The
  primary key of the table is \<open>document_id\<close>.
\<close>

section \<open>Rows and the outbox\<close>

datatype row_state = Pending | Sending

datatype failure_category = RetainTimeout | RetainFailed | RetainUnconfirmed

record outbox_row = retained_segment +
  destination_fp :: string
  state :: row_state
  attempt_count :: int
  next_attempt_at :: real
  last_error_category :: "failure_category option"
  created_at :: real
  updated_at :: real

record sqlite_outbox =
  ob_config :: better_config
  ob_multimodal_fp :: string
  ob_destination_fp :: string
  ob_legacy_fp :: string
  ob_hermes_home :: path
  ob_lock_identity :: profile_lock_identity
  ob_lock_token :: nat
  ob_payload_schema :: string
  ob_max_pending_rows :: int
  ob_max_pending_bytes :: int
  ob_retry_initial :: real
  ob_retry_max :: real
  ob_segment_max_bytes :: int
  ob_closed :: bool
  rows :: "outbox_row list"

definition new_outbox ::
    "(bytes \<Rightarrow> string) \<Rightarrow> better_config \<Rightarrow> path \<Rightarrow> profile_lock_identity \<Rightarrow> nat \<Rightarrow> outbox_row list
     \<Rightarrow> sqlite_outbox" where
  "new_outbox sha c home identity token table =
     \<lparr>ob_config = c,
      ob_multimodal_fp = multimodal_destination_fingerprint sha c,
      ob_destination_fp = destination_fingerprint sha c,
      ob_legacy_fp = legacy_destination_fingerprint sha c,
      ob_hermes_home = home,
      ob_lock_identity = identity,
      ob_lock_token = token,
      ob_payload_schema = PAYLOAD_SCHEMA_VERSION,
      ob_max_pending_rows = oc_max_pending_rows (outbox_cfg c),
      ob_max_pending_bytes = oc_max_pending_bytes (outbox_cfg c),
      ob_retry_initial = oc_retry_initial_seconds (outbox_cfg c),
      ob_retry_max = oc_retry_max_seconds (outbox_cfg c),
      ob_segment_max_bytes = rt_segment_max_bytes (retain_cfg c),
      ob_closed = False,
      rows = table\<rparr>"

section \<open>Errors and transactions\<close>

datatype exn = SqliteError "int option" | OtherError

text \<open>The primary result codes \<open>SQLITE_BUSY\<close> (5) and \<open>SQLITE_LOCKED\<close> (6).\<close>

definition is_contention :: "exn \<Rightarrow> bool" where
  "is_contention e =
     (case e of
        SqliteError (Some code) \<Rightarrow> code mod 256 = 5 \<or> code mod 256 = 6
      | _ \<Rightarrow> False)"

datatype inspection_category = SqliteContention | LocalFailureCategory

definition inspection_error_category :: "exn \<Rightarrow> inspection_category" where
  "inspection_error_category e = (if is_contention e then SqliteContention else LocalFailureCategory)"

type_synonym table = "outbox_row list"
type_synonym faults = "exn option list"

type_synonym 'a tx = "table \<Rightarrow> faults \<Rightarrow> exn + 'a \<times> table"

definition sql :: "(table \<Rightarrow> 'r \<times> table) \<Rightarrow> ('r \<Rightarrow> 'a tx) \<Rightarrow> 'a tx" where
  "sql stmt k t fs =
     (case fs of
        [] \<Rightarrow> (case stmt t of (r, t') \<Rightarrow> k r t' [])
      | None # fs' \<Rightarrow> (case stmt t of (r, t') \<Rightarrow> k r t' fs')
      | Some e # _ \<Rightarrow> Inl e)"

definition begin_immediate :: "'a tx \<Rightarrow> 'a tx" where
  "begin_immediate k = sql (\<lambda>t. ((), t)) (\<lambda>_. k)"

definition commit :: "'a \<Rightarrow> 'a tx" where
  "commit a = sql (\<lambda>t. ((), t)) (\<lambda>_ t _. Inr (a, t))"

definition rollback_to :: "table \<Rightarrow> 'a \<Rightarrow> 'a tx" where
  "rollback_to t0 a = sql (\<lambda>t. ((), t0)) (\<lambda>_ t _. Inr (a, t))"

definition raise :: "exn \<Rightarrow> 'a tx" where
  "raise e t fs = Inl e"

text \<open>The \<open>except\<close> clause: roll back and turn the exception into a result.\<close>

definition transaction :: "(exn \<Rightarrow> 'a) \<Rightarrow> (table \<Rightarrow> 'a tx) \<Rightarrow> faults \<Rightarrow> table \<Rightarrow> 'a \<times> table" where
  "transaction handler body fs t =
     (case body t t fs of Inl e \<Rightarrow> (handler e, t) | Inr (a, t') \<Rightarrow> (a, t'))"

lemma sql_Inr [result_iff]:
  "sql stmt k t fs = Inr x \<longleftrightarrow>
     (fs = [] \<or> hd fs = None) \<and> k (fst (stmt t)) (snd (stmt t)) (tl fs) = Inr x"
  by (cases fs) (auto simp: sql_def split: option.splits prod.splits)

lemma commit_Inr [result_iff]:
  "commit a t fs = Inr x \<longleftrightarrow> (fs = [] \<or> hd fs = None) \<and> x = (a, t)"
  by (auto simp: commit_def result_iff)

lemma rollback_to_Inr [result_iff]:
  "rollback_to t0 a t fs = Inr x \<longleftrightarrow> (fs = [] \<or> hd fs = None) \<and> x = (a, t0)"
  by (auto simp: rollback_to_def result_iff)

lemma raise_Inr [result_iff]: "raise e t fs = Inr x \<longleftrightarrow> False"
  by (simp add: raise_def)

lemma begin_immediate_Inr [result_iff]:
  "begin_immediate k t fs = Inr x \<longleftrightarrow> (fs = [] \<or> hd fs = None) \<and> k t (tl fs) = Inr x"
  by (simp add: begin_immediate_def result_iff)

lemma if_tx_Inr [result_iff]:
  "(if b then k1 else k2) t fs = Inr x \<longleftrightarrow> (if b then k1 t fs = Inr x else k2 t fs = Inr x)"
  by simp

text \<open>With no fault, every call on the connection returns.\<close>

lemma sql_no_fault [simp]:
  "sql stmt k t [] = k (fst (stmt t)) (snd (stmt t)) []"
  "begin_immediate k' t [] = k' t []"
  "commit a t [] = Inr (a, t)"
  "rollback_to t0 a t [] = Inr (a, t0)"
  by (simp_all add: sql_def begin_immediate_def commit_def rollback_to_def split: prod.split)

text \<open>\<open>UPDATE ... WHERE\<close> and \<open>DELETE ... WHERE\<close>, with the affected row count.\<close>

definition update_where :: "(outbox_row \<Rightarrow> bool) \<Rightarrow> (outbox_row \<Rightarrow> outbox_row) \<Rightarrow> table \<Rightarrow> int \<times> table" where
  "update_where P f t = (count_if P t, map (\<lambda>r. if P r then f r else r) t)"

definition delete_where :: "(outbox_row \<Rightarrow> bool) \<Rightarrow> table \<Rightarrow> int \<times> table" where
  "delete_where P t = (count_if P t, filter (\<lambda>r. \<not> P r) t)"

section \<open>Time and guards\<close>

text \<open>\<open>float(value)\<close> of a huge int raises: \<open>Inl\<close>; an unusable value gives \<open>None\<close>.\<close>

definition valid_wall_time :: "py \<Rightarrow> exn + real option" where
  "valid_wall_time v =
     (case v of
        PInt i \<Rightarrow>
          (case float_of_int i of
             None \<Rightarrow> Inl OtherError
           | Some r \<Rightarrow> Inr (if r < 0 then None else Some r))
      | PFloat f \<Rightarrow>
          (case finite_float f of
             None \<Rightarrow> Inr None
           | Some r \<Rightarrow> Inr (if r < 0 then None else Some r))
      | _ \<Rightarrow> Inr None)"

definition valid_claim_guard :: "py \<Rightarrow> py \<Rightarrow> bool" where
  "valid_claim_guard doc attempt =
     (case (doc, attempt) of (PStr s, PInt n) \<Rightarrow> s \<noteq> [] \<and> 0 < n | _ \<Rightarrow> False)"

definition int_value :: "py \<Rightarrow> int" where
  "int_value v = (case v of PInt i \<Rightarrow> i | _ \<Rightarrow> 0)"

text \<open>The loop of \<open>_retry_delay_seconds\<close>: \<open>remaining\<close> doublings, capped.\<close>

fun retry_loop :: "nat \<Rightarrow> real \<Rightarrow> real \<Rightarrow> real" where
  "retry_loop 0 delay maximum = delay"
| "retry_loop (Suc remaining) delay maximum =
     (if delay < maximum then retry_loop remaining (min (delay * 2) maximum) maximum else delay)"

definition retry_delay_seconds :: "int \<Rightarrow> real \<Rightarrow> real \<Rightarrow> real" where
  "retry_delay_seconds attempts initial maximum =
     (if initial \<le> 0 \<or> maximum \<le> initial then initial
      else retry_loop (nat (attempts - 1)) initial maximum)"

section \<open>Ownership\<close>

text \<open>What the owner check sees before the transaction and before its commit.\<close>

record owner_view =
  ov_fs :: file_system
  ov_os :: os_state
  ov_fs_commit :: file_system
  ov_os_commit :: os_state

definition owner_descriptor ::
    "sqlite_outbox \<Rightarrow> file_system \<Rightarrow> os_state \<Rightarrow> profile_lock_owner \<Rightarrow> int option" where
  "owner_descriptor ob fs os owner =
     (case descriptor_for owner (ob_lock_token ob) of
        None \<Rightarrow> None
      | Some fd \<Rightarrow>
          if revalidate_profile_lock_identity fs os (ob_hermes_home ob) (ob_lock_identity ob)
               (Some fd) True
          then Some fd else None)"

definition owned_before :: "owner_view \<Rightarrow> sqlite_outbox \<Rightarrow> profile_lock_owner \<Rightarrow> bool" where
  "owned_before v ob owner \<longleftrightarrow> owner_descriptor ob (ov_fs v) (ov_os v) owner \<noteq> None"

definition owned_at_commit :: "owner_view \<Rightarrow> sqlite_outbox \<Rightarrow> profile_lock_owner \<Rightarrow> bool" where
  "owned_at_commit v ob owner \<longleftrightarrow>
     owner_descriptor ob (ov_fs_commit v) (ov_os_commit v) owner \<noteq> None"

section \<open>Matching\<close>

text \<open>The destination condition of the claim, the deadline query and the inspection.\<close>

definition multimodal_fp_enabled :: "better_config \<Rightarrow> bool" where
  "multimodal_fp_enabled c \<longleftrightarrow> mu_enabled (multimodal_cfg c) \<and> rt_enabled (retain_cfg c)"

definition destination_matches :: "sqlite_outbox \<Rightarrow> outbox_row \<Rightarrow> bool" where
  "destination_matches ob r \<longleftrightarrow>
     (destination_fp r = ob_destination_fp ob \<and> payload_schema r = ob_payload_schema ob) \<or>
     (destination_fp r = ob_legacy_fp ob \<and> payload_schema r = LEGACY_PAYLOAD_SCHEMA_VERSION) \<or>
     (destination_fp r = (if multimodal_fp_enabled (ob_config ob) then ob_multimodal_fp ob else []) \<and>
        payload_schema r = MULTIMODAL_PAYLOAD_SCHEMA)"

type_synonym order_key = "real \<times> real \<times> string \<times> int \<times> string"

definition claim_key :: "outbox_row \<Rightarrow> order_key" where
  "claim_key r =
     (next_attempt_at r, created_at r, source_sha256 r, segment_index r, document_id r)"

definition read_key :: "outbox_row \<Rightarrow> real \<times> string \<times> int \<times> string" where
  "read_key r = (created_at r, source_sha256 r, segment_index r, document_id r)"

section \<open>Transitions\<close>

datatype transition_result = Applied int | TransitionLocalFailure

datatype claim_result = Claimed outbox_row | EmptyClaim | ClaimLocalFailure

definition recover_tx :: "owner_view \<Rightarrow> sqlite_outbox \<Rightarrow> profile_lock_owner \<Rightarrow> real \<Rightarrow> transition_result tx" where
  "recover_tx v ob owner now =
     begin_immediate
       (sql (update_where (\<lambda>r. state r = Sending)
               (\<lambda>r. r\<lparr>state := Pending, next_attempt_at := now, updated_at := now\<rparr>))
         (\<lambda>affected.
            if affected < 0 \<or> \<not> owned_at_commit v ob owner then raise OtherError
            else commit (Applied affected)))"

definition recover_sending ::
    "owner_view \<Rightarrow> faults \<Rightarrow> profile_lock_owner \<Rightarrow> py \<Rightarrow> sqlite_outbox
     \<Rightarrow> exn + transition_result \<times> sqlite_outbox" where
  "recover_sending v fs owner now ob =
     (case valid_wall_time now of
        Inl e \<Rightarrow> Inl e
      | Inr None \<Rightarrow> Inr (TransitionLocalFailure, ob)
      | Inr (Some time) \<Rightarrow>
          if ob_closed ob \<or> \<not> owned_before v ob owner then Inr (TransitionLocalFailure, ob)
          else (case transaction (\<lambda>_. TransitionLocalFailure) (\<lambda>_. recover_tx v ob owner time) fs (rows ob)
                of (result, t) \<Rightarrow> Inr (result, ob\<lparr>rows := t\<rparr>)))"

definition due :: "sqlite_outbox \<Rightarrow> real \<Rightarrow> outbox_row \<Rightarrow> bool" where
  "due ob now r \<longleftrightarrow> state r = Pending \<and> next_attempt_at r \<le> now \<and> destination_matches ob r"

definition claim_tx ::
    "owner_view \<Rightarrow> sqlite_outbox \<Rightarrow> profile_lock_owner \<Rightarrow> real \<Rightarrow> table \<Rightarrow> claim_result tx" where
  "claim_tx v ob owner now t0 =
     begin_immediate
       (sql (\<lambda>t. (first_by claim_key (filter (due ob now) t), t))
         (\<lambda>found.
            case found of
              None \<Rightarrow> rollback_to t0 EmptyClaim
            | Some record \<Rightarrow>
                sql (update_where
                       (\<lambda>r. document_id r = document_id record \<and> state r = Pending \<and>
                            attempt_count r = attempt_count record \<and> next_attempt_at r \<le> now \<and>
                            destination_fp r = destination_fp record \<and>
                            payload_schema r = payload_schema record)
                       (\<lambda>r. r\<lparr>state := Sending, attempt_count := attempt_count r + 1,
                              updated_at := now\<rparr>))
                  (\<lambda>rowcount.
                     if rowcount \<noteq> 1 \<or> \<not> owned_at_commit v ob owner then raise OtherError
                     else commit (Claimed (record\<lparr>state := Sending,
                            attempt_count := attempt_count record + 1, updated_at := now\<rparr>)))))"

definition claim_due ::
    "owner_view \<Rightarrow> faults \<Rightarrow> profile_lock_owner \<Rightarrow> py \<Rightarrow> sqlite_outbox
     \<Rightarrow> exn + claim_result \<times> sqlite_outbox" where
  "claim_due v fs owner now ob =
     (case valid_wall_time now of
        Inl e \<Rightarrow> Inl e
      | Inr None \<Rightarrow> Inr (ClaimLocalFailure, ob)
      | Inr (Some time) \<Rightarrow>
          if ob_closed ob \<or> \<not> owned_before v ob owner then Inr (ClaimLocalFailure, ob)
          else (case transaction (\<lambda>_. ClaimLocalFailure) (claim_tx v ob owner time) fs (rows ob)
                of (result, t) \<Rightarrow> Inr (result, ob\<lparr>rows := t\<rparr>)))"

text \<open>
  The guard of a completion: the document id as the code holds it, and the attempt. A \<open>PStr\<close>
  names the row whose id has the same characters.
\<close>

definition names_row :: "py \<Rightarrow> outbox_row \<Rightarrow> bool" where
  "names_row doc r \<longleftrightarrow> doc = PStr (lit (document_id r))"

definition exact_claim :: "py \<Rightarrow> py \<Rightarrow> outbox_row \<Rightarrow> bool" where
  "exact_claim doc attempt r \<longleftrightarrow>
     names_row doc r \<and> state r = Sending \<and> attempt = PInt (attempt_count r)"

definition complete_tx ::
    "owner_view \<Rightarrow> sqlite_outbox \<Rightarrow> profile_lock_owner \<Rightarrow> py \<Rightarrow> py \<Rightarrow> transition_result tx" where
  "complete_tx v ob owner doc attempt =
     begin_immediate
       (sql (delete_where (exact_claim doc attempt))
         (\<lambda>rowcount.
            if rowcount \<noteq> 1 \<or> \<not> owned_at_commit v ob owner then raise OtherError
            else commit (Applied 1)))"

definition complete_claim ::
    "owner_view \<Rightarrow> faults \<Rightarrow> profile_lock_owner \<Rightarrow> py \<Rightarrow> py \<Rightarrow> sqlite_outbox
     \<Rightarrow> transition_result \<times> sqlite_outbox" where
  "complete_claim v fs owner doc attempt ob =
     (if \<not> valid_claim_guard doc attempt then (TransitionLocalFailure, ob)
      else if ob_closed ob \<or> \<not> owned_before v ob owner then (TransitionLocalFailure, ob)
      else (case transaction (\<lambda>_. TransitionLocalFailure) (\<lambda>_. complete_tx v ob owner doc attempt) fs
                   (rows ob)
            of (result, t) \<Rightarrow> (result, ob\<lparr>rows := t\<rparr>)))"

definition reschedule_tx ::
    "owner_view \<Rightarrow> sqlite_outbox \<Rightarrow> profile_lock_owner \<Rightarrow> py \<Rightarrow> py \<Rightarrow> failure_category \<Rightarrow> real \<Rightarrow> real
     \<Rightarrow> transition_result tx" where
  "reschedule_tx v ob owner doc attempt category completed next_at =
     begin_immediate
       (sql (update_where (exact_claim doc attempt)
               (\<lambda>r. r\<lparr>state := Pending, next_attempt_at := next_at,
                      last_error_category := Some category, updated_at := completed\<rparr>))
         (\<lambda>rowcount.
            if rowcount \<noteq> 1 \<or> \<not> owned_at_commit v ob owner then raise OtherError
            else commit (Applied 1)))"

text \<open>
  \<open>category\<close> is the one of the enumeration; any other value is refused, which the type does.
  The sum of two exact reals is always finite.
\<close>

definition reschedule_claim ::
    "owner_view \<Rightarrow> faults \<Rightarrow> profile_lock_owner \<Rightarrow> py \<Rightarrow> py \<Rightarrow> failure_category \<Rightarrow> py \<Rightarrow> sqlite_outbox
     \<Rightarrow> exn + transition_result \<times> sqlite_outbox" where
  "reschedule_claim v fs owner doc attempt category completed_at ob =
     (case valid_wall_time completed_at of
        Inl e \<Rightarrow> Inl e
      | Inr None \<Rightarrow> Inr (TransitionLocalFailure, ob)
      | Inr (Some time) \<Rightarrow>
          if \<not> valid_claim_guard doc attempt then Inr (TransitionLocalFailure, ob)
          else if ob_closed ob \<or> \<not> owned_before v ob owner then Inr (TransitionLocalFailure, ob)
          else
            (let delay = retry_delay_seconds (int_value attempt) (ob_retry_initial ob) (ob_retry_max ob) in
             case transaction (\<lambda>_. TransitionLocalFailure)
                    (\<lambda>_. reschedule_tx v ob owner doc attempt category time (time + delay)) fs (rows ob)
             of (result, t) \<Rightarrow> Inr (result, ob\<lparr>rows := t\<rparr>)))"

section \<open>Reads\<close>

definition next_matching_retry_deadline ::
    "faults \<Rightarrow> sqlite_outbox \<Rightarrow> inspection_category + real option" where
  "next_matching_retry_deadline fs ob =
     (if ob_closed ob then Inl LocalFailureCategory
      else
        (case sql (\<lambda>t. (sql_min (map next_attempt_at
                      (filter (\<lambda>r. state r = Pending \<and> destination_matches ob r) t)), t))
                (\<lambda>m t _. Inr (m, t)) (rows ob) fs of
           Inl e \<Rightarrow> Inl (inspection_error_category e)
         | Inr (m, _) \<Rightarrow> Inr m))"

definition read_unconfirmed :: "faults \<Rightarrow> sqlite_outbox \<Rightarrow> inspection_category + outbox_row list" where
  "read_unconfirmed fs ob =
     (if ob_closed ob then Inl LocalFailureCategory
      else
        (case sql (\<lambda>t. (sort_key read_key t, t)) (\<lambda>rs t _. Inr (rs, t)) (rows ob) fs of
           Inl e \<Rightarrow> Inl (inspection_error_category e)
         | Inr (rs, _) \<Rightarrow> Inr rs))"

definition close_outbox :: "sqlite_outbox \<Rightarrow> sqlite_outbox" where
  "close_outbox ob = (if ob_closed ob then ob else ob\<lparr>ob_closed := True\<rparr>)"

end
