(* ===== verification/Admission.thy ===== *)
theory Admission
  imports Outbox
begin

text \<open>
  Admission of one whole turn into the outbox of \<open>outbox.py\<close>: the validation of the segments
  and the transaction that inserts all new ones or none.

  \<open>decodes\<close> is the parameter for \<open>multimodal.decode_envelope\<close>: whether it accepts a
  content under a configuration. A check that raises makes the turn invalid, just as a check that
  fails, so \<open>valid_segment\<close> is a plain predicate.
\<close>

section \<open>Validation\<close>

type_synonym sha_fun = "bytes \<Rightarrow> string"

definition segment_fingerprint :: "sqlite_outbox \<Rightarrow> 'a retained_segment_scheme \<Rightarrow> string" where
  "segment_fingerprint ob s =
     (if payload_schema s = MULTIMODAL_PAYLOAD_SCHEMA then ob_multimodal_fp ob
      else ob_destination_fp ob)"

definition immutable_values ::
    "'a retained_segment_scheme \<Rightarrow> string \<Rightarrow> string \<times> string \<times> string \<times> int \<times> int \<times> ustr \<times> string" where
  "immutable_values s fp =
     (payload_hash s, payload_schema s, source_sha256 s, segment_index s, segment_count s,
      content s, fp)"

definition valid_segment ::
    "sha_fun \<Rightarrow> (better_config \<Rightarrow> ustr \<Rightarrow> bool) \<Rightarrow> sqlite_outbox \<Rightarrow> retained_segment \<Rightarrow> bool" where
  "valid_segment sha decodes ob s \<longleftrightarrow>
     (let multimodal = (payload_schema s = MULTIMODAL_PAYLOAD_SCHEMA);
          limit = (if multimodal then mu_max_encoded_bytes (multimodal_cfg (ob_config ob))
                   else ob_segment_max_bytes ob);
          expected = derive_segment_payload_hash sha (payload_schema s) (source_sha256 s)
                       (segment_index s) (segment_count s) (content s)
      in (payload_schema s = PAYLOAD_SCHEMA_VERSION \<or> multimodal) \<and>
         (multimodal \<longrightarrow>
            multimodal_fp_enabled (ob_config ob) \<and> decodes (ob_config ob) (content s) \<and>
            segment_index s = 0 \<and> segment_count s = 1 \<and>
            encode_utf8 (content s) \<noteq> None \<and> sha (utf8_bytes (content s)) = source_sha256 s) \<and>
         hex_digest 64 (payload_hash s) \<and> hex_digest 64 (source_sha256 s) \<and>
         0 \<le> segment_index s \<and> 0 < segment_count s \<and> segment_index s < segment_count s \<and>
         content s \<noteq> [] \<and>
         (case encode_utf8 (content s) of None \<Rightarrow> False | Some b \<Rightarrow> int (length b) \<le> limit) \<and>
         payload_hash s = expected \<and>
         document_id s = payload_schema s @ '':'' @ expected)"

fun collect_candidates ::
    "sha_fun \<Rightarrow> (better_config \<Rightarrow> ustr \<Rightarrow> bool) \<Rightarrow> sqlite_outbox \<Rightarrow> (string, retained_segment) dict \<Rightarrow> int
     \<Rightarrow> retained_segment list \<Rightarrow> ((string, retained_segment) dict \<times> int) option" where
  "collect_candidates sha decodes ob unique repeated [] = Some (unique, repeated)"
| "collect_candidates sha decodes ob unique repeated (s # ss) =
     (if \<not> valid_segment sha decodes ob s then None
      else
        (case dict_get unique (document_id s) of
           None \<Rightarrow>
             collect_candidates sha decodes ob (dict_set unique (document_id s) s) repeated ss
         | Some prior \<Rightarrow>
             if immutable_values prior (segment_fingerprint ob prior) =
                immutable_values s (segment_fingerprint ob s)
             then collect_candidates sha decodes ob unique (repeated + 1) ss
             else None))"

definition validate_candidates ::
    "sha_fun \<Rightarrow> (better_config \<Rightarrow> ustr \<Rightarrow> bool) \<Rightarrow> sqlite_outbox \<Rightarrow> retained_segment list
     \<Rightarrow> (retained_segment list \<times> int) option" where
  "validate_candidates sha decodes ob segments =
     (if segments = [] then None
      else
        (case collect_candidates sha decodes ob [] 0 segments of
           None \<Rightarrow> None
         | Some (unique, repeated) \<Rightarrow>
             (let candidates = sort_key segment_index (map snd unique); first = hd candidates in
              if int (length candidates) \<noteq> segment_count first \<or>
                 map segment_index candidates \<noteq> [0 .. segment_count first - 1] \<or>
                 list_ex (\<lambda>s. payload_schema s \<noteq> payload_schema first \<or>
                              source_sha256 s \<noteq> source_sha256 first \<or>
                              segment_count s \<noteq> segment_count first) candidates
              then None
              else if sha (utf8_bytes (concat (map content candidates))) \<noteq> source_sha256 first then None
              else Some (candidates, repeated))))"

section \<open>The transaction\<close>

datatype admission_status =
  Admitted | Duplicate | CapacityRefused | Conflict | Contended | AdmissionLocalFailure | Invalid

record admission_result =
  ar_status :: admission_status
  ar_inserted :: int
  ar_duplicates :: int

definition plain_result :: "admission_status \<Rightarrow> admission_result" where
  "plain_result st = \<lparr>ar_status = st, ar_inserted = 0, ar_duplicates = 0\<rparr>"

definition accepted :: "admission_result \<Rightarrow> bool" where
  "accepted r \<longleftrightarrow> ar_status r = Admitted \<or> ar_status r = Duplicate"

text \<open>Logical use: every unconfirmed row counts its content's bytes and a fixed allowance.\<close>

definition row_bytes :: "'a retained_segment_scheme \<Rightarrow> int" where
  "row_bytes r = int (utf8_len (content r)) + OUTBOX_ROW_ACCOUNTING_ALLOWANCE_BYTES"

definition queued_bytes :: "'a retained_segment_scheme list \<Rightarrow> int" where
  "queued_bytes rs = sum_list (map row_bytes rs)"

definition new_row :: "sqlite_outbox \<Rightarrow> real \<Rightarrow> retained_segment \<Rightarrow> outbox_row" where
  "new_row ob timestamp s =
     \<lparr>document_id = document_id s, payload_hash = payload_hash s, payload_schema = payload_schema s,
      source_sha256 = source_sha256 s, segment_index = segment_index s,
      segment_count = segment_count s, content = content s,
      destination_fp = segment_fingerprint ob s, state = Pending, attempt_count = 0,
      next_attempt_at = timestamp, last_error_category = None, created_at = timestamp,
      updated_at = timestamp\<rparr>"

text \<open>\<open>executemany(INSERT)\<close>: a repeated primary key raises \<open>IntegrityError\<close> (code 1555).\<close>

definition insert_rows :: "outbox_row list \<Rightarrow> 'a tx \<Rightarrow> 'a tx" where
  "insert_rows new k =
     sql (\<lambda>t. (distinct (map document_id (t @ new)), t @ new))
       (\<lambda>ok. if ok then k else raise (SqliteError (Some 1555)))"

fun scan_existing ::
    "sqlite_outbox \<Rightarrow> admission_result tx \<Rightarrow> (retained_segment list \<Rightarrow> int \<Rightarrow> admission_result tx)
     \<Rightarrow> retained_segment list \<Rightarrow> int \<Rightarrow> retained_segment list \<Rightarrow> admission_result tx" where
  "scan_existing ob conflict k new dup [] = k new dup"
| "scan_existing ob conflict k new dup (s # ss) =
     sql (\<lambda>t. (find (\<lambda>r. document_id r = document_id s) t, t))
       (\<lambda>existing.
          case existing of
            None \<Rightarrow> scan_existing ob conflict k (new @ [s]) dup ss
          | Some r \<Rightarrow>
              if immutable_values r (destination_fp r) \<noteq> immutable_values s (segment_fingerprint ob s)
              then conflict
              else scan_existing ob conflict k new (dup + 1) ss)"

definition admit_new ::
    "sqlite_outbox \<Rightarrow> table \<Rightarrow> real \<Rightarrow> retained_segment list \<Rightarrow> int \<Rightarrow> admission_result tx" where
  "admit_new ob t0 timestamp new dup =
     (if new = [] then
        commit \<lparr>ar_status = Duplicate, ar_inserted = 0, ar_duplicates = dup\<rparr>
      else
        sql (\<lambda>t. ((int (length t), queued_bytes t), t))
          (\<lambda>(existing_rows, existing_bytes).
             if existing_rows + int (length new) > ob_max_pending_rows ob \<or>
                existing_bytes + queued_bytes new > ob_max_pending_bytes ob
             then rollback_to t0 (plain_result CapacityRefused)
             else
               insert_rows (map (new_row ob timestamp) new)
                 (commit \<lparr>ar_status = Admitted, ar_inserted = int (length new),
                          ar_duplicates = dup\<rparr>)))"

definition admit_tx ::
    "sqlite_outbox \<Rightarrow> real \<Rightarrow> retained_segment list \<Rightarrow> int \<Rightarrow> table \<Rightarrow> admission_result tx" where
  "admit_tx ob timestamp candidates repeated t0 =
     begin_immediate
       (scan_existing ob (rollback_to t0 (plain_result Conflict)) (admit_new ob t0 timestamp) []
          repeated candidates)"

definition admission_failure :: "exn \<Rightarrow> admission_result" where
  "admission_failure e =
     plain_result (if is_contention e then Contended else AdmissionLocalFailure)"

definition admit ::
    "sha_fun \<Rightarrow> (better_config \<Rightarrow> ustr \<Rightarrow> bool) \<Rightarrow> faults \<Rightarrow> real \<Rightarrow> retained_segment list \<Rightarrow> sqlite_outbox
     \<Rightarrow> admission_result \<times> sqlite_outbox" where
  "admit sha decodes fs timestamp segments ob =
     (case validate_candidates sha decodes ob segments of
        None \<Rightarrow> (plain_result Invalid, ob)
      | Some (candidates, repeated) \<Rightarrow>
          if ob_closed ob then (plain_result AdmissionLocalFailure, ob)
          else
            (case transaction admission_failure (admit_tx ob timestamp candidates repeated) fs
                    (rows ob) of
               (result, t) \<Rightarrow> (result, ob\<lparr>rows := t\<rparr>)))"

end
