(* ===== verification/Queue.thy ===== *)
theory Queue
  imports Admission
begin

text \<open>
  Correctness of the outbox operations: the invariant of the table and its preservation, the exact
  effect of every transition on every outcome, the retry delay, and the deadline query.
\<close>

section \<open>The invariant\<close>

definition row_ok :: "outbox_row \<Rightarrow> bool" where
  "row_ok r \<longleftrightarrow>
     0 \<le> segment_index r \<and> segment_index r < segment_count r \<and> 0 \<le> attempt_count r \<and>
     (state r = Sending \<longrightarrow> 0 < attempt_count r) \<and>
     0 \<le> next_attempt_at r \<and> 0 \<le> created_at r \<and> 0 \<le> updated_at r"

definition table_ok :: "table \<Rightarrow> bool" where
  "table_ok t \<longleftrightarrow> distinct (map document_id t) \<and> list_all row_ok t"

definition within_capacity :: "sqlite_outbox \<Rightarrow> table \<Rightarrow> bool" where
  "within_capacity ob t \<longleftrightarrow>
     int (length t) \<le> ob_max_pending_rows ob \<and> queued_bytes t \<le> ob_max_pending_bytes ob"

text \<open>The cached settings of an open outbox, which no operation changes.\<close>

definition same_settings :: "sqlite_outbox \<Rightarrow> sqlite_outbox \<Rightarrow> bool" where
  "same_settings ob ob' \<longleftrightarrow> ob\<lparr>rows := []\<rparr> = ob'\<lparr>rows := []\<rparr>"

lemma table_okD:
  assumes "table_ok t"
  shows "distinct (map document_id t)" and "r \<in> set t \<Longrightarrow> row_ok r"
  using assms by (auto simp: table_ok_def list_all_iff)

lemma same_document:
  assumes "table_ok t" and "r \<in> set t" and "r' \<in> set t" and "document_id r = document_id r'"
  shows "r = r'"
  using assms by (auto simp: table_ok_def distinct_map inj_on_def)

lemma distinct_table: "table_ok t \<Longrightarrow> distinct t"
  by (auto simp: table_ok_def distinct_map)

lemma same_settings_rows [simp]: "same_settings ob (ob\<lparr>rows := t\<rparr>)"
  by (simp add: same_settings_def)

section \<open>Statements on one row\<close>

lemma filter_unique_row:
  assumes "table_ok t" and "r \<in> set t" and "P r"
    and "\<And>x. x \<in> set t \<Longrightarrow> P x \<Longrightarrow> document_id x = document_id r"
  shows "filter P t = [r]"
proof -
  have "filter P t = filter (\<lambda>x. document_id x = document_id r) t"
    using assms same_document [OF assms(1)] by (intro filter_cong) metis+
  also have "\<dots> = [r]"
    using assms by (intro map_if_unique) (auto simp: table_ok_def)
  finally show ?thesis .
qed

lemma exact_claim_unique:
  assumes "table_ok t" and "count_if (exact_claim doc attempt) t = 1"
  obtains r where "r \<in> set t" and "exact_claim doc attempt r"
    and "\<And>x. x \<in> set t \<Longrightarrow> exact_claim doc attempt x \<longleftrightarrow> x = r"
proof -
  from assms(2) have "length (filter (exact_claim doc attempt) t) = Suc 0"
    by (simp add: count_if_def)
  then obtain r where f: "filter (exact_claim doc attempt) t = [r]"
    by (auto simp: length_Suc_conv)
  from arg_cong [OF f, of set] have "{x \<in> set t. exact_claim doc attempt x} = {r}" by simp
  then have "r \<in> set t" "exact_claim doc attempt r"
    "\<And>x. x \<in> set t \<Longrightarrow> exact_claim doc attempt x \<longleftrightarrow> x = r" by blast+
  then show ?thesis by (rule that)
qed

definition replace_row :: "outbox_row \<Rightarrow> table \<Rightarrow> table" where
  "replace_row r t = map (\<lambda>x. if document_id x = document_id r then r else x) t"

definition delete_row :: "string \<Rightarrow> table \<Rightarrow> table" where
  "delete_row d t = filter (\<lambda>x. document_id x \<noteq> d) t"

lemma map_document_id_replace [simp]: "map document_id (replace_row r t) = map document_id t"
  by (simp add: replace_row_def)

lemma set_replace_row: "set (replace_row r t) \<subseteq> insert r (set t)"
  by (auto simp: replace_row_def)

lemma table_ok_replace [keeps]: "table_ok t \<Longrightarrow> row_ok r \<Longrightarrow> table_ok (replace_row r t)"
  using set_replace_row [of r t] by (auto simp: table_ok_def list_all_iff)

lemma table_ok_delete [keeps]: "table_ok t \<Longrightarrow> table_ok (delete_row d t)"
  by (auto simp: table_ok_def delete_row_def list_all_iff distinct_map inj_on_def)

lemma update_row_replace:
  assumes "table_ok t" and "r \<in> set t" and "\<And>x. x \<in> set t \<Longrightarrow> P x \<longleftrightarrow> x = r"
    and "document_id (f r) = document_id r"
  shows "map (\<lambda>x. if P x then f x else x) t = replace_row (f r) t"
  using assms same_document [OF assms(1) _ assms(2)] by (auto simp: replace_row_def)

lemma delete_row_filter:
  assumes "table_ok t" and "r \<in> set t" and "\<And>x. x \<in> set t \<Longrightarrow> P x \<longleftrightarrow> x = r"
  shows "filter (\<lambda>x. \<not> P x) t = delete_row (document_id r) t"
  using assms same_document [OF assms(1) _ assms(2)]
  by (auto simp: delete_row_def intro!: filter_cong)

section \<open>Retry delay\<close>

lemma retry_loop_closed_form:
  "0 < delay \<Longrightarrow> delay \<le> maximum \<Longrightarrow> retry_loop n delay maximum = min (delay * 2 ^ n) maximum"
proof (induction n arbitrary: delay)
  case (Suc n)
  show ?case
  proof (cases "delay < maximum")
    case True
    with Suc have "retry_loop (Suc n) delay maximum = min (min (delay * 2) maximum * 2 ^ n) maximum"
      by (simp add: min_def)
    also have "\<dots> = min (delay * 2 ^ Suc n) maximum"
    proof (cases "delay * 2 \<le> maximum")
      case False
      then have "maximum \<le> delay * 2 * 2 ^ n" "maximum \<le> maximum * 2 ^ n"
        using Suc.prems True by (simp_all add: mult_le_cancel_left1 order_trans [of maximum "delay * 2"]
            mult_le_cancel_left1)
      then show ?thesis using False by (simp add: min_def algebra_simps)
    qed (simp add: min_def algebra_simps)
    finally show ?thesis .
  next
    case False
    then have "delay = maximum" "maximum \<le> maximum * (2 * 2 ^ n)"
      using Suc.prems by (auto simp: mult_le_cancel_left1 intro: order_trans [of _ "2 ^ n"])
    then show ?thesis by (simp add: min_def)
  qed
qed (simp add: min_def)

lemma retry_delay_closed_form:
  assumes "0 < initial" and "initial \<le> maximum"
  shows "retry_delay_seconds n initial maximum = min (initial * 2 ^ nat (n - 1)) maximum"
proof (cases "initial = maximum")
  case True
  have "(1 :: real) \<le> 2 ^ nat (n - 1)" by simp
  with True assms show ?thesis
    by (auto simp: retry_delay_seconds_def min_def mult_le_cancel_left1 intro: order_antisym)
next
  case False
  with assms show ?thesis
    using retry_loop_closed_form [of initial maximum "nat (n - 1)"]
    by (simp add: retry_delay_seconds_def)
qed

lemma retry_delay_bounds:
  assumes "0 < initial" and "initial \<le> maximum"
  shows "initial \<le> retry_delay_seconds n initial maximum"
    and "retry_delay_seconds n initial maximum \<le> maximum"
  using assms by (auto simp: retry_delay_closed_form min_def mult_le_cancel_left1)


section \<open>Effects of the transitions\<close>

lemma transaction_eq:
  "transaction handler body fs t = (a, t') \<longleftrightarrow>
     (\<exists>e. body t t fs = Inl e \<and> a = handler e \<and> t' = t) \<or> body t t fs = Inr (a, t')"
  by (auto simp: transaction_def split: sum.splits)

lemmas tx_iff = sql_Inr commit_Inr rollback_to_Inr raise_Inr begin_immediate_Inr if_tx_Inr

text \<open>
  The shape shared by the operations that take a time: nothing happens unless the time is usable,
  the outbox open and the owner checked.
\<close>

definition timed_gate ::
    "py \<Rightarrow> (real \<Rightarrow> bool) \<Rightarrow> 'a \<Rightarrow> (real \<Rightarrow> 'a) \<Rightarrow> exn + 'a" where
  "timed_gate now blocked failed run =
     (case valid_wall_time now of
        Inl e \<Rightarrow> Inl e
      | Inr None \<Rightarrow> Inr failed
      | Inr (Some time) \<Rightarrow> if blocked time then Inr failed else Inr (run time))"

lemma timed_gate_Inr:
  "timed_gate now blocked failed run = Inr x \<Longrightarrow>
     x = failed \<or> (\<exists>time. valid_wall_time now = Inr (Some time) \<and> \<not> blocked time \<and> x = run time)"
  by (auto simp: timed_gate_def split: sum.splits option.splits if_splits)

lemma transaction_result:
  "(case transaction handler body fs t of (res, t') \<Rightarrow> (res, ob\<lparr>rows := t'\<rparr>)) = (a, ob') \<longleftrightarrow>
     (\<exists>t'. transaction handler body fs t = (a, t') \<and> ob' = ob\<lparr>rows := t'\<rparr>)"
  by (auto split: prod.splits)

text \<open>One guarded statement between \<open>BEGIN\<close> and \<open>COMMIT\<close>.\<close>

lemma guarded_Inr:
  "begin_immediate (sql stmt (\<lambda>n. if bad n then raise e else commit (g n))) t fs = Inr (a, t') \<Longrightarrow>
     \<not> bad (fst (stmt t)) \<and> a = g (fst (stmt t)) \<and> t' = snd (stmt t)"
  by (simp add: tx_iff split: if_splits)

lemma guarded_no_fault:
  "\<not> bad (fst (stmt t)) \<Longrightarrow>
     begin_immediate (sql stmt (\<lambda>n. if bad n then raise e else commit (g n))) t [] =
     Inr (g (fst (stmt t)), snd (stmt t))"
  by simp

text \<open>
  An owner-only transition runs its transaction exactly when the outbox is open and the owner's lock
  checks out; in every other case it fails locally and changes nothing.
\<close>

lemma recover_sending_gate:
  "recover_sending v fs owner now ob =
     timed_gate now (\<lambda>_. ob_closed ob \<or> \<not> owned_before v ob owner) (TransitionLocalFailure, ob)
       (\<lambda>time. case transaction (\<lambda>_. TransitionLocalFailure) (\<lambda>_. recover_tx v ob owner time) fs (rows ob)
          of (result, t) \<Rightarrow> (result, ob\<lparr>rows := t\<rparr>))"
  by (simp add: recover_sending_def timed_gate_def split: sum.split option.split prod.split)

lemma claim_due_gate:
  "claim_due v fs owner now ob =
     timed_gate now (\<lambda>_. ob_closed ob \<or> \<not> owned_before v ob owner) (ClaimLocalFailure, ob)
       (\<lambda>time. case transaction (\<lambda>_. ClaimLocalFailure) (claim_tx v ob owner time) fs (rows ob)
          of (result, t) \<Rightarrow> (result, ob\<lparr>rows := t\<rparr>))"
  by (simp add: claim_due_def timed_gate_def split: sum.split option.split prod.split)

definition recovered :: "real \<Rightarrow> table \<Rightarrow> table" where
  "recovered time t =
     map (\<lambda>r. if state r = Sending
              then r\<lparr>state := Pending, next_attempt_at := time, updated_at := time\<rparr> else r) t"

lemma recover_sending_Inr:
  assumes "recover_sending v fs owner now ob = Inr (res, ob')"
  shows "(res = TransitionLocalFailure \<and> ob' = ob) \<or>
    (\<exists>time. valid_wall_time now = Inr (Some time) \<and> \<not> ob_closed ob \<and> owned_before v ob owner \<and>
       owned_at_commit v ob owner \<and>
       res = Applied (count_if (\<lambda>r. state r = Sending) (rows ob)) \<and>
       ob' = ob\<lparr>rows := recovered time (rows ob)\<rparr>)"
  using timed_gate_Inr [OF assms [unfolded recover_sending_gate]]
proof (elim disjE exE conjE)
  fix time t'
  assume t: "valid_wall_time now = Inr (Some time)" "\<not> (ob_closed ob \<or> \<not> owned_before v ob owner)"
    and "(res, ob') = (case transaction (\<lambda>_. TransitionLocalFailure) (\<lambda>_. recover_tx v ob owner time) fs
      (rows ob) of (result, t) \<Rightarrow> (result, ob\<lparr>rows := t\<rparr>))"
  then obtain t' where "transaction (\<lambda>_. TransitionLocalFailure) (\<lambda>_. recover_tx v ob owner time) fs
      (rows ob) = (res, t')" and ob': "ob' = ob\<lparr>rows := t'\<rparr>"
    by (metis transaction_result)
  then consider "res = TransitionLocalFailure" "t' = rows ob"
    | "recover_tx v ob owner time (rows ob) fs = Inr (res, t')" unfolding transaction_eq by blast
  then show ?thesis
  proof cases
    case 2
    from guarded_Inr [OF this [unfolded recover_tx_def]] show ?thesis using t ob'
      by (simp add: update_where_def recovered_def)
  qed (simp add: ob')
qed simp

definition claimed_row :: "real \<Rightarrow> outbox_row \<Rightarrow> outbox_row" where
  "claimed_row now r = r\<lparr>state := Sending, attempt_count := attempt_count r + 1, updated_at := now\<rparr>"

definition least_due :: "sqlite_outbox \<Rightarrow> real \<Rightarrow> table \<Rightarrow> outbox_row \<Rightarrow> bool" where
  "least_due ob now t r \<longleftrightarrow> r \<in> set t \<and> due ob now r \<and>
     (\<forall>x \<in> set t. due ob now x \<longrightarrow> claim_key r \<le> claim_key x)"

lemma document_id_claimed [simp]: "document_id (claimed_row now r) = document_id r"
  by (simp add: claimed_row_def)

lemma claim_statement:
  assumes "table_ok t" and "r \<in> set t" and "due ob now r"
  shows "update_where
     (\<lambda>x. document_id x = document_id r \<and> state x = Pending \<and> attempt_count x = attempt_count r \<and>
          next_attempt_at x \<le> now \<and> destination_fp x = destination_fp r \<and>
          payload_schema x = payload_schema r)
     (\<lambda>r. r\<lparr>state := Sending, attempt_count := attempt_count r + 1, updated_at := now\<rparr>) t =
     (1, replace_row (claimed_row now r) t)"
proof -
  let ?P = "\<lambda>x. document_id x = document_id r \<and> state x = Pending \<and> attempt_count x = attempt_count r \<and>
      next_attempt_at x \<le> now \<and> destination_fp x = destination_fp r \<and>
      payload_schema x = payload_schema r"
  have P: "?P x \<longleftrightarrow> x = r" if "x \<in> set t" for x
    using that assms(2,3) same_document [OF assms(1) that assms(2)] by (auto simp: due_def)
  have "filter ?P t = [r]"
    using assms(1,2) P by (intro filter_unique_row) auto
  moreover have "map (\<lambda>x. if ?P x then claimed_row now x else x) t = replace_row (claimed_row now r) t"
    by (rule update_row_replace [OF assms(1,2) P]) simp_all
  ultimately show ?thesis unfolding update_where_def count_if_def claimed_row_def by simp
qed

lemma claim_tx_Inr:
  assumes "claim_tx v ob owner now t t fs = Inr (res, t')" and "table_ok t"
  shows "(res = EmptyClaim \<and> t' = t \<and> filter (due ob now) t = []) \<or>
    (\<exists>r. least_due ob now t r \<and> owned_at_commit v ob owner \<and> res = Claimed (claimed_row now r) \<and>
       t' = replace_row (claimed_row now r) t)"
proof (cases "first_by claim_key (filter (due ob now) t)")
  case None
  then have "filter (due ob now) t = []" by (simp add: first_by_None)
  with None assms(1) show ?thesis by (simp add: claim_tx_def tx_iff)
next
  case (Some r)
  note f = first_by_Some [OF Some]
  then have r: "r \<in> set t" "due ob now r" and least: "least_due ob now t r" by (auto simp: least_due_def)
  from assms(1) Some show ?thesis
    using least by (auto simp: claim_tx_def tx_iff claim_statement [OF assms(2) r] claimed_row_def
        split: if_splits)
qed

lemma claim_due_Inr:
  assumes "claim_due v fs owner now ob = Inr (res, ob')" and "table_ok (rows ob)"
  shows "(res = ClaimLocalFailure \<and> ob' = ob) \<or>
    (\<exists>time. valid_wall_time now = Inr (Some time) \<and> \<not> ob_closed ob \<and> owned_before v ob owner \<and>
      ((res = EmptyClaim \<and> ob' = ob \<and> filter (due ob time) (rows ob) = []) \<or>
       (\<exists>r. least_due ob time (rows ob) r \<and> owned_at_commit v ob owner \<and>
          res = Claimed (claimed_row time r) \<and>
          ob' = ob\<lparr>rows := replace_row (claimed_row time r) (rows ob)\<rparr>)))"
  using timed_gate_Inr [OF assms(1) [unfolded claim_due_gate]]
proof (elim disjE exE conjE)
  fix time
  assume t: "valid_wall_time now = Inr (Some time)" "\<not> (ob_closed ob \<or> \<not> owned_before v ob owner)"
    and "(res, ob') = (case transaction (\<lambda>_. ClaimLocalFailure) (claim_tx v ob owner time) fs
      (rows ob) of (result, t) \<Rightarrow> (result, ob\<lparr>rows := t\<rparr>))"
  then obtain t' where "transaction (\<lambda>_. ClaimLocalFailure) (claim_tx v ob owner time) fs
      (rows ob) = (res, t')" and ob': "ob' = ob\<lparr>rows := t'\<rparr>"
    by (metis transaction_result)
  then consider "res = ClaimLocalFailure" "t' = rows ob"
    | "claim_tx v ob owner time (rows ob) (rows ob) fs = Inr (res, t')" unfolding transaction_eq by blast
  then show ?thesis
  proof cases
    case 2
    from claim_tx_Inr [OF this assms(2)] show ?thesis using t ob' by auto
  qed (simp add: ob')
qed simp


text \<open>The row a completion names: in the table, sending, with exactly that attempt.\<close>

definition claimed_by :: "py \<Rightarrow> py \<Rightarrow> table \<Rightarrow> outbox_row \<Rightarrow> bool" where
  "claimed_by doc attempt t r \<longleftrightarrow>
     r \<in> set t \<and> doc = PStr (lit (document_id r)) \<and> state r = Sending \<and> attempt = PInt (attempt_count r)"

lemma complete_claim_result:
  assumes "complete_claim v fs owner doc attempt ob = (res, ob')" and "table_ok (rows ob)"
  shows "(res = TransitionLocalFailure \<and> ob' = ob) \<or>
    (\<exists>r. claimed_by doc attempt (rows ob) r \<and> valid_claim_guard doc attempt \<and> \<not> ob_closed ob \<and>
       owned_before v ob owner \<and> owned_at_commit v ob owner \<and> res = Applied 1 \<and>
       ob' = ob\<lparr>rows := delete_row (document_id r) (rows ob)\<rparr>)"
proof (cases "valid_claim_guard doc attempt \<and> \<not> ob_closed ob \<and> owned_before v ob owner")
  case True
  with assms(1) obtain t' where
    "transaction (\<lambda>_. TransitionLocalFailure) (\<lambda>_. complete_tx v ob owner doc attempt) fs (rows ob) = (res, t')"
    and ob': "ob' = ob\<lparr>rows := t'\<rparr>"
    by (auto simp: complete_claim_def split: prod.splits)
  then consider "res = TransitionLocalFailure" "t' = rows ob"
    | "complete_tx v ob owner doc attempt (rows ob) fs = Inr (res, t')" unfolding transaction_eq by blast
  then show ?thesis
  proof cases
    case 2
    from guarded_Inr [OF this [unfolded complete_tx_def]]
    have g: "count_if (exact_claim doc attempt) (rows ob) = 1" "owned_at_commit v ob owner"
      "res = Applied 1" "t' = filter (\<lambda>r. \<not> exact_claim doc attempt r) (rows ob)"
      by (auto simp: delete_where_def)
    from exact_claim_unique [OF assms(2) g(1)] obtain r where r: "r \<in> set (rows ob)"
      "exact_claim doc attempt r" and u: "\<And>x. x \<in> set (rows ob) \<Longrightarrow> exact_claim doc attempt x \<longleftrightarrow> x = r"
      by blast
    from delete_row_filter [OF assms(2) r(1) u] g r ob' True show ?thesis
      by (auto simp: claimed_by_def exact_claim_def names_row_def)
  qed (simp add: ob')
next
  case False
  then have "complete_claim v fs owner doc attempt ob = (TransitionLocalFailure, ob)"
    by (auto simp: complete_claim_def)
  with assms(1) show ?thesis by simp
qed

definition rescheduled_row :: "failure_category \<Rightarrow> real \<Rightarrow> real \<Rightarrow> outbox_row \<Rightarrow> outbox_row" where
  "rescheduled_row category completed delay r =
     r\<lparr>state := Pending, next_attempt_at := completed + delay,
       last_error_category := Some category, updated_at := completed\<rparr>"

lemma document_id_rescheduled [simp]: "document_id (rescheduled_row c t d r) = document_id r"
  by (simp add: rescheduled_row_def)

lemma reschedule_claim_gate:
  "reschedule_claim v fs owner doc attempt category completed ob =
     timed_gate completed
       (\<lambda>_. \<not> valid_claim_guard doc attempt \<or> ob_closed ob \<or> \<not> owned_before v ob owner)
       (TransitionLocalFailure, ob)
       (\<lambda>time. case transaction (\<lambda>_. TransitionLocalFailure)
            (\<lambda>_. reschedule_tx v ob owner doc attempt category time
               (time + retry_delay_seconds (int_value attempt)
                  (ob_retry_initial ob) (ob_retry_max ob))) fs (rows ob)
          of (result, t) \<Rightarrow> (result, ob\<lparr>rows := t\<rparr>))"
  by (simp add: reschedule_claim_def timed_gate_def Let_def split: sum.split option.split prod.split)

lemma reschedule_claim_Inr:
  assumes "reschedule_claim v fs owner doc attempt category completed ob = Inr (res, ob')"
    and "table_ok (rows ob)"
  shows "(res = TransitionLocalFailure \<and> ob' = ob) \<or>
    (\<exists>r time. claimed_by doc attempt (rows ob) r \<and> valid_claim_guard doc attempt \<and> \<not> ob_closed ob \<and>
       owned_before v ob owner \<and> owned_at_commit v ob owner \<and>
       valid_wall_time completed = Inr (Some time) \<and> res = Applied 1 \<and>
       ob' = ob\<lparr>rows := replace_row (rescheduled_row category time
          (retry_delay_seconds (attempt_count r) (ob_retry_initial ob) (ob_retry_max ob)) r)
          (rows ob)\<rparr>)"
  using timed_gate_Inr [OF assms(1) [unfolded reschedule_claim_gate]]
proof (elim disjE exE conjE)
  fix time
  let ?n = "int_value attempt"
  let ?d = "retry_delay_seconds ?n (ob_retry_initial ob) (ob_retry_max ob)"
  let ?tx = "\<lambda>_. reschedule_tx v ob owner doc attempt category time (time + ?d)"
  assume t: "valid_wall_time completed = Inr (Some time)"
    "\<not> (\<not> valid_claim_guard doc attempt \<or> ob_closed ob \<or> \<not> owned_before v ob owner)"
    and "(res, ob') = (case transaction (\<lambda>_. TransitionLocalFailure) ?tx fs (rows ob)
           of (result, t) \<Rightarrow> (result, ob\<lparr>rows := t\<rparr>))"
  then obtain t' where "transaction (\<lambda>_. TransitionLocalFailure) ?tx fs (rows ob) = (res, t')"
    and ob': "ob' = ob\<lparr>rows := t'\<rparr>"
    by (metis transaction_result)
  then consider "res = TransitionLocalFailure" "t' = rows ob"
    | "reschedule_tx v ob owner doc attempt category time (time + ?d) (rows ob) fs = Inr (res, t')"
    unfolding transaction_eq by blast
  then show ?thesis
  proof cases
    case 2
    let ?f = "\<lambda>r :: outbox_row. r\<lparr>state := Pending, next_attempt_at := time + ?d,
        last_error_category := Some category, updated_at := time\<rparr>"
    from guarded_Inr [OF 2 [unfolded reschedule_tx_def]]
    have g: "count_if (exact_claim doc attempt) (rows ob) = 1" "owned_at_commit v ob owner"
      "res = Applied 1" "t' = map (\<lambda>r. if exact_claim doc attempt r then ?f r else r) (rows ob)"
      by (auto simp: update_where_def)
    from exact_claim_unique [OF assms(2) g(1)] obtain r where r: "r \<in> set (rows ob)"
      "exact_claim doc attempt r" and u: "\<And>x. x \<in> set (rows ob) \<Longrightarrow> exact_claim doc attempt x \<longleftrightarrow> x = r"
      by blast
    have "t' = replace_row (?f r) (rows ob)"
      using update_row_replace [OF assms(2) r(1) u, of ?f] g(4) by simp
    moreover have "?f r = rescheduled_row category time
        (retry_delay_seconds (attempt_count r) (ob_retry_initial ob) (ob_retry_max ob)) r"
      using r(2) by (simp add: rescheduled_row_def exact_claim_def int_value_def)
    ultimately show ?thesis using g r ob' t
      by (auto simp: claimed_by_def exact_claim_def names_row_def)
  qed (simp add: ob')
qed simp


section \<open>Admission\<close>

definition absent :: "table \<Rightarrow> retained_segment \<Rightarrow> bool" where
  "absent t s \<longleftrightarrow> document_id s \<notin> document_id ` set t"

text \<open>Present with exactly the same immutable values.\<close>

definition stored :: "sqlite_outbox \<Rightarrow> table \<Rightarrow> retained_segment \<Rightarrow> bool" where
  "stored ob t s \<longleftrightarrow> (\<exists>r \<in> set t. document_id r = document_id s \<and>
     immutable_values r (destination_fp r) = immutable_values s (segment_fingerprint ob s))"

lemma find_row_None: "find (\<lambda>r. document_id r = d) t = None \<longleftrightarrow> d \<notin> document_id ` set t"
  by (auto simp: find_None_iff)

lemma find_row_Some: "find (\<lambda>r. document_id r = d) t = Some r \<Longrightarrow> r \<in> set t \<and> document_id r = d"
  by (auto simp: find_Some_iff)

lemma scan_existing_Inr:
  assumes "scan_existing ob conflict k new dup cs t fs = Inr x"
  shows "(\<exists>fs'. conflict t fs' = Inr x) \<and> (\<exists>s \<in> set cs. \<not> absent t s \<and> (table_ok t \<longrightarrow> \<not> stored ob t s)) \<or>
    (\<exists>fs'. k (new @ filter (absent t) cs) (dup + count_if (\<lambda>s. \<not> absent t s) cs) t fs' = Inr x) \<and>
      (\<forall>s \<in> set cs. absent t s \<or> stored ob t s)"
  using assms
proof (induction ob conflict k new dup cs arbitrary: fs rule: scan_existing.induct)
  case (2 ob conflict k new dup s cs)
  from "2.prems" have run: "(case find (\<lambda>r. document_id r = document_id s) t of
      None \<Rightarrow> scan_existing ob conflict k (new @ [s]) dup cs
    | Some r \<Rightarrow> if immutable_values r (destination_fp r) \<noteq> immutable_values s (segment_fingerprint ob s)
        then conflict else scan_existing ob conflict k new (dup + 1) cs) t (tl fs) = Inr x"
    by (simp add: sql_Inr)
  show ?case
  proof (cases "find (\<lambda>r. document_id r = document_id s) t")
    case None
    then have "absent t s" by (simp add: absent_def find_row_None)
    with None run "2.IH"(1) [of "tl fs"] show ?thesis
      by (auto simp: count_if_def)
  next
    case (Some r)
    note r = find_row_Some [OF Some]
    then have pres: "\<not> absent t s" by (force simp: absent_def)
    show ?thesis
    proof (cases "immutable_values r (destination_fp r) = immutable_values s (segment_fingerprint ob s)")
      case True
      with r have "stored ob t s" by (auto simp: stored_def)
      with Some run pres True "2.IH"(2) [of r "tl fs"] show ?thesis
        by (auto simp: count_if_def algebra_simps)
    next
      case False
      with r have "table_ok t \<longrightarrow> \<not> stored ob t s"
        by (metis same_document stored_def)
      with Some run pres False show ?thesis by auto
    qed
  qed
qed (auto simp: count_if_def)

definition fits :: "sqlite_outbox \<Rightarrow> table \<Rightarrow> retained_segment list \<Rightarrow> bool" where
  "fits ob t new \<longleftrightarrow>
     int (length t) + int (length new) \<le> ob_max_pending_rows ob \<and>
     queued_bytes t + queued_bytes new \<le> ob_max_pending_bytes ob"

lemma admit_new_Inr:
  assumes "admit_new ob t timestamp new dup t fs = Inr (res, t')"
  shows "(new = [] \<and> t' = t \<and> res = \<lparr>ar_status = Duplicate, ar_inserted = 0, ar_duplicates = dup\<rparr>) \<or>
    (new \<noteq> [] \<and> \<not> fits ob t new \<and> t' = t \<and> res = plain_result CapacityRefused) \<or>
    (new \<noteq> [] \<and> fits ob t new \<and> t' = t @ map (new_row ob timestamp) new \<and>
       distinct (map document_id t') \<and>
       res = \<lparr>ar_status = Admitted, ar_inserted = int (length new), ar_duplicates = dup\<rparr>)"
  using assms
  by (cases "new = []") (auto simp: admit_new_def insert_rows_def tx_iff fits_def not_le split: if_splits)

text \<open>Every outcome of an admission, with the effect on the table.\<close>

lemma admit_result:
  assumes "admit sha decodes fs timestamp segments ob = (res, ob')"
  shows "(ob' = ob \<and> \<not> accepted res) \<or>
    (\<exists>cs repeated. validate_candidates sha decodes ob segments = Some (cs, repeated) \<and> \<not> ob_closed ob \<and>
       (\<forall>s \<in> set cs. absent (rows ob) s \<or> stored ob (rows ob) s) \<and>
       (let new = filter (absent (rows ob)) cs;
            dup = repeated + count_if (\<lambda>s. \<not> absent (rows ob) s) cs in
        (new = [] \<and> ob' = ob \<and> res = \<lparr>ar_status = Duplicate, ar_inserted = 0, ar_duplicates = dup\<rparr>) \<or>
        (new \<noteq> [] \<and> fits ob (rows ob) new \<and>
           ob' = ob\<lparr>rows := rows ob @ map (new_row ob timestamp) new\<rparr> \<and>
           distinct (map document_id (rows ob')) \<and>
           res = \<lparr>ar_status = Admitted, ar_inserted = int (length new), ar_duplicates = dup\<rparr>)))"
proof (cases "validate_candidates sha decodes ob segments")
  case None
  with assms show ?thesis by (auto simp: admit_def accepted_def plain_result_def)
next
  case (Some c)
  obtain cs repeated where c: "c = (cs, repeated)" by fastforce
  show ?thesis
  proof (cases "ob_closed ob")
    case True
    with assms Some c show ?thesis by (auto simp: admit_def accepted_def plain_result_def)
  next
    case False
    with assms Some c obtain t' where
      "transaction admission_failure (admit_tx ob timestamp cs repeated) fs (rows ob) = (res, t')"
      and ob': "ob' = ob\<lparr>rows := t'\<rparr>"
      by (auto simp: admit_def split: prod.splits)
    then consider e where "res = admission_failure e" "t' = rows ob"
      | "admit_tx ob timestamp cs repeated (rows ob) (rows ob) fs = Inr (res, t')"
      unfolding transaction_eq by blast
    then show ?thesis
    proof cases
      case 1
      then show ?thesis using ob' by (auto simp: admission_failure_def accepted_def plain_result_def)
    next
      case 2
      from scan_existing_Inr [of ob "rollback_to (rows ob) (plain_result Conflict)"
          "admit_new ob (rows ob) timestamp" "[]" repeated cs "rows ob" "tl fs" "(res, t')"] 2
      consider fs' where "rollback_to (rows ob) (plain_result Conflict) (rows ob) fs' = Inr (res, t')"
        | fs' where "admit_new ob (rows ob) timestamp (filter (absent (rows ob)) cs)
             (repeated + count_if (\<lambda>s. \<not> absent (rows ob) s) cs) (rows ob) fs' = Inr (res, t')"
           "\<forall>s \<in> set cs. absent (rows ob) s \<or> stored ob (rows ob) s"
        unfolding admit_tx_def begin_immediate_Inr append_Nil by blast
      then show ?thesis
      proof cases
        case 1
        then show ?thesis using ob' by (auto simp: tx_iff accepted_def plain_result_def)
      next
        case 2
        from admit_new_Inr [OF 2(1)] show ?thesis
          using 2(2) Some c False ob' by (auto simp: Let_def accepted_def plain_result_def)
      qed
    qed
  qed
qed


section \<open>Validated candidates\<close>

lemma collect_candidates_sound:
  assumes "collect_candidates sha decodes ob u n segs = Some (u', n')"
    and "\<And>d s. (d, s) \<in> set u \<Longrightarrow> d = document_id s \<and> valid_segment sha decodes ob s"
    and "dict_ok u"
  shows "(\<forall>(d, s) \<in> set u'. d = document_id s \<and> valid_segment sha decodes ob s) \<and> dict_ok u' \<and>
    set u \<subseteq> set u' \<and>
    (\<forall>s \<in> set segs. \<exists>s'. (document_id s, s') \<in> set u' \<and>
       immutable_values s (segment_fingerprint ob s) = immutable_values s' (segment_fingerprint ob s'))"
  using assms
proof (induction sha decodes ob u n segs rule: collect_candidates.induct)
  case (2 sha decodes ob u n s ss)
  from "2.prems"(1) have v: "valid_segment sha decodes ob s" by (auto split: if_splits)
  show ?case
  proof (cases "dict_get u (document_id s)")
    case None
    let ?u = "dict_set u (document_id s) s"
    have sub: "set u \<subseteq> set ?u" and new: "(document_id s, s) \<in> set ?u"
      by (auto simp: dict_set_new [OF None])
    have vs: "\<And>d s'. (d, s') \<in> set ?u \<Longrightarrow> d = document_id s' \<and> valid_segment sha decodes ob s'"
      using "2.prems"(2) v set_dict_set_subset [of u "document_id s" s] by blast
    from "2.IH"(1) [OF _ None _ vs] "2.prems"(1,3) v None
    have *: "(\<forall>(d, s) \<in> set u'. d = document_id s \<and> valid_segment sha decodes ob s) \<and> dict_ok u' \<and>
      set ?u \<subseteq> set u' \<and> (\<forall>s \<in> set ss. \<exists>s'. (document_id s, s') \<in> set u' \<and>
       immutable_values s (segment_fingerprint ob s) = immutable_values s' (segment_fingerprint ob s'))"
      by simp
    then show ?thesis using sub new by auto
  next
    case (Some prior)
    have p: "(document_id s, prior) \<in> set u" using dict_get_in_set [OF Some] .
    from "2.prems"(1) v Some have i: "immutable_values prior (segment_fingerprint ob prior) =
        immutable_values s (segment_fingerprint ob s)"
      and rest: "collect_candidates sha decodes ob u (n + 1) ss = Some (u', n')"
      by (auto split: if_splits)
    from "2.IH"(2) [OF _ Some i rest "2.prems"(2,3)] v p i show ?thesis by auto
  qed
qed auto

lemma validate_candidates_sound:
  assumes "validate_candidates sha decodes ob segs = Some (cs, n)"
  shows "\<And>s. s \<in> set cs \<Longrightarrow> valid_segment sha decodes ob s"
    and "\<And>s. s \<in> set segs \<Longrightarrow> \<exists>c \<in> set cs. document_id c = document_id s \<and>
       immutable_values c (segment_fingerprint ob c) = immutable_values s (segment_fingerprint ob s)"
    and "cs \<noteq> []" and "map segment_index cs = [0 .. int (length cs) - 1]"
proof -
  from assms obtain u where u: "collect_candidates sha decodes ob [] 0 segs = Some (u, n)"
    and cs: "cs = sort_key segment_index (map snd u)" and segs: "segs \<noteq> []"
    and idx: "map segment_index cs = [0 .. segment_count (hd cs) - 1]"
      "int (length cs) = segment_count (hd cs)"
    by (auto simp: validate_candidates_def Let_def split: if_splits option.splits)
  note c = collect_candidates_sound [OF u]
  then have c': "(\<forall>(d, s) \<in> set u. d = document_id s \<and> valid_segment sha decodes ob s)"
    "\<forall>s \<in> set segs. \<exists>s'. (document_id s, s') \<in> set u \<and>
       immutable_values s (segment_fingerprint ob s) = immutable_values s' (segment_fingerprint ob s')"
    by auto
  show "valid_segment sha decodes ob s" if "s \<in> set cs" for s
    using that c'(1) by (auto simp: cs)
  show ex: "\<exists>c \<in> set cs. document_id c = document_id s \<and>
     immutable_values c (segment_fingerprint ob c) = immutable_values s (segment_fingerprint ob s)"
    if "s \<in> set segs" for s
  proof -
    from c'(2) that obtain s' where s': "(document_id s, s') \<in> set u"
      "immutable_values s (segment_fingerprint ob s) = immutable_values s' (segment_fingerprint ob s')"
      by blast
    then have "document_id s' = document_id s" using c'(1) by auto
    moreover have "s' \<in> set cs" using s'(1) by (force simp: cs)
    ultimately show ?thesis using s'(2) by auto
  qed
  show "cs \<noteq> []" using ex [of "hd segs"] segs by (metis empty_iff empty_set list.set_sel(1))
  show "map segment_index cs = [0 .. int (length cs) - 1]" using idx by simp
qed

lemma valid_segment_rows [simp]:
  "valid_segment sha decodes (ob\<lparr>rows := t\<rparr>) s = valid_segment sha decodes ob s"
  by (simp add: valid_segment_def multimodal_fp_enabled_def cong: if_cong)

lemma segment_fingerprint_rows [simp]: "segment_fingerprint (ob\<lparr>rows := t\<rparr>) s = segment_fingerprint ob s"
  by (simp add: segment_fingerprint_def)

lemma collect_candidates_rows [simp]:
  "collect_candidates sha decodes (ob\<lparr>rows := t\<rparr>) u n segs = collect_candidates sha decodes ob u n segs"
  by (induction sha decodes ob u n segs rule: collect_candidates.induct)
    (simp_all split: option.split)

lemma validate_candidates_rows [simp]:
  "validate_candidates sha decodes (ob\<lparr>rows := t\<rparr>) segs = validate_candidates sha decodes ob segs"
  by (simp add: validate_candidates_def)

lemma valid_segment_range:
  "valid_segment sha decodes ob s \<Longrightarrow> 0 \<le> segment_index s \<and> segment_index s < segment_count s"
  by (simp add: valid_segment_def Let_def)

section \<open>Preservation of the invariant\<close>

lemma table_ok_recovered: "table_ok t \<Longrightarrow> 0 \<le> time \<Longrightarrow> table_ok (recovered time t)"
  unfolding recovered_def table_ok_def
  by (auto simp: list_all_iff row_ok_def comp_def if_distrib cong: if_cong)

lemma valid_wall_time_nonneg: "valid_wall_time v = Inr (Some r) \<Longrightarrow> 0 \<le> r"
  by (auto simp: valid_wall_time_def split: py.splits option.splits if_splits)

lemma row_ok_claimed: "row_ok r \<Longrightarrow> 0 \<le> now \<Longrightarrow> row_ok (claimed_row now r)"
  by (simp add: row_ok_def claimed_row_def)

lemma row_ok_rescheduled:
  "row_ok r \<Longrightarrow> 0 \<le> completed \<Longrightarrow> 0 \<le> d \<Longrightarrow> row_ok (rescheduled_row c completed d r)"
  by (simp add: row_ok_def rescheduled_row_def)

lemma row_ok_new:
  "0 \<le> segment_index s \<and> segment_index s < segment_count s \<Longrightarrow> 0 \<le> ts \<Longrightarrow> row_ok (new_row ob ts s)"
  by (simp add: row_ok_def new_row_def)

lemma queued_bytes_append [simp]: "queued_bytes (xs @ ys) = queued_bytes xs + queued_bytes ys"
  by (simp add: queued_bytes_def)

lemma queued_bytes_new: "queued_bytes (map (new_row ob ts) new) = queued_bytes new"
  by (simp add: queued_bytes_def row_bytes_def [abs_def] new_row_def comp_def)

lemma row_bytes_nonneg: "0 \<le> row_bytes r"
  by (simp add: row_bytes_def OUTBOX_ROW_ACCOUNTING_ALLOWANCE_BYTES_def)

lemma queued_bytes_filter: "queued_bytes (filter P t) \<le> queued_bytes t"
  by (induction t) (auto simp: queued_bytes_def intro: order_trans [OF _ add_increasing] row_bytes_nonneg)

lemma queued_bytes_replace:
  assumes "table_ok t" and "r \<in> set t" and "document_id r' = document_id r" and "content r' = content r"
  shows "queued_bytes (replace_row r' t) = queued_bytes t"
proof -
  have "map row_bytes (replace_row r' t) = map row_bytes t"
    using assms same_document [OF assms(1) _ assms(2)]
    by (auto simp: replace_row_def row_bytes_def)
  then show ?thesis by (simp add: queued_bytes_def)
qed

end
