(* ===== verification/OutboxRuns.thy ===== *)
theory OutboxRuns
  imports Queue
begin

text \<open>
  Sequences of operations on one durable outbox: admissions, the sender's owner-only transitions,
  closing, and a restart of the process on the same table. Lemmas state what each operation keeps and
  what it may change of a row; the properties of whole runs follow by induction.
\<close>

section \<open>Operations as values\<close>

datatype outbox_op =
    OpAdmit faults real "retained_segment list"
  | OpRecover owner_view faults profile_lock_owner py
  | OpClaim owner_view faults profile_lock_owner py
  | OpComplete owner_view faults profile_lock_owner py py
  | OpReschedule owner_view faults profile_lock_owner py py failure_category py
  | OpClose
  | OpRestart nat

definition after :: "sqlite_outbox \<Rightarrow> exn + 'a \<times> sqlite_outbox \<Rightarrow> sqlite_outbox" where
  "after ob result = (case result of Inl _ \<Rightarrow> ob | Inr (_, ob') \<Rightarrow> ob')"

fun apply_op ::
    "sha_fun \<Rightarrow> (better_config \<Rightarrow> ustr \<Rightarrow> bool) \<Rightarrow> outbox_op \<Rightarrow> sqlite_outbox \<Rightarrow> sqlite_outbox" where
  "apply_op sha decodes (OpAdmit fs now segs) ob = snd (admit sha decodes fs now segs ob)"
| "apply_op sha decodes (OpRecover v fs owner now) ob = after ob (recover_sending v fs owner now ob)"
| "apply_op sha decodes (OpClaim v fs owner now) ob = after ob (claim_due v fs owner now ob)"
| "apply_op sha decodes (OpComplete v fs owner doc n) ob = snd (complete_claim v fs owner doc n ob)"
| "apply_op sha decodes (OpReschedule v fs owner doc n cat now) ob =
     after ob (reschedule_claim v fs owner doc n cat now ob)"
| "apply_op sha decodes OpClose ob = close_outbox ob"
| "apply_op sha decodes (OpRestart token) ob = ob\<lparr>ob_closed := False, ob_lock_token := token\<rparr>"

text \<open>The clock of an admission never runs before the epoch.\<close>

fun op_ok :: "outbox_op \<Rightarrow> bool" where
  "op_ok (OpAdmit fs now segs) \<longleftrightarrow> 0 \<le> now"
| "op_ok _ \<longleftrightarrow> True"

definition settings_ok :: "sqlite_outbox \<Rightarrow> bool" where
  "settings_ok ob \<longleftrightarrow> 0 < ob_retry_initial ob \<and> ob_retry_initial ob \<le> ob_retry_max ob"

definition outbox_ok :: "sqlite_outbox \<Rightarrow> bool" where
  "outbox_ok ob \<longleftrightarrow> settings_ok ob \<and> table_ok (rows ob) \<and> within_capacity ob (rows ob)"

section \<open>The effect of one operation on the table\<close>

text \<open>
  Every operation changes the table in one of six ways. \<open>table_step\<close> is this abstract
  specification; \<open>apply_op_refines\<close> says that each operation of the code implements it.
\<close>

inductive table_step :: "sha_fun \<Rightarrow> (better_config \<Rightarrow> ustr \<Rightarrow> bool) \<Rightarrow> sqlite_outbox \<Rightarrow> outbox_op \<Rightarrow> table \<Rightarrow> table \<Rightarrow> bool"
  for sha decodes ob where
  unchanged: "table_step sha decodes ob op t t"
| inserted: "table_step sha decodes ob (OpAdmit fs now segs) t (t @ map (new_row ob now) new)"
    if "new \<noteq> []" and "fits ob t new" and "list_all (valid_segment sha decodes ob) new"
      and "distinct (map document_id (t @ map (new_row ob now) new))"
| recovery: "table_step sha decodes ob (OpRecover v fs owner now) t (recovered time t)"
    if "owned_at_commit v ob owner" and "0 \<le> time"
| claim: "table_step sha decodes ob (OpClaim v fs owner now) t (replace_row (claimed_row time r) t)"
    if "owned_at_commit v ob owner" and "0 \<le> time" and "least_due ob time t r"
| completion: "table_step sha decodes ob (OpComplete v fs owner doc n) t (delete_row (document_id r) t)"
    if "owned_at_commit v ob owner" and "claimed_by doc n t r"
| retry: "table_step sha decodes ob (OpReschedule v fs owner doc n cat now) t
      (replace_row (rescheduled_row cat time
         (retry_delay_seconds (attempt_count r) (ob_retry_initial ob) (ob_retry_max ob)) r) t)"
    if "owned_at_commit v ob owner" and "0 \<le> time" and "claimed_by doc n t r"

inductive_cases table_step_completeE: "table_step sha decodes ob (OpComplete v fs owner doc n) t t'"

lemma apply_op_refines:
  assumes "table_ok (rows ob)"
  shows "table_step sha decodes ob op (rows ob) (rows (apply_op sha decodes op ob))"
proof (cases op)
  case (OpAdmit fs now segs)
  obtain res ob' where a: "admit sha decodes fs now segs ob = (res, ob')" by fastforce
  from admit_result [OF a, unfolded Let_def] show ?thesis
  proof (elim disjE exE conjE)
    fix cs n
    let ?new = "filter (absent (rows ob)) cs"
    assume v: "validate_candidates sha decodes ob segs = Some (cs, n)" and ne: "?new \<noteq> []"
      and f: "fits ob (rows ob) ?new" and ob': "ob' = ob\<lparr>rows := rows ob @ map (new_row ob now) ?new\<rparr>"
      and d: "distinct (map document_id (rows ob'))"
    have "list_all (valid_segment sha decodes ob) ?new"
      using validate_candidates_sound(1) [OF v] by (simp add: list_all_iff)
    from inserted [OF ne f this, of now fs segs] show ?thesis using d ob' a OpAdmit by simp
  qed (use a OpAdmit in \<open>simp_all add: unchanged\<close>)
next
  case (OpRecover v fs owner now)
  show ?thesis
  proof (cases "recover_sending v fs owner now ob")
    case (Inr x)
    obtain res ob' where x: "x = (res, ob')" by fastforce
    from recover_sending_Inr [OF Inr [unfolded x]] show ?thesis
    proof (elim disjE exE conjE)
      fix time
      assume "valid_wall_time now = Inr (Some time)" "owned_at_commit v ob owner"
        and ob': "ob' = ob\<lparr>rows := recovered time (rows ob)\<rparr>"
      then have "table_step sha decodes ob (OpRecover v fs owner now) (rows ob) (recovered time (rows ob))"
        by (intro recovery valid_wall_time_nonneg)
      then show ?thesis using Inr x ob' OpRecover by (simp add: after_def)
    qed (use Inr x OpRecover in \<open>simp add: after_def unchanged\<close>)
  qed (simp add: OpRecover after_def unchanged)
next
  case (OpClaim v fs owner now)
  show ?thesis
  proof (cases "claim_due v fs owner now ob")
    case (Inr x)
    obtain res ob' where x: "x = (res, ob')" by fastforce
    from claim_due_Inr [OF Inr [unfolded x] assms] show ?thesis
    proof (elim disjE exE conjE)
      fix time r
      assume "valid_wall_time now = Inr (Some time)" "owned_at_commit v ob owner"
        "least_due ob time (rows ob) r"
        and ob': "ob' = ob\<lparr>rows := replace_row (claimed_row time r) (rows ob)\<rparr>"
      then have "table_step sha decodes ob (OpClaim v fs owner now) (rows ob)
          (replace_row (claimed_row time r) (rows ob))"
        by (intro claim valid_wall_time_nonneg)
      then show ?thesis using Inr x ob' OpClaim by (simp add: after_def)
    qed (use Inr x OpClaim in \<open>simp_all add: after_def unchanged\<close>)
  qed (simp add: OpClaim after_def unchanged)
next
  case (OpComplete v fs owner doc n)
  obtain res ob' where c: "complete_claim v fs owner doc n ob = (res, ob')" by fastforce
  from complete_claim_result [OF c assms] c OpComplete show ?thesis
    by (auto intro: unchanged completion)
next
  case (OpReschedule v fs owner doc n cat now)
  show ?thesis
  proof (cases "reschedule_claim v fs owner doc n cat now ob")
    case (Inr x)
    obtain res ob' where x: "x = (res, ob')" by fastforce
    from reschedule_claim_Inr [OF Inr [unfolded x] assms] show ?thesis
    proof (elim disjE exE conjE)
      fix r time
      let ?r = "rescheduled_row cat time
        (retry_delay_seconds (attempt_count r) (ob_retry_initial ob) (ob_retry_max ob)) r"
      assume "valid_wall_time now = Inr (Some time)" "owned_at_commit v ob owner"
        "claimed_by doc n (rows ob) r" and ob': "ob' = ob\<lparr>rows := replace_row ?r (rows ob)\<rparr>"
      then have "table_step sha decodes ob (OpReschedule v fs owner doc n cat now) (rows ob)
          (replace_row ?r (rows ob))"
        by (intro retry valid_wall_time_nonneg)
      then show ?thesis using Inr x ob' OpReschedule by (simp add: after_def)
    qed (use Inr x OpReschedule in \<open>simp add: after_def unchanged\<close>)
  qed (simp add: OpReschedule after_def unchanged)
next
  case OpClose
  then show ?thesis by (simp add: close_outbox_def unchanged)
next
  case (OpRestart token)
  then show ?thesis by (simp add: unchanged)
qed

lemma claimed_byD: "claimed_by doc n t r \<Longrightarrow> r \<in> set t \<and> state r = Sending"
  by (simp add: claimed_by_def)

lemma least_dueD: "least_due ob now t r \<Longrightarrow> r \<in> set t \<and> state r = Pending"
  by (simp add: least_due_def due_def)

lemma table_step_table_ok:
  assumes "table_step sha decodes ob op t t'" and "table_ok t" and "op_ok op" and "settings_ok ob"
  shows "table_ok t'"
  using assms
proof cases
  case (inserted new now fs segs)
  have "row_ok (new_row ob now s)" if "s \<in> set new" for s
    using inserted(5) that assms(3) inserted(1)
    by (auto simp: list_all_iff intro!: row_ok_new valid_segment_range)
  then show ?thesis using inserted(2,6) assms(2) by (auto simp: table_ok_def list_all_iff)
next
  case (claim v owner time r fs now)
  then show ?thesis using table_okD(2) [OF assms(2)] least_dueD
    by (auto intro!: table_ok_replace row_ok_claimed assms(2))
next
  case (retry v owner time doc n r fs cat now)
  have "0 \<le> retry_delay_seconds (attempt_count r) (ob_retry_initial ob) (ob_retry_max ob)"
    using retry_delay_bounds(1) [of "ob_retry_initial ob" "ob_retry_max ob" "attempt_count r"] assms(4)
    by (simp add: settings_ok_def)
  then show ?thesis using retry table_okD(2) [OF assms(2)] claimed_byD
    by (auto intro!: table_ok_replace row_ok_rescheduled assms(2))
qed (auto intro: table_ok_recovered table_ok_delete)

lemma length_replace_row [simp]: "length (replace_row r t) = length t"
  by (simp add: replace_row_def)

lemma table_step_capacity:
  assumes "table_step sha decodes ob op t t'" and "table_ok t" and "within_capacity ob t"
  shows "within_capacity ob t'"
  using assms
proof cases
  case (inserted new now fs segs)
  then show ?thesis by (simp add: within_capacity_def fits_def queued_bytes_new)
next
  case (recovery v owner time fs now)
  have "map row_bytes (recovered time t) = map row_bytes t"
    by (simp add: recovered_def row_bytes_def)
  then show ?thesis using recovery assms(3)
    by (simp add: within_capacity_def queued_bytes_def) (simp add: recovered_def)
next
  case (claim v owner time r fs now)
  have "queued_bytes (replace_row (claimed_row time r) t) = queued_bytes t"
    using claim least_dueD by (intro queued_bytes_replace [OF assms(2)]) (auto simp: claimed_row_def)
  then show ?thesis using claim assms(3) by (simp add: within_capacity_def)
next
  case (completion v owner doc n r fs)
  then have "int (length t') \<le> int (length t)" "queued_bytes t' \<le> queued_bytes t"
    by (simp_all add: delete_row_def queued_bytes_filter)
  then show ?thesis using assms(3) unfolding within_capacity_def by linarith
next
  case (retry v owner time doc n r fs cat now)
  have "queued_bytes t' = queued_bytes t" unfolding retry(2)
    using retry claimed_byD by (intro queued_bytes_replace [OF assms(2)]) (auto simp: rescheduled_row_def)
  then show ?thesis using retry(2) assms(3) by (simp add: within_capacity_def)
qed simp

section \<open>Runs\<close>

abbreviation run_ops ::
    "sha_fun \<Rightarrow> (better_config \<Rightarrow> ustr \<Rightarrow> bool) \<Rightarrow> outbox_op list \<Rightarrow> sqlite_outbox \<Rightarrow> sqlite_outbox" where
  "run_ops sha decodes ops ob \<equiv> fold (apply_op sha decodes) ops ob"

text \<open>No operation touches the settings.\<close>

definition settings_of :: "sqlite_outbox \<Rightarrow> sqlite_outbox" where
  "settings_of ob = ob\<lparr>rows := [], ob_closed := False, ob_lock_token := 0\<rparr>"

lemma settings_of_rows [simp]: "settings_of (ob\<lparr>rows := t\<rparr>) = settings_of ob"
  by (simp add: settings_of_def)

lemma settings_of_others [simp]:
  "settings_of (ob\<lparr>ob_closed := c\<rparr>) = settings_of ob"
  "settings_of (ob\<lparr>ob_closed := c, ob_lock_token := k\<rparr>) = settings_of ob"
  by (simp_all add: settings_of_def)

lemma settings_of_eqD:
  assumes "settings_of ob = settings_of ob'"
  shows "settings_ok ob = settings_ok ob'" and "within_capacity ob = within_capacity ob'"
    and "ob_max_pending_rows ob = ob_max_pending_rows ob'"
    and "ob_max_pending_bytes ob = ob_max_pending_bytes ob'"
proof -
  have "f (settings_of ob) = f (settings_of ob')" for f :: "sqlite_outbox \<Rightarrow> 'b" using assms by simp
  from this [of ob_retry_initial] this [of ob_retry_max] show "settings_ok ob = settings_ok ob'"
    by (simp add: settings_of_def settings_ok_def)
  from assms have "ob_max_pending_rows (settings_of ob) = ob_max_pending_rows (settings_of ob')"
    "ob_max_pending_bytes (settings_of ob) = ob_max_pending_bytes (settings_of ob')" by simp_all
  then show "ob_max_pending_rows ob = ob_max_pending_rows ob'"
    "ob_max_pending_bytes ob = ob_max_pending_bytes ob'" "within_capacity ob = within_capacity ob'"
    by (simp_all add: settings_of_def within_capacity_def fun_eq_iff)
qed

lemma settings_of_apply_op [simp]:
  "settings_of (apply_op sha decodes op ob) = settings_of ob"
proof (cases op)
  case (OpAdmit fs now segs)
  obtain res ob' where a: "admit sha decodes fs now segs ob = (res, ob')" by fastforce
  from admit_result [OF a] have "settings_of ob' = settings_of ob" by (auto simp: Let_def)
  with a OpAdmit show ?thesis by simp
qed (auto simp: after_def recover_sending_gate claim_due_gate reschedule_claim_gate timed_gate_def
    complete_claim_def close_outbox_def split: sum.split option.split prod.split)

lemma outbox_ok_apply_op [keeps]:
  assumes "outbox_ok ob" and "op_ok op"
  shows "outbox_ok (apply_op sha decodes op ob)"
proof -
  have t: "table_ok (rows ob)" and s: "settings_ok ob" and c: "within_capacity ob (rows ob)"
    using assms(1) by (auto simp: outbox_ok_def)
  note step = apply_op_refines [OF t, of sha decodes op]
  from settings_of_eqD [OF settings_of_apply_op [of sha decodes op ob]]
  show ?thesis
    using table_step_table_ok [OF step t assms(2) s] table_step_capacity [OF step t c] s
    by (simp add: outbox_ok_def)
qed

text \<open>What may happen to one row in one step.\<close>

definition same_payload :: "outbox_row \<Rightarrow> outbox_row \<Rightarrow> bool" where
  "same_payload r r' \<longleftrightarrow> document_id r' = document_id r \<and>
     immutable_values r' (destination_fp r') = immutable_values r (destination_fp r) \<and>
     created_at r' = created_at r"

lemma same_payload_refl [simp]: "same_payload r r"
  by (simp add: same_payload_def)

lemma same_payload_trans: "same_payload r r' \<Longrightarrow> same_payload r' r'' \<Longrightarrow> same_payload r r''"
  by (simp add: same_payload_def)

lemma replace_row_survives:
  assumes "table_ok t" and "r0 \<in> set t" and "same_payload r0 r1" and "r \<in> set t"
  shows "\<exists>r' \<in> set (replace_row r1 t). same_payload r r'"
proof (cases "document_id r = document_id r1")
  case True
  then have "r = r0" using assms same_document by (metis same_payload_def)
  moreover have "r1 \<in> set (replace_row r1 t)" using assms(4) True by (force simp: replace_row_def)
  ultimately show ?thesis using assms(3) by blast
next
  case False
  then have "r \<in> set (replace_row r1 t)" using assms(4) by (force simp: replace_row_def)
  then show ?thesis by (auto intro: bexI [of _ r])
qed

lemma table_step_row:
  assumes "table_step sha decodes ob op t t'" and "table_ok t" and "r \<in> set t"
  shows "(\<exists>r' \<in> set t'. same_payload r r') \<or>
    (\<exists>v fs owner. op = OpComplete v fs owner (PStr (lit (document_id r))) (PInt (attempt_count r)) \<and>
       state r = Sending \<and> owned_at_commit v ob owner)"
  using assms
proof cases
  case (recovery v owner time fs now)
  let ?f = "\<lambda>r. if state r = Sending
      then r\<lparr>state := Pending, next_attempt_at := time, updated_at := time\<rparr> else r"
  have "same_payload r (?f r)" by (simp add: same_payload_def immutable_values_def)
  moreover have "?f r \<in> set t'"
    using assms(3) unfolding recovery(2) recovered_def set_map by (rule imageI)
  ultimately show ?thesis by blast
next
  case (claim v owner time r0 fs now)
  have "same_payload r0 (claimed_row time r0)"
    by (simp add: same_payload_def claimed_row_def immutable_values_def)
  with replace_row_survives [OF assms(2) _ this assms(3)] claim show ?thesis
    using least_dueD by blast
next
  case (completion v owner doc n r0 fs)
  show ?thesis
  proof (cases "r = r0")
    case True
    then show ?thesis using completion by (auto simp: claimed_by_def)
  next
    case False
    then have "document_id r \<noteq> document_id r0"
      using same_document [OF assms(2,3)] completion(4) by (auto simp: claimed_by_def)
    then have "r \<in> set t'" using completion(2) assms(3) by (simp add: delete_row_def)
    then show ?thesis by (auto intro: bexI [of _ r])
  qed
next
  case (retry v owner time doc n r0 fs cat now)
  have "same_payload r0 (rescheduled_row cat time
      (retry_delay_seconds (attempt_count r0) (ob_retry_initial ob) (ob_retry_max ob)) r0)"
    by (simp add: same_payload_def rescheduled_row_def immutable_values_def)
  with replace_row_survives [OF assms(2) _ this assms(3)] retry show ?thesis
    using claimed_byD by blast
qed (use assms(3) in \<open>auto intro: bexI [of _ r]\<close>)


lemma run_row:
  assumes "outbox_ok ob" and "list_all op_ok ops" and "r \<in> set (rows ob)"
    and "document_id r \<notin> document_id ` set (rows (run_ops sha decodes ops ob))"
  shows "\<exists>pre v fs owner r' post. ops = pre @ OpComplete v fs owner (PStr (lit (document_id r)))
      (PInt (attempt_count r')) # post \<and> r' \<in> set (rows (run_ops sha decodes pre ob)) \<and>
      same_payload r r' \<and> state r' = Sending \<and> owned_at_commit v (run_ops sha decodes pre ob) owner"
  using assms
proof (induction ops arbitrary: ob r)
  case Nil
  then show ?case by auto
next
  case (Cons op ops)
  then have ok: "table_ok (rows ob)" and ok': "outbox_ok (apply_op sha decodes op ob)"
    by (auto simp: outbox_ok_def [of ob] intro: keeps)
  from table_step_row [OF apply_op_refines [OF ok] ok Cons.prems(3), of sha decodes op]
  show ?case
  proof (elim disjE exE bexE conjE)
    fix r'
    assume r': "r' \<in> set (rows (apply_op sha decodes op ob))" "same_payload r r'"
    then have "document_id r' = document_id r" by (simp add: same_payload_def)
    with Cons.IH [OF ok' _ r'(1)] Cons.prems(2,4) obtain pre v fs owner r'' post where
      "ops = pre @ OpComplete v fs owner (PStr (lit (document_id r))) (PInt (attempt_count r'')) # post"
      "r'' \<in> set (rows (run_ops sha decodes pre (apply_op sha decodes op ob)))" "same_payload r' r''"
      "state r'' = Sending" "owned_at_commit v (run_ops sha decodes pre (apply_op sha decodes op ob)) owner"
      by auto
    then show ?thesis using same_payload_trans [OF r'(2)]
      by (intro exI [of _ "op # pre"]) auto
  next
    fix v fs owner
    assume "op = OpComplete v fs owner (PStr (lit (document_id r))) (PInt (attempt_count r))"
      "state r = Sending" "owned_at_commit v ob owner"
    then show ?thesis using Cons.prems(3) by (intro exI [of _ "[]"]) auto
  qed
qed

end
