(* ===== verification/TurnAdmission.thy ===== *)
theory TurnAdmission
  imports OutboxRuns
begin

text \<open>
  Between \<open>retention.py\<close> and \<open>outbox.py\<close>: the segments that the construction of a turn
  returns are exactly what the outbox's validation asks for.
\<close>

section \<open>Texts of records have no surrogates\<close>

lemma scalar_text_set: "scalar_text s \<longleftrightarrow> (\<forall>c \<in> set s. \<not> surrogate c)"
  by (auto simp: scalar_text_def list_ex_iff)

lemma scalar_text_subset: "set t \<subseteq> set s \<Longrightarrow> scalar_text s \<Longrightarrow> scalar_text t"
  by (auto simp: scalar_text_set)

lemma scalar_text_join: "scalar_text sep \<Longrightarrow> scalar_text (join sep xs) \<longleftrightarrow> list_all scalar_text xs"
  by (induction sep xs rule: join.induct) auto

lemma scalar_text_render_item: "scalar_text (render_item kv) \<longleftrightarrow> scalar_text (snd kv)"
  by (simp add: render_item_def surrogate_small)

lemma scalar_text_dumps_JObj: "scalar_text (dumps (JObj kvs)) \<longleftrightarrow> (\<forall>(k, v) \<in> set kvs. scalar_text (dumps v))"
  by (auto simp: dumps.simps(6) scalar_text_join surrogate_small list_all_iff scalar_text_render_item)

lemma scalar_text_dumps_JList: "scalar_text (dumps (JList xs)) \<longleftrightarrow> (\<forall>v \<in> set xs. scalar_text (dumps v))"
  by (auto simp: scalar_text_join surrogate_small list_all_iff)

lemmas scalar_json = scalar_text_dumps_JObj scalar_text_dumps_JList


section \<open>Records of a turn\<close>

lemma scalar_role_payload:
  "scalar_text (dumps (role_payload role t)) \<longleftrightarrow> scalar_text (role_name role) \<and>
     (case role_prefix role of None \<Rightarrow> True | Some p \<Rightarrow> scalar_text p) \<and>
     scalar_text (case t of None \<Rightarrow> role_content role | Some c \<Rightarrow> c)"
  by (auto simp: role_payload_def Let_def scalar_json surrogate_small split: option.splits)

lemma scalar_event:
  "scalar_text (event_content common rs) \<longleftrightarrow>
     (\<forall>(k, v) \<in> set common. scalar_text (dumps v)) \<and> (\<forall>r \<in> set rs. scalar_text (dumps r))"
  by (auto simp: event_content_def scalar_json simp del: dumps.simps(5))

lemmas scalar_event_content = scalar_event [of _ "map (\<lambda>r. role_payload r None) roles" for roles,
    unfolded set_map ball_simps scalar_role_payload option.case]

lemma event_content_nonempty: "event_content common rs \<noteq> []"
  by (simp add: event_content_def dumps.simps(6))

lemma split_records_mem:
  assumes "list_all2 role_split roles tss" and "c \<in> set (split_records common roles tss)"
  shows "\<exists>role \<in> set roles. \<exists>t. c = role_record common role t \<and> set t \<subseteq> set (role_content role)"
  using assms
proof (induction rule: list_all2_induct)
  case (Cons role roles ts tss)
  then show ?case by (auto simp: split_records_def role_split_def)
qed (simp add: split_records_def)

lemma semantic_contents_usable:
  assumes "semantic_contents common roles m lmt = Inr cs" and "in_limit lmt []" and "c \<in> set cs"
  shows "scalar_text c \<and> c \<noteq> []"
proof -
  let ?all = "event_content common (map (\<lambda>r. role_payload r None) roles)"
  from assms(1) have all: "scalar_text ?all" by (auto simp: semantic_contents_def Let_def split: if_splits)
  from semantic_contents_Inr(1) [OF assms(1,2)] show ?thesis
  proof (elim disjE exE conjE)
    assume "cs = [?all]"
    then show ?thesis using assms(3) all event_content_nonempty by simp
  next
    fix tss
    assume "list_all2 role_split roles tss" "cs = split_records common roles tss"
    with assms(3) obtain role t where r: "role \<in> set roles" "c = role_record common role t"
      "set t \<subseteq> set (role_content role)" using split_records_mem by blast
    then have "scalar_text t" using all scalar_text_subset by (auto simp: scalar_event_content)
    then show ?thesis using r all event_content_nonempty
      by (auto simp: scalar_event_content role_record_def scalar_event scalar_role_payload)
  qed
qed

section \<open>Validation of built segments\<close>

lemma valid_build_segment:
  assumes "\<And>b. hex_digest 64 (sha b)" and "i < n" and "c \<noteq> []" and "scalar_text c"
    and "int (utf8_len c) \<le> ob_segment_max_bytes ob"
  shows "valid_segment sha decodes ob (build_segment sha (sha x) n (i, c))"
  using assms
  by (simp add: valid_segment_def build_segment_def Let_def DOCUMENT_ID_PREFIX_def encode_utf8_def
      scalar_text_def utf8_len_def derive_segment_payload_hash_def)

lemma collect_candidates_distinct:
  assumes "distinct (map fst u @ map document_id segs)" and "list_all (valid_segment sha decodes ob) segs"
  shows "collect_candidates sha decodes ob u n segs = Some (u @ map (\<lambda>s. (document_id s, s)) segs, n)"
  using assms
proof (induction segs arbitrary: u)
  case (Cons s ss)
  then have "dict_get u (document_id s) = None" by (auto simp: dict_get_None_iff)
  with Cons show ?case by (simp add: dict_set_new)
qed simp

lemma map_segment_index_build:
  "map segment_index (build_segments sha cs) = [0 .. int (length cs) - 1]"
  by (rule nth_equalityI) (auto simp: build_segments_nth build_segment_def Let_def)

lemma built_segments_validate:
  assumes sha: "\<And>b. hex_digest 64 (sha b)" and "cs \<noteq> []"
    and "\<And>c. c \<in> set cs \<Longrightarrow> c \<noteq> [] \<and> scalar_text c \<and> int (utf8_len c) \<le> ob_segment_max_bytes ob"
    and "distinct (map document_id (build_segments sha cs))"
  shows "validate_candidates sha decodes ob (build_segments sha cs) = Some (build_segments sha cs, 0)"
proof -
  let ?segs = "build_segments sha cs"
  have len: "length ?segs = length cs" by simp
  have nth: "?segs ! i = build_segment sha (sha (utf8_bytes (concat cs))) (length cs) (i, cs ! i)"
    if "i < length cs" for i using that by (rule build_segments_nth)
  have mem: "\<exists>i < length cs. s = build_segment sha (sha (utf8_bytes (concat cs))) (length cs) (i, cs ! i)"
    if "s \<in> set ?segs" for s using that nth by (metis in_set_conv_nth len)
  have "valid_segment sha decodes ob s" if s: "s \<in> set ?segs" for s
  proof -
    from mem [OF s] obtain i where i: "i < length cs"
      "s = build_segment sha (sha (utf8_bytes (concat cs))) (length cs) (i, cs ! i)" by blast
    show ?thesis unfolding i(2)
      using assms(3) [OF nth_mem [OF i(1)]] by (intro valid_build_segment sha i(1)) auto
  qed
  then have valid: "list_all (valid_segment sha decodes ob) ?segs" by (simp add: list_all_iff)
  have same: "payload_schema s = PAYLOAD_SCHEMA_VERSION \<and> segment_count s = int (length cs) \<and>
      source_sha256 s = sha (utf8_bytes (concat cs))" if "s \<in> set ?segs" for s
    using mem [OF that] by (auto simp: build_segment_def Let_def)
  have "collect_candidates sha decodes ob [] 0 ?segs = Some (map (\<lambda>s. (document_id s, s)) ?segs, 0)"
    using collect_candidates_distinct [of "[]" ?segs sha decodes ob 0] assms(4) valid by simp
  moreover have "sort_key segment_index ?segs = ?segs"
    by (rule sort_key_id_if_sorted) (simp add: map_segment_index_build sorted_upto)
  moreover have "?segs \<noteq> []" using assms(2) len by (metis length_0_conv)
  moreover have "hd ?segs \<in> set ?segs" using calculation(3) by simp
  ultimately show ?thesis
    using same assms(2)
    by (auto simp: validate_candidates_def Let_def comp_def map_segment_index_build list_ex_iff)
qed

end
