(* ===== verification/Samples.thy ===== *)
theory Samples
  imports TurnAdmission
begin

text \<open>
  One concrete configuration, file system, owner and outbox, on which the properties are shown to
  apply. The digest is a stand-in of the right shape: 64 hexadecimal digits that depend on the bytes.
\<close>

section \<open>Configuration\<close>

definition sample_policy :: summary_policy where
  "sample_policy =
     \<lparr>sp_mode = lit ''delta'', sp_budget = lit ''low'', sp_refresh_after_consolidation = True,
      sp_refresh_cron = None, sp_min_refresh_interval_seconds = 3600, sp_max_tokens = 2048,
      sp_recall_max_tokens = 2048, sp_observations_max_tokens = 2048\<rparr>"

definition sample_config :: better_config where
  "sample_config =
     \<lparr>hermes_home = [lit ''h''], api_url = lit ''http://a'', api_key = None, bank_id = lit ''b'',
      single_principal = True,
      allowed_principals = [\<lparr>pr_platform = lit ''t'', pr_kind = UserId, pr_identifier = lit ''u''\<rparr>],
      recall_cfg =
        \<lparr>rc_enabled = True, rc_timeout_seconds = 2, rc_input_max_chars = 100, rc_input_max_tokens = 100,
         rc_context_max_bytes = 1000, rc_budget = None, rc_max_tokens = None, rc_types = None,
         rc_tags = None, rc_tag_mode = None, rc_prefer_observations = None, rc_min_scores = None,
         rc_include_attachments = False, rc_include_source_facts = None,
         rc_max_source_facts_tokens = None\<rparr>,
      planner_cfg =
        \<lparr>pl_mode = Off, pl_rewrite = NoRewrite, pl_timeout_seconds = 3, pl_history_max_exchanges = 4,
         pl_history_max_chars = 100, pl_query_max_chars = 100\<rparr>,
      reflect_cfg =
        \<lparr>rf_enabled = False, rf_timeout_seconds = 5, rf_input_max_chars = 100, rf_input_max_tokens = 100,
         rf_include_attachments = False, rf_output_max_bytes = 1000, rf_budget = lit ''low'',
         rf_max_tokens = 100, rf_tags = None, rf_tag_mode = None\<rparr>,
      mental_models_cfg =
        \<lparr>mm_enabled = False, mm_create_enabled = False, mm_refresh_enabled = False,
         mm_pages_enabled = False, mm_creation = sample_policy, mm_max_models = 5,
         mm_timeout_seconds = 5\<rparr>,
      retain_cfg =
        \<lparr>rt_enabled = True, rt_timeout_seconds = 5, rt_segment_max_bytes = 1000,
         rt_observation_scopes = NoScopes, rt_tags = []\<rparr>,
      multimodal_cfg =
        \<lparr>mu_enabled = False, mu_allowed_roots = [], mu_max_attachments = 1, mu_max_decoded_bytes = 10,
         mu_max_encoded_bytes = 20\<rparr>,
      missions_cfg = \<lparr>mi_retain = None, mi_observations = None\<rparr>,
      outbox_cfg =
        \<lparr>oc_path = [lit ''h'', lit ''o''], oc_max_pending_rows = 2, oc_max_pending_bytes = 4000,
         oc_busy_timeout_seconds = 1, oc_poll_interval_seconds = 1, oc_retry_initial_seconds = 1,
         oc_retry_max_seconds = 5\<rparr>,
      diagnostics_cfg =
        \<lparr>dg_enabled = False, dg_path = [lit ''h'', lit ''d''], dg_slow_threshold_seconds = 1,
         dg_max_records = 10, dg_replay_timeout_seconds = 5\<rparr>,
      evaluation_cfg =
        \<lparr>ev_enabled = False, ev_max_records = 10, ev_max_record_bytes = 1000, ev_max_age_seconds = 100\<rparr>\<rparr>"

section \<open>Files and ownership\<close>

definition sample_identity :: profile_lock_identity where
  "sample_identity = \<lparr>li_path = [lit ''h'', lit ''l''], li_device = 1, li_inode = 2\<rparr>"

definition sample_fs :: file_system where
  "sample_fs =
     \<lparr>fs_posix = True, fs_euid = 7, fs_resolve = Some,
      fs_lstat = (\<lambda>_. Some \<lparr>st_regular = True, st_device = 1, st_inode = 2, st_uid = 7, st_mode = 384\<rparr>),
      fs_open = (\<lambda>_. Some (FileId 1 2)), fs_inode = (\<lambda>_. Some (True, 7, 384))\<rparr>"

definition booted :: os_state where
  "booted = \<lparr>os_fd = Map.empty, os_flock = Map.empty, os_next_fd = 0\<rparr>"

definition sample_owner :: profile_lock_owner where
  "sample_owner = \<lparr>ow_descriptor = 0, ow_identity = sample_identity, ow_token = 3\<rparr>"

definition sample_os :: os_state where
  "sample_os =
     \<lparr>os_fd = Map.empty(0 \<mapsto> FileId 1 2), os_flock = Map.empty(FileId 1 2 \<mapsto> 0), os_next_fd = 1\<rparr>"

definition sample_view :: owner_view where
  "sample_view =
     \<lparr>ov_fs = sample_fs, ov_os = sample_os, ov_fs_commit = sample_fs, ov_os_commit = sample_os\<rparr>"

lemmas sample_lock_defs = sample_identity_def sample_fs_def booted_def sample_owner_def sample_os_def
  sample_view_def

lemma sample_acquire:
  "try_acquire_profile_lock sample_fs sample_fs sample_fs False False [lit ''h''] sample_identity 3 booted =
     ((Acquired, Some sample_owner), sample_os)"
  by (simp add: sample_lock_defs try_acquire_profile_lock_def os_open_def
      revalidate_profile_lock_identity_def require_inside_def os_fstat_def
      validate_profile_lock_status_def try_flock_exclusive_def)

section \<open>An outbox\<close>

definition hex_of :: "nat \<Rightarrow> char" where
  "hex_of n = ''0123456789abcdef'' ! (n mod 16)"

definition sample_digest :: "bytes \<Rightarrow> string" where
  "sample_digest b = replicate 63 CHR ''0'' @ [hex_of (sum_list b)]"

definition no_decoder :: "better_config \<Rightarrow> ustr \<Rightarrow> bool" where
  "no_decoder _ _ = False"

definition sample_outbox :: "outbox_row list \<Rightarrow> sqlite_outbox" where
  "sample_outbox t =
     \<lparr>ob_config = sample_config, ob_multimodal_fp = ''m'', ob_destination_fp = ''f'',
      ob_legacy_fp = ''l'', ob_hermes_home = [lit ''h''], ob_lock_identity = sample_identity,
      ob_lock_token = 3, ob_payload_schema = PAYLOAD_SCHEMA_VERSION, ob_max_pending_rows = 2,
      ob_max_pending_bytes = 4000, ob_retry_initial = 1, ob_retry_max = 5,
      ob_segment_max_bytes = 1000, ob_closed = False, rows = t\<rparr>"

definition sample_row :: "string \<Rightarrow> row_state \<Rightarrow> int \<Rightarrow> real \<Rightarrow> outbox_row" where
  "sample_row d st n at_time =
     \<lparr>document_id = d, payload_hash = d, payload_schema = PAYLOAD_SCHEMA_VERSION, source_sha256 = d,
      segment_index = 0, segment_count = 1, content = [120], destination_fp = ''f'', state = st,
      attempt_count = n, next_attempt_at = at_time, last_error_category = None, created_at = 1,
      updated_at = 1\<rparr>"

definition sample_segment :: retained_segment where
  "sample_segment = build_segment sample_digest (sample_digest [120]) 1 (0, [120])"

lemma sample_owned [simp]:
  "owned_before sample_view (sample_outbox t) sample_owner"
  "owned_at_commit sample_view (sample_outbox t) sample_owner"
  by (simp_all add: owned_before_def owned_at_commit_def owner_descriptor_def descriptor_for_def
      sample_outbox_def sample_lock_defs revalidate_profile_lock_identity_def require_inside_def
      os_fstat_def validate_profile_lock_status_def)

lemma sample_outbox_simps [simp]:
  "rows (sample_outbox t) = t" "ob_closed (sample_outbox t) = False"
  "ob_max_pending_rows (sample_outbox t) = 2" "ob_max_pending_bytes (sample_outbox t) = 4000"
  "ob_retry_initial (sample_outbox t) = 1" "ob_retry_max (sample_outbox t) = 5"
  "(sample_outbox t)\<lparr>rows := t'\<rparr> = sample_outbox t'"
  by (simp_all add: sample_outbox_def)

lemma hex_digest_sample: "hex_digest 64 (sample_digest b)"
proof -
  have "hex_of n \<in> set ''0123456789abcdef''" for n
    unfolding hex_of_def by (rule nth_mem) simp
  then show ?thesis by (simp add: hex_digest_def sample_digest_def list_all_iff)
qed

lemma build_one_segment: "build_segments sample_digest [[120]] = [sample_segment]"
  by (simp add: build_segments_def sample_segment_def utf8_bytes_def utf8_char_def)

lemma content_sample_segment [simp]: "content sample_segment = [120]"
  by (simp add: sample_segment_def build_segment_def Let_def)

lemma sample_segment_valid:
  "validate_candidates sample_digest no_decoder (sample_outbox t) [sample_segment] = Some ([sample_segment], 0)"
  using built_segments_validate [of sample_digest "[[120]]" "sample_outbox t" no_decoder]
  by (simp add: hex_digest_sample build_one_segment surrogate_def sample_outbox_def utf8_char_def)

lemma sample_row_simps [simp]:
  "document_id (sample_row d st n x) = d" "state (sample_row d st n x) = st"
  "attempt_count (sample_row d st n x) = n" "next_attempt_at (sample_row d st n x) = x"
  "created_at (sample_row d st n x) = 1" "content (sample_row d st n x) = [120]"
  "destination_matches (sample_outbox t) (sample_row d st n x)"
  by (simp_all add: sample_row_def destination_matches_def sample_outbox_def)

lemma sample_row_ok [simp]:
  "row_ok (sample_row d st n x) \<longleftrightarrow> 0 \<le> n \<and> (st = Sending \<longrightarrow> 0 < n) \<and> 0 \<le> x"
  by (auto simp: sample_row_def row_ok_def)

lemma sample_table_ok:
  "table_ok [sample_row ''a'' Pending 0 4, sample_row ''b'' Sending 2 3]"
  "table_ok []"
  by (simp_all add: table_ok_def)

lemma sample_outbox_ok: "outbox_ok (sample_outbox [sample_row ''a'' Pending 0 4, sample_row ''b'' Sending 2 3])"
  "outbox_ok (sample_outbox [])"
  by (simp_all add: outbox_ok_def settings_ok_def sample_table_ok within_capacity_def queued_bytes_def
      row_bytes_def utf8_char_def OUTBOX_ROW_ACCOUNTING_ALLOWANCE_BYTES_def)

end
