(* ===== verification/OutboxTheorems.thy ===== *)
theory OutboxTheorems
  imports Samples
begin

text \<open>
  The properties of the durable outbox (\<open>outbox.py\<close>): admission, capacity, claims,
  completions, retries, recovery, deadlines, ownership and the life of a row over whole runs. Each is
  followed by a concrete instance.
\<close>

section \<open>Admission\<close>

lemma stored_append: "stored ob t s \<Longrightarrow> stored ob (t @ t') s"
  by (auto simp: stored_def)

lemma stored_new_row: "s \<in> set new \<Longrightarrow> stored ob (t @ map (new_row ob now) new) s"
  by (auto simp: stored_def new_row_def immutable_values_def intro!: bexI [of _ "new_row ob now s"])

lemma stored_rows [simp]: "stored (ob\<lparr>rows := t'\<rparr>) t s = stored ob t s"
  by (simp add: stored_def)

lemma stored_cong:
  assumes "document_id c = document_id s"
    and "immutable_values c (segment_fingerprint ob c) = immutable_values s (segment_fingerprint ob s)"
  shows "stored ob t c \<longleftrightarrow> stored ob t s"
  using assms by (simp add: stored_def)

text \<open>
  C8. An admission is all or nothing: an accepted one leaves every requested segment in the table with
  exactly its immutable values, keeps all earlier rows and only appends; any other outcome (invalid,
  conflict, capacity, contention, local failure, wherever the database fails) leaves the outbox as it
  was.
\<close>

theorem admit_all_or_nothing:
  assumes "admit sha decodes fs now segments ob = (res, ob')"
  shows "if accepted res
    then (\<forall>s \<in> set segments. stored ob (rows ob') s) \<and> prefix (rows ob) (rows ob') \<and>
      ob' = ob\<lparr>rows := rows ob'\<rparr> \<and> ar_inserted res = int (length (rows ob') - length (rows ob))
    else ob' = ob"
  using admit_result [OF assms, unfolded Let_def]
proof (elim disjE exE conjE)
  fix cs n
  let ?new = "filter (absent (rows ob)) cs"
  assume v: "validate_candidates sha decodes ob segments = Some (cs, n)"
    and st: "\<forall>s \<in> set cs. absent (rows ob) s \<or> stored ob (rows ob) s"
    and new: "?new = []" "ob' = ob" and r: "res = \<lparr>ar_status = Duplicate, ar_inserted = 0,
      ar_duplicates = n + count_if (\<lambda>s. \<not> absent (rows ob) s) cs\<rparr>"
  have "\<forall>c \<in> set cs. stored ob (rows ob) c" using st new(1) by (auto simp: filter_empty_conv)
  then have "\<forall>s \<in> set segments. stored ob (rows ob) s"
    using validate_candidates_sound(2) [OF v] stored_cong by blast
  then show ?thesis using new(2) r by (simp add: accepted_def)
next
  fix cs n
  let ?new = "filter (absent (rows ob)) cs"
  assume v: "validate_candidates sha decodes ob segments = Some (cs, n)"
    and st: "\<forall>s \<in> set cs. absent (rows ob) s \<or> stored ob (rows ob) s"
    and ob': "ob' = ob\<lparr>rows := rows ob @ map (new_row ob now) ?new\<rparr>"
    and r: "res = \<lparr>ar_status = Admitted, ar_inserted = int (length ?new),
      ar_duplicates = n + count_if (\<lambda>s. \<not> absent (rows ob) s) cs\<rparr>"
  have "\<forall>c \<in> set cs. stored ob (rows ob') c"
    using st stored_append stored_new_row [of _ ?new ob "rows ob" now] by (auto simp: ob')
  then have "\<forall>s \<in> set segments. stored ob (rows ob') s"
    using validate_candidates_sound(2) [OF v] stored_cong by blast
  then show ?thesis using ob' r by (auto simp: accepted_def)
qed simp

lemma sample_admission:
  "admit sample_digest no_decoder [] 5 [sample_segment] (sample_outbox []) =
     (\<lparr>ar_status = Admitted, ar_inserted = 1, ar_duplicates = 0\<rparr>,
      sample_outbox [new_row (sample_outbox []) 5 sample_segment])"
  by (simp add: admit_def sample_segment_valid transaction_def admit_tx_def admit_new_def insert_rows_def
      absent_def queued_bytes_def row_bytes_def OUTBOX_ROW_ACCOUNTING_ALLOWANCE_BYTES_def
      utf8_char_def new_row_def)

theorem admit_all_or_nothing_witness:
  "stored (sample_outbox []) [new_row (sample_outbox []) 5 sample_segment] sample_segment"
  using admit_all_or_nothing [OF sample_admission] by (simp add: accepted_def)

lemma scan_existing_stored:
  assumes "table_ok t" and "\<forall>s \<in> set cs. stored ob t s"
  shows "scan_existing ob conflict k new dup cs t [] = k new (dup + int (length cs)) t []"
  using assms(2)
proof (induction cs arbitrary: dup)
  case (Cons s cs)
  then obtain r where r: "r \<in> set t" "document_id r = document_id s"
    "immutable_values r (destination_fp r) = immutable_values s (segment_fingerprint ob s)"
    by (auto simp: stored_def)
  have "find (\<lambda>r. document_id r = document_id s) t \<noteq> None"
    using r(1,2) by (auto simp: find_None_iff)
  then obtain r' where f: "find (\<lambda>r. document_id r = document_id s) t = Some r'" by blast
  have "r' = r" using find_row_Some [OF f] same_document [OF assms(1) _ r(1)] r(2) by simp
  with Cons f r(3) show ?case by (simp add: algebra_simps)
qed simp

text \<open>
  Admission is idempotent: once a turn is accepted, admitting the same segments again reports a
  duplicate and changes nothing, whatever the clock.
\<close>

theorem admit_idempotent:
  assumes "outbox_ok ob" and "0 \<le> now"
    and "admit sha decodes fs now segments ob = (res, ob')" and "accepted res"
  shows "\<exists>dup. admit sha decodes [] later segments ob' =
    (\<lparr>ar_status = Duplicate, ar_inserted = 0, ar_duplicates = dup\<rparr>, ob')"
proof -
  have t': "table_ok (rows ob')"
    using outbox_ok_apply_op [of ob "OpAdmit fs now segments" sha decodes] assms
    by (simp add: outbox_ok_def)
  from admit_result [OF assms(3), unfolded Let_def] assms(4) obtain cs n where
    v: "validate_candidates sha decodes ob segments = Some (cs, n)" and open_ob: "\<not> ob_closed ob"
    by blast
  have same: "ob' = ob\<lparr>rows := rows ob'\<rparr>" and all: "\<forall>s \<in> set segments. stored ob (rows ob') s"
    using admit_all_or_nothing [OF assms(3)] assms(4) by auto
  have "stored ob (rows ob') c" if "c \<in> set cs" for c
    using admit_result [OF assms(3), unfolded Let_def] assms(4)
  proof (elim disjE exE conjE)
    fix cs' n'
    assume "validate_candidates sha decodes ob segments = Some (cs', n')"
      "\<forall>s \<in> set cs'. absent (rows ob) s \<or> stored ob (rows ob) s"
      "filter (absent (rows ob)) cs' = []" "ob' = ob"
    then show ?thesis using that v by (auto simp: filter_empty_conv)
  next
    fix cs' n'
    assume "validate_candidates sha decodes ob segments = Some (cs', n')"
      "\<forall>s \<in> set cs'. absent (rows ob) s \<or> stored ob (rows ob) s"
      "ob' = ob\<lparr>rows := rows ob @ map (new_row ob now) (filter (absent (rows ob)) cs')\<rparr>"
    then show ?thesis
      using that v stored_append [of ob "rows ob" c]
        stored_new_row [of c "filter (absent (rows ob)) cs'" ob "rows ob" now] by auto
  qed simp
  then have "\<forall>s \<in> set cs. stored ob' (rows ob') s" using same stored_rows by metis
  from scan_existing_stored [OF t' this] have
    "admit_tx ob' later cs n (rows ob') (rows ob') [] =
       Inr (\<lparr>ar_status = Duplicate, ar_inserted = 0, ar_duplicates = n + int (length cs)\<rparr>, rows ob')"
    by (simp add: admit_tx_def admit_new_def)
  moreover have "validate_candidates sha decodes ob' segments = Some (cs, n)"
    using v same validate_candidates_rows by metis
  moreover have "\<not> ob_closed ob'" using arg_cong [OF same, of ob_closed] open_ob by simp
  ultimately show ?thesis by (simp add: admit_def transaction_def)
qed

theorem admit_idempotent_witness:
  "\<exists>dup. admit sample_digest no_decoder [] 9 [sample_segment]
      (sample_outbox [new_row (sample_outbox []) 5 sample_segment]) =
    (\<lparr>ar_status = Duplicate, ar_inserted = 0, ar_duplicates = dup\<rparr>,
     sample_outbox [new_row (sample_outbox []) 5 sample_segment])"
  by (rule admit_idempotent [OF sample_outbox_ok(2) _ sample_admission]) (simp_all add: accepted_def)

section \<open>Runs\<close>

text \<open>
  C7. Starting from a sound outbox, every sequence of admissions, recoveries, claims, completions,
  retries, closings and restarts, with any faults, owners and clocks, keeps it sound: document ids stay
  unique, every row is well formed (a sending row has at least one attempt), and the table never
  exceeds the configured rows and bytes.
\<close>

theorem outbox_run_sound:
  assumes "outbox_ok ob" and "list_all op_ok ops"
  shows "outbox_ok (run_ops sha decodes ops ob)"
  using assms by (induction ops arbitrary: ob) (auto intro: keeps)

theorem outbox_run_sound_witness:
  "outbox_ok (run_ops sample_digest no_decoder
     [OpAdmit [] 5 [sample_segment], OpClaim sample_view [] sample_owner (PFloat (Fin 6)), OpClose]
     (sample_outbox []))"
  by (rule outbox_run_sound [OF sample_outbox_ok(2)]) simp

text \<open>
  C6. No loss: over any run, an unconfirmed row leaves the table only through a completion by an owner
  whose lock still checks out at the commit, which names the row's document id and the very attempt
  under which it is sending at that moment. Until then its payload, destination and creation time
  never change.
\<close>

theorem row_leaves_only_by_completion:
  assumes "outbox_ok ob" and "list_all op_ok ops" and "r \<in> set (rows ob)"
    and "document_id r \<notin> document_id ` set (rows (run_ops sha decodes ops ob))"
  shows "\<exists>pre v fs owner r' post. ops = pre @ OpComplete v fs owner (PStr (lit (document_id r)))
      (PInt (attempt_count r')) # post \<and> r' \<in> set (rows (run_ops sha decodes pre ob)) \<and>
      same_payload r r' \<and> state r' = Sending \<and> owned_at_commit v (run_ops sha decodes pre ob) owner"
  using assms by (rule run_row)

lemma sample_completion:
  "complete_claim sample_view [] sample_owner (PStr (lit ''b'')) (PInt 2)
     (sample_outbox [sample_row ''a'' Pending 0 4, sample_row ''b'' Sending 2 3]) =
   (Applied 1, sample_outbox [sample_row ''a'' Pending 0 4])"
  by (simp add: complete_claim_def valid_claim_guard_def transaction_def complete_tx_def delete_where_def
      exact_claim_def names_row_def count_if_def lit_def)

theorem row_leaves_only_by_completion_witness:
  "\<exists>pre v fs owner (r' :: outbox_row) post.
     [OpComplete sample_view [] sample_owner (PStr (lit ''b'')) (PInt 2)] =
       pre @ OpComplete v fs owner (PStr (lit ''b'')) (PInt (attempt_count r')) # post \<and>
     state r' = Sending"
proof -
  let ?ops = "[OpComplete sample_view [] sample_owner (PStr (lit ''b'')) (PInt 2)]"
  let ?ob = "sample_outbox [sample_row ''a'' Pending 0 4, sample_row ''b'' Sending 2 3]"
  have "\<exists>pre v fs owner r' post. ?ops = pre @ OpComplete v fs owner
      (PStr (lit (document_id (sample_row ''b'' Sending 2 3)))) (PInt (attempt_count r')) # post \<and>
      r' \<in> set (rows (run_ops sample_digest no_decoder pre ?ob)) \<and>
      same_payload (sample_row ''b'' Sending 2 3) r' \<and> state r' = Sending \<and>
      owned_at_commit v (run_ops sample_digest no_decoder pre ?ob) owner"
    by (rule row_leaves_only_by_completion [OF sample_outbox_ok(1)]) (simp_all add: sample_completion)
  then show ?thesis unfolding sample_row_simps by blast
qed


section \<open>Claims\<close>

text \<open>
  C14. A claim takes the least due row in the order (next attempt, creation, source, segment, document)
  among the pending rows of this destination, returns it as it is now stored, marks it sending with one
  more attempt, and changes no other row. It is committed only while the owner's lock checks out; an
  empty or failed claim changes nothing.
\<close>

theorem claim_takes_least_due:
  assumes "claim_due v fs owner now ob = Inr (res, ob')" and "table_ok (rows ob)"
  shows "case res of
      Claimed row \<Rightarrow> \<exists>time r. valid_wall_time now = Inr (Some time) \<and> r \<in> set (rows ob) \<and>
        state r = Pending \<and> next_attempt_at r \<le> time \<and> destination_matches ob r \<and>
        (\<forall>x \<in> set (rows ob). due ob time x \<longrightarrow> claim_key r \<le> claim_key x) \<and>
        row = r\<lparr>state := Sending, attempt_count := attempt_count r + 1, updated_at := time\<rparr> \<and>
        rows ob' = map (\<lambda>x. if x = r then row else x) (rows ob) \<and> owned_at_commit v ob owner
    | EmptyClaim \<Rightarrow> ob' = ob \<and>
        (\<forall>time. valid_wall_time now = Inr (Some time) \<longrightarrow> \<not> list_ex (due ob time) (rows ob))
    | ClaimLocalFailure \<Rightarrow> ob' = ob"
  using claim_due_Inr [OF assms]
proof (elim disjE exE conjE)
  fix time r
  assume t: "valid_wall_time now = Inr (Some time)" and l: "least_due ob time (rows ob) r"
    and o: "owned_at_commit v ob owner" and res: "res = Claimed (claimed_row time r)"
    and ob': "ob' = ob\<lparr>rows := replace_row (claimed_row time r) (rows ob)\<rparr>"
  have "replace_row (claimed_row time r) (rows ob) =
      map (\<lambda>x. if x = r then claimed_row time r else x) (rows ob)"
    using l same_document [OF assms(2), of _ r] by (auto simp: replace_row_def least_due_def)
  then show ?thesis using t l o res ob' by (auto simp: least_due_def due_def claimed_row_def)
qed (auto simp: list_ex_iff filter_empty_conv)

lemma sample_claim:
  "claim_due sample_view [] sample_owner (PFloat (Fin 6))
     (sample_outbox [sample_row ''a'' Pending 0 4, sample_row ''b'' Sending 2 3]) =
   Inr (Claimed (claimed_row 6 (sample_row ''a'' Pending 0 4)),
     sample_outbox [claimed_row 6 (sample_row ''a'' Pending 0 4), sample_row ''b'' Sending 2 3])"
  by (simp add: claim_due_def valid_wall_time_def transaction_def claim_tx_def first_by_def due_def
      update_where_def count_if_def claimed_row_def)

theorem claim_takes_least_due_witness:
  "\<exists>time r. valid_wall_time (PFloat (Fin 6)) = Inr (Some time) \<and>
     r \<in> set [sample_row ''a'' Pending 0 4, sample_row ''b'' Sending 2 3] \<and> next_attempt_at r \<le> time \<and>
     claimed_row 6 (sample_row ''a'' Pending 0 4) =
       r\<lparr>state := Sending, attempt_count := attempt_count r + 1, updated_at := time\<rparr>"
proof -
  have t: "table_ok (rows (sample_outbox [sample_row ''a'' Pending 0 4, sample_row ''b'' Sending 2 3]))"
    by (simp add: sample_table_ok)
  from claim_takes_least_due [OF sample_claim t] show ?thesis
    unfolding claim_result.case sample_outbox_simps by blast
qed

text \<open>
  A claim makes progress: with a healthy database and a checked owner, an open outbox with a usable
  clock claims a row exactly when some row is due, and reports empty otherwise.
\<close>

theorem claim_progress:
  assumes "table_ok (rows ob)" and "\<not> ob_closed ob" and "owned_before v ob owner"
    and "owned_at_commit v ob owner" and "valid_wall_time now = Inr (Some time)"
  shows "if list_ex (due ob time) (rows ob)
    then \<exists>row ob'. claim_due v [] owner now ob = Inr (Claimed row, ob')
    else claim_due v [] owner now ob = Inr (EmptyClaim, ob)"
proof (cases "first_by claim_key (filter (due ob time) (rows ob))")
  case None
  then have "filter (due ob time) (rows ob) = []" by (simp add: first_by_None)
  then have "\<not> list_ex (due ob time) (rows ob)" by (auto simp: list_ex_iff filter_empty_conv)
  with None assms show ?thesis
    by (simp add: claim_due_def transaction_def claim_tx_def)
next
  case (Some r)
  from first_by_Some [OF Some] have r: "r \<in> set (rows ob)" "due ob time r" by auto
  then have "list_ex (due ob time) (rows ob)" by (auto simp: list_ex_iff)
  with Some assms claim_statement [OF assms(1) r] show ?thesis
    by (simp add: claim_due_def transaction_def claim_tx_def)
qed

theorem claim_progress_witness:
  "\<exists>row ob'. claim_due sample_view [] sample_owner (PFloat (Fin 6))
     (sample_outbox [sample_row ''a'' Pending 0 4, sample_row ''b'' Sending 2 3]) = Inr (Claimed row, ob')"
  using claim_progress [of "sample_outbox [sample_row ''a'' Pending 0 4, sample_row ''b'' Sending 2 3]"
      sample_view sample_owner "PFloat (Fin 6)" 6] sample_table_ok(1)
  by (simp add: due_def valid_wall_time_def)

section \<open>Completion, retry, recovery\<close>

text \<open>
  A completion deletes exactly the row it names, and only while that row is sending under exactly
  the attempt it names: a late completion of an attempt that was recovered or retried in the meantime
  changes nothing.
\<close>

theorem complete_is_exact:
  assumes "complete_claim v fs owner doc n ob = (res, ob')" and "table_ok (rows ob)"
  shows "if res = TransitionLocalFailure then ob' = ob
    else res = Applied 1 \<and> owned_at_commit v ob owner \<and>
      (\<exists>r \<in> set (rows ob). doc = PStr (lit (document_id r)) \<and> state r = Sending \<and>
         n = PInt (attempt_count r) \<and>
         rows ob' = filter (\<lambda>x. document_id x \<noteq> document_id r) (rows ob))"
  using complete_claim_result [OF assms] by (auto simp: claimed_by_def delete_row_def)

theorem complete_is_exact_witness:
  "rows (sample_outbox [sample_row ''a'' Pending 0 4]) =
     filter (\<lambda>x. document_id x \<noteq> ''b'') [sample_row ''a'' Pending 0 4, sample_row ''b'' Sending 2 3]"
  using complete_is_exact [OF sample_completion] sample_table_ok(1) by simp

text \<open>
  A retry returns exactly the named attempt to pending, records the category, and makes it due
  after the capped exponential delay for that attempt, which lies between the two configured delays.
\<close>

theorem reschedule_is_exact:
  assumes "reschedule_claim v fs owner doc n category completed ob = Inr (res, ob')"
    and "table_ok (rows ob)" and "settings_ok ob"
  shows "if res = TransitionLocalFailure then ob' = ob
    else res = Applied 1 \<and> owned_at_commit v ob owner \<and>
      (\<exists>r \<in> set (rows ob). \<exists>time delay. doc = PStr (lit (document_id r)) \<and> state r = Sending \<and>
         n = PInt (attempt_count r) \<and> valid_wall_time completed = Inr (Some time) \<and>
         delay = min (ob_retry_initial ob * 2 ^ nat (attempt_count r - 1)) (ob_retry_max ob) \<and>
         ob_retry_initial ob \<le> delay \<and> delay \<le> ob_retry_max ob \<and>
         rows ob' = map (\<lambda>x. if document_id x = document_id r
            then r\<lparr>state := Pending, next_attempt_at := time + delay,
                   last_error_category := Some category, updated_at := time\<rparr> else x) (rows ob))"
  using reschedule_claim_Inr [OF assms(1,2)]
proof (elim disjE exE conjE)
  fix r :: outbox_row and time
  let ?d = "retry_delay_seconds (attempt_count r) (ob_retry_initial ob) (ob_retry_max ob)"
  assume r: "claimed_by doc n (rows ob) r" "valid_wall_time completed = Inr (Some time)"
    "owned_at_commit v ob owner" "res = Applied 1"
    "ob' = ob\<lparr>rows := replace_row (rescheduled_row category time ?d r) (rows ob)\<rparr>"
  have s: "0 < ob_retry_initial ob" "ob_retry_initial ob \<le> ob_retry_max ob"
    using assms(3) by (auto simp: settings_ok_def)
  show ?thesis
    using r retry_delay_bounds [OF s, of "attempt_count r"] retry_delay_closed_form [OF s, of "attempt_count r"]
    by (auto simp: claimed_by_def rescheduled_row_def replace_row_def
        intro!: bexI [of _ r] exI [of _ time])
qed simp

lemma sample_reschedule:
  "reschedule_claim sample_view [] sample_owner (PStr (lit ''b'')) (PInt 2) RetainTimeout (PFloat (Fin 7))
     (sample_outbox [sample_row ''a'' Pending 0 4, sample_row ''b'' Sending 2 3]) =
   Inr (Applied 1, sample_outbox [sample_row ''a'' Pending 0 4,
     rescheduled_row RetainTimeout 7 2 (sample_row ''b'' Sending 2 3)])"
  by (simp add: reschedule_claim_def valid_wall_time_def valid_claim_guard_def transaction_def
      reschedule_tx_def update_where_def exact_claim_def names_row_def count_if_def lit_def Let_def
      int_value_def retry_delay_seconds_def numeral_2_eq_2 rescheduled_row_def)

theorem reschedule_is_exact_witness:
  "\<exists>r \<in> set [sample_row ''a'' Pending 0 4, sample_row ''b'' Sending 2 3]. \<exists>delay :: real.
     PStr (lit ''b'') = PStr (lit (document_id r)) \<and>
     delay = min (1 * 2 ^ nat (attempt_count r - 1)) 5 \<and> 1 \<le> delay \<and> delay \<le> 5"
proof -
  let ?ob = "sample_outbox [sample_row ''a'' Pending 0 4, sample_row ''b'' Sending 2 3]"
  have t: "table_ok (rows ?ob)" "settings_ok ?ob" by (simp_all add: sample_table_ok settings_ok_def)
  from reschedule_is_exact [OF sample_reschedule t] show ?thesis
    by (simp only: sample_outbox_simps transition_result.distinct if_False) blast
qed


text \<open>
  Recovery by an owner returns every sending row to pending, due at once, with its attempts, its
  payload and its error category kept, leaves every pending row alone, and reports how many rows it
  recovered; a recovery that fails changes nothing.
\<close>

theorem recover_clears_sending:
  assumes "recover_sending v fs owner now ob = Inr (res, ob')"
  shows "if res = TransitionLocalFailure then ob' = ob
    else owned_at_commit v ob owner \<and>
      res = Applied (count_if (\<lambda>r. state r = Sending) (rows ob)) \<and>
      \<not> list_ex (\<lambda>r. state r = Sending) (rows ob') \<and>
      (\<exists>time. valid_wall_time now = Inr (Some time) \<and>
         list_all2 (\<lambda>r r'. if state r = Pending then r' = r
            else r' = r\<lparr>state := Pending, next_attempt_at := time, updated_at := time\<rparr>)
           (rows ob) (rows ob'))"
  using recover_sending_Inr [OF assms]
proof (elim disjE exE conjE)
  fix time
  assume t: "valid_wall_time now = Inr (Some time)" "owned_at_commit v ob owner"
    "res = Applied (count_if (\<lambda>r. state r = Sending) (rows ob))"
    "ob' = ob\<lparr>rows := recovered time (rows ob)\<rparr>"
  have p: "state r = Sending \<longleftrightarrow> state r \<noteq> Pending" for r :: outbox_row by (cases "state r") auto
  have "\<not> list_ex (\<lambda>r. state r = Sending) (recovered time (rows ob))"
    by (auto simp: recovered_def list_ex_iff)
  moreover have "list_all2 (\<lambda>r r'. if state r = Pending then r' = r
      else r' = r\<lparr>state := Pending, next_attempt_at := time, updated_at := time\<rparr>)
     (rows ob) (recovered time (rows ob))"
    by (auto simp: recovered_def list_all2_map2 list_all2_same p)
  ultimately show ?thesis using t by auto
qed simp

lemma sample_recovery:
  "recover_sending sample_view [] sample_owner (PInt 8)
     (sample_outbox [sample_row ''a'' Pending 0 4, sample_row ''b'' Sending 2 3]) =
   Inr (Applied 1, sample_outbox [sample_row ''a'' Pending 0 4,
     (sample_row ''b'' Sending 2 3)\<lparr>state := Pending, next_attempt_at := 8, updated_at := 8\<rparr>])"
  by (simp add: recover_sending_def valid_wall_time_def float_of_int_def float_limit_def
      transaction_def recover_tx_def update_where_def count_if_def)

theorem recover_clears_sending_witness:
  "\<not> list_ex (\<lambda>r. state r = Sending) [sample_row ''a'' Pending 0 4,
     (sample_row ''b'' Sending 2 3)\<lparr>state := Pending, next_attempt_at := 8, updated_at := 8\<rparr>]"
  using recover_clears_sending [OF sample_recovery] by simp

text \<open>
  The retry delay of attempt n is the initial delay doubled n - 1 times and capped at the
  maximum: the loop of the code computes the closed form, never falls with the attempt number and
  stays between the two configured delays.
\<close>

theorem retry_delay_is_capped_exponential:
  assumes "0 < initial" and "initial \<le> maximum"
  shows "retry_delay_seconds n initial maximum = min (initial * 2 ^ nat (n - 1)) maximum \<and>
    initial \<le> retry_delay_seconds n initial maximum \<and> retry_delay_seconds n initial maximum \<le> maximum \<and>
    retry_delay_seconds n initial maximum \<le> retry_delay_seconds (n + 1) initial maximum"
proof -
  have "(2::real) ^ nat (n - 1) \<le> 2 ^ nat n" by (rule power_increasing) simp_all
  then have "initial * 2 ^ nat (n - 1) \<le> initial * 2 ^ nat n" using assms(1) by simp
  then show ?thesis
    using retry_delay_closed_form [OF assms] retry_delay_bounds [OF assms] by (auto simp: min_def)
qed

theorem retry_delay_is_capped_exponential_witness:
  "retry_delay_seconds 4 1 100 = min (1 * 2 ^ nat (4 - 1)) (100 :: real)"
  using retry_delay_is_capped_exponential [of 1 100 4] by simp

section \<open>Deadlines\<close>

text \<open>
  The deadline the sender sleeps on agrees with the claim: with a healthy database it is the least
  next attempt of the matching pending rows; nothing is due before it, and from it on a claim by a
  checked owner takes a row. No deadline means that no claim can ever succeed on this table.
\<close>

theorem deadline_agrees_with_claims:
  assumes "table_ok (rows ob)" and "\<not> ob_closed ob" and "owned_before v ob owner"
    and "owned_at_commit v ob owner" and "valid_wall_time now = Inr (Some time)"
  shows "\<exists>deadline. next_matching_retry_deadline [] ob = Inr deadline \<and>
    (if (case deadline of None \<Rightarrow> False | Some d \<Rightarrow> d \<le> time)
     then \<exists>row ob'. claim_due v [] owner now ob = Inr (Claimed row, ob')
     else claim_due v [] owner now ob = Inr (EmptyClaim, ob))"
proof -
  let ?ms = "filter (\<lambda>r. state r = Pending \<and> destination_matches ob r) (rows ob)"
  let ?d = "sql_min (map next_attempt_at ?ms)"
  have "next_matching_retry_deadline [] ob = Inr ?d"
    using assms(2) by (simp add: next_matching_retry_deadline_def)
  moreover have "(case ?d of None \<Rightarrow> False | Some d \<Rightarrow> d \<le> time) \<longleftrightarrow> list_ex (due ob time) (rows ob)"
  proof (cases ?d)
    case None
    then have "?ms = []" by (simp add: sql_min_None)
    with None show ?thesis by (auto simp: list_ex_iff due_def filter_empty_conv)
  next
    case (Some d)
    note m = sql_min_Some [OF Some]
    from m(1) obtain r where "r \<in> set ?ms" "next_attempt_at r = d" by auto
    moreover have "d \<le> next_attempt_at x" if "x \<in> set ?ms" for x using m(2) that by simp
    ultimately show ?thesis using Some by (force simp: list_ex_iff due_def)
  qed
  ultimately show ?thesis using claim_progress [OF assms] by simp
qed

theorem deadline_agrees_with_claims_witness:
  "\<exists>deadline. next_matching_retry_deadline []
      (sample_outbox [sample_row ''a'' Pending 0 4, sample_row ''b'' Sending 2 3]) = Inr deadline \<and>
    (if (case deadline of None \<Rightarrow> False | Some d \<Rightarrow> d \<le> 2)
     then \<exists>row ob'. claim_due sample_view [] sample_owner (PFloat (Fin 2))
        (sample_outbox [sample_row ''a'' Pending 0 4, sample_row ''b'' Sending 2 3]) = Inr (Claimed row, ob')
     else claim_due sample_view [] sample_owner (PFloat (Fin 2))
        (sample_outbox [sample_row ''a'' Pending 0 4, sample_row ''b'' Sending 2 3]) =
        Inr (EmptyClaim, sample_outbox [sample_row ''a'' Pending 0 4, sample_row ''b'' Sending 2 3]))"
  by (rule deadline_agrees_with_claims) (simp_all add: sample_table_ok valid_wall_time_def)


section \<open>Capacity\<close>

lemma validate_candidates_distinct:
  assumes "validate_candidates sha decodes ob segs = Some (cs, n)"
  shows "distinct (map document_id cs)"
proof -
  from assms obtain u where u: "collect_candidates sha decodes ob [] 0 segs = Some (u, n)"
    and cs: "cs = sort_key segment_index (map snd u)"
    by (auto simp: validate_candidates_def Let_def split: if_splits option.splits)
  from collect_candidates_sound [OF u] have "\<forall>(d, s) \<in> set u. d = document_id s" "dict_ok u" by auto
  then have "map document_id (map snd u) = map fst u" "distinct (map fst u)"
    by (auto simp: dict_ok_def)
  then have "distinct (map document_id (map snd u))" by (simp only:)
  moreover have "mset (map document_id cs) = mset (map document_id (map snd u))"
    unfolding cs mset_map mset_sort ..
  ultimately show ?thesis using mset_eq_imp_distinct_iff by blast
qed

lemma scan_existing_absent:
  "\<forall>s \<in> set cs. absent t s \<Longrightarrow> scan_existing ob conflict k new dup cs t [] = k (new @ cs) dup t []"
proof (induction cs arbitrary: new)
  case (Cons s cs)
  then have "find (\<lambda>r. document_id r = document_id s) t = None"
    by (auto simp: find_row_None absent_def)
  with Cons show ?case by simp
qed simp

text \<open>
  The capacity gate is exact: a valid turn whose segments are all new, offered to an open outbox
  on a healthy database, is admitted precisely when its rows and bytes, at 1024 bytes of overhead per
  row, still fit the configured limits; it is then stored as pending, due at once, in segment order.
\<close>

theorem admit_capacity_exact:
  assumes "validate_candidates sha decodes ob segments = Some (cs, n)" and "\<not> ob_closed ob"
    and "table_ok (rows ob)" and "\<forall>s \<in> set cs. absent (rows ob) s"
  shows "admit sha decodes [] now segments ob =
    (if int (length (rows ob)) + int (length cs) \<le> ob_max_pending_rows ob \<and>
        (\<Sum>r\<leftarrow>rows ob. int (utf8_len (content r)) + 1024) +
        (\<Sum>s\<leftarrow>cs. int (utf8_len (content s)) + 1024) \<le> ob_max_pending_bytes ob
     then (\<lparr>ar_status = Admitted, ar_inserted = int (length cs), ar_duplicates = n\<rparr>,
           ob\<lparr>rows := rows ob @ map (new_row ob now) cs\<rparr>)
     else (plain_result CapacityRefused, ob))"
proof -
  have ids: "map document_id (map (new_row ob now) cs) = map document_id cs"
    by (simp add: new_row_def)
  have "set (map document_id (rows ob)) \<inter> set (map document_id cs) = {}"
    using assms(4) by (force simp: absent_def)
  then have "distinct (map document_id (rows ob @ map (new_row ob now) cs))"
    using validate_candidates_distinct [OF assms(1)] assms(3) ids
    unfolding table_ok_def map_append distinct_append by (simp only: simp_thms)
  then have d: "distinct (map document_id (rows ob) @ map document_id (map (new_row ob now) cs))" by simp
  have q: "queued_bytes xs = (\<Sum>s\<leftarrow>xs. int (utf8_len (content s)) + 1024)"
    for xs :: "'a retained_segment_scheme list"
    by (simp add: queued_bytes_def row_bytes_def [abs_def] OUTBOX_ROW_ACCOUNTING_ALLOWANCE_BYTES_def)
  show ?thesis
    using assms(1,2) validate_candidates_sound(3) [OF assms(1)] d
    by (auto simp: admit_def transaction_def admit_tx_def scan_existing_absent [OF assms(4)]
        admit_new_def insert_rows_def q not_le simp del: map_map)
qed

theorem admit_capacity_exact_witness:
  "admit sample_digest no_decoder [] 5 [sample_segment] (sample_outbox []) =
     (\<lparr>ar_status = Admitted, ar_inserted = 1, ar_duplicates = 0\<rparr>,
      (sample_outbox [])\<lparr>rows := [new_row (sample_outbox []) 5 sample_segment]\<rparr>)"
  using admit_capacity_exact [OF sample_segment_valid, of "[]" 5]
  by (simp add: table_ok_def absent_def utf8_char_def)

section \<open>Ownership\<close>

text \<open>
  C34. Only the owner moves rows: whatever the faults and the clock, an operation of the sender changes
  nothing unless the lock of the given owner checks out both before the transaction and before its
  commit: same outbox handle, live descriptor, and a lock file that still is the private file that was
  captured when the outbox was opened.
\<close>

theorem transitions_need_ownership:
  assumes "table_ok (rows ob)" and "\<not> (owned_before v ob owner \<and> owned_at_commit v ob owner)"
  shows "apply_op sha decodes (OpRecover v fs owner now) ob = ob \<and>
    apply_op sha decodes (OpClaim v fs owner now) ob = ob \<and>
    apply_op sha decodes (OpComplete v fs owner doc n) ob = ob \<and>
    apply_op sha decodes (OpReschedule v fs owner doc n cat now) ob = ob"
proof (intro conjI)
  show "apply_op sha decodes (OpRecover v fs owner now) ob = ob"
    using recover_sending_Inr [of v fs owner now ob] assms(2)
    by (auto simp: after_def split: sum.split)
  show "apply_op sha decodes (OpClaim v fs owner now) ob = ob"
    using claim_due_Inr [OF _ assms(1), of v fs owner now] assms(2)
    by (auto simp: after_def split: sum.split)
  show "apply_op sha decodes (OpComplete v fs owner doc n) ob = ob"
    using complete_claim_result [OF _ assms(1), of v fs owner doc n] assms(2)
    by (cases "complete_claim v fs owner doc n ob") auto
  show "apply_op sha decodes (OpReschedule v fs owner doc n cat now) ob = ob"
    using reschedule_claim_Inr [OF _ assms(1), of v fs owner doc n cat now] assms(2)
    by (auto simp: after_def split: sum.split)
qed

theorem transitions_need_ownership_witness:
  "apply_op sample_digest no_decoder
     (OpClaim sample_view [] (sample_owner\<lparr>ow_token := 4\<rparr>) (PFloat (Fin 6)))
     (sample_outbox [sample_row ''a'' Pending 0 4, sample_row ''b'' Sending 2 3]) =
   sample_outbox [sample_row ''a'' Pending 0 4, sample_row ''b'' Sending 2 3]"
  by (rule transitions_need_ownership [THEN conjunct2, THEN conjunct1])
    (simp_all add: sample_table_ok owned_before_def owner_descriptor_def descriptor_for_def
      sample_owner_def sample_outbox_def)

text \<open>
  C33. The profile lock is exclusive: along any sequence of attempts, releases and status probes, two
  live owners never share a lock file, every live owner holds the lock of its file, and an attempt on
  a file whose lock a live owner holds gets no owner.
\<close>

theorem profile_lock_exclusive:
  assumes "lock_run os live" and "owner \<in> set live"
    and "try_acquire_profile_lock fs1 fs2 fs3 b c home i t os = ((st, acquired), os')"
    and "lock_ident i = lock_ident (ow_identity owner)"
  shows "acquired = None \<and> st \<noteq> Acquired \<and> holds os' owner \<and>
    (\<forall>other \<in> set live. lock_ident (ow_identity other) = lock_ident (ow_identity owner) \<longrightarrow> other = owner)"
proof -
  note inv = lock_run_invariant [OF assms(1)]
  then have ok: "os_ok os" and h: "holds os owner" using assms(2) by auto
  have "acquired = None"
  proof (cases acquired)
    case (Some new)
    with assms(3) acquired_status have
      a: "try_acquire_profile_lock fs1 fs2 fs3 b c home i t os = ((Acquired, Some new), os')" by fastforce
    then show ?thesis using try_acquire_Acquired(5) [OF a ok] h assms(4) by (simp add: holds_def)
  qed
  moreover from this assms(3) have "st \<noteq> Acquired"
    by (auto simp: try_acquire_profile_lock_def split: option.splits prod.splits flock_outcome.splits
        if_splits)
  moreover have "holds os' owner"
    using try_acquire_keeps_holders [OF ok h, of fs1 fs2 fs3 b c home i t] assms(3) by simp
  moreover have "other = owner" if "other \<in> set live"
    "lock_ident (ow_identity other) = lock_ident (ow_identity owner)" for other
    using inv that assms(2) by (auto simp: distinct_map inj_on_def)
  ultimately show ?thesis by blast
qed

lemma sample_lock_run: "lock_run sample_os [sample_owner]"
  using lock_run.acquire [OF lock_run.boot sample_acquire [unfolded booted_def]] by simp

theorem profile_lock_exclusive_witness:
  "snd (fst (try_acquire_profile_lock sample_fs sample_fs sample_fs False False [lit ''h'']
     sample_identity 4 sample_os)) = None"
proof -
  obtain st acquired os' where t: "try_acquire_profile_lock sample_fs sample_fs sample_fs False False
      [lit ''h''] sample_identity 4 sample_os = ((st, acquired), os')"
    by (metis surj_pair)
  have "acquired = None"
    using profile_lock_exclusive [OF sample_lock_run _ t, of sample_owner] by (simp add: sample_owner_def)
  with t show ?thesis by simp
qed


section \<open>From a turn to the queue\<close>

text \<open>
  What the construction of a turn returns, the outbox accepts as valid: under the same byte bound,
  with a digest of 64 hexadecimal digits that does not collide on the turn's own segments, validation
  returns the segments unchanged, in order and without repetition.
\<close>

theorem retained_turn_is_valid:
  assumes "build_retained_segments sha word eid now t = Inr segs"
    and "ti_segment_max_bytes t = PInt m" and "m \<le> ob_segment_max_bytes ob"
    and "\<And>b. hex_digest 64 (sha b)" and "distinct (map document_id segs)"
  shows "validate_candidates sha decodes ob segs = Some (segs, 0)"
proof -
  from assms(1) obtain v common cs where v: "validate_turn t = Some v"
    and cs: "semantic_contents common (turn_roles word v) (vt_max_bytes v) (vt_limit v) = Inr cs"
    and segs: "segs = build_segments sha cs" by (auto simp: build_retained_segments_Inr)
  note vb = validate_turn_bounds [OF v]
  note c = semantic_contents_Inr [OF cs vb(2)]
  have "vt_max_bytes v = m" using vb(3) assms(2) by simp
  then have "c \<noteq> [] \<and> scalar_text c \<and> int (utf8_len c) \<le> ob_segment_max_bytes ob"
    if "c \<in> set cs" for c
    using semantic_contents_usable [OF cs vb(2) that] c(3) assms(3) that
    by (auto simp: list_all_iff record_bytes_def)
  then show ?thesis
    unfolding segs using assms(5) segs by (intro built_segments_validate assms(4) c(2)) auto
qed

lemma sample_turn_single:
  "map_sum id length (build_retained_segments sample_digest ascii_word [] [] (sample_turn 1000)) = Inr 1"
  by code_simp

theorem retained_turn_is_valid_witness:
  "\<exists>segs. build_retained_segments sample_digest ascii_word [] [] (sample_turn 1000) = Inr segs \<and>
     validate_candidates sample_digest no_decoder (sample_outbox []) segs = Some (segs, 0)"
proof (cases "build_retained_segments sample_digest ascii_word [] [] (sample_turn 1000)")
  case (Inr segs)
  then have "length segs = 1" using sample_turn_single by simp
  then have "distinct (map document_id segs)" by (auto simp: length_Suc_conv)
  from retained_turn_is_valid [OF Inr _ _ hex_digest_sample this, of 1000 "sample_outbox []" no_decoder]
  show ?thesis using Inr by (simp add: sample_turn_def sample_outbox_def)
qed (use sample_turn_single in simp)

end
