(* ===== verification/Runs.thy ===== *)
theory Runs
  imports Prelude
begin

text \<open>
  Runs of a component: a list of operations applied in order, each with its result, and the interface
  of a store whose entries are filled, used and taken under a key.
\<close>

fun trace_run :: "('op \<Rightarrow> 'st \<Rightarrow> 'res \<times> 'st) \<Rightarrow> 'op list \<Rightarrow> 'st \<Rightarrow> ('op \<times> 'res) list \<times> 'st" where
  "trace_run step [] st = ([], st)"
| "trace_run step (op # ops) st =
     (case step op st of
        (result, st') \<Rightarrow>
          (case trace_run step ops st' of (events, st'') \<Rightarrow> ((op, result) # events, st'')))"

text \<open>Every operation of a run is allowed in the state it meets.\<close>

fun trace_allowed :: "('st \<Rightarrow> 'op \<Rightarrow> bool) \<Rightarrow> ('op \<Rightarrow> 'st \<Rightarrow> 'res \<times> 'st) \<Rightarrow> 'op list \<Rightarrow> 'st \<Rightarrow> bool" where
  "trace_allowed allowed step [] st = True"
| "trace_allowed allowed step (op # ops) st \<longleftrightarrow>
     allowed st op \<and> trace_allowed allowed step ops (snd (step op st))"

lemma trace_run_Cons [simp]:
  "fst (trace_run step (op # ops) st) = (op, fst (step op st)) # fst (trace_run step ops (snd (step op st)))"
  "snd (trace_run step (op # ops) st) = snd (trace_run step ops (snd (step op st)))"
  by (simp_all split: prod.splits)

lemma trace_run_append:
  "trace_run step (xs @ ys) st =
     (case trace_run step xs st of (e1, st1) \<Rightarrow>
        (case trace_run step ys st1 of (e2, st2) \<Rightarrow> (e1 @ e2, st2)))"
  by (induction xs arbitrary: st) (auto split: prod.splits)

lemma trace_allowed_append:
  "trace_allowed allowed step (xs @ ys) st \<longleftrightarrow>
     trace_allowed allowed step xs st \<and> trace_allowed allowed step ys (snd (trace_run step xs st))"
  by (induction xs arbitrary: st) (auto split: prod.splits)

lemma trace_run_ops: "map fst (fst (trace_run step ops st)) = ops"
  by (induction ops arbitrary: st) (simp_all del: trace_run.simps(2))

lemma trace_run_split:
  assumes "trace_run step ops st = (pre @ (op, r) # post, st')"
  obtains ops1 ops2 st1 st2 where "ops = ops1 @ op # ops2" "trace_run step ops1 st = (pre, st1)"
    "step op st1 = (r, st2)" "trace_run step ops2 st2 = (post, st')"
  using assms
proof (induction pre arbitrary: ops st thesis)
  case Nil
  then show ?case by (cases ops) (auto split: prod.splits intro: Nil(1) [of "[]"])
next
  case (Cons e pre)
  obtain op' ops' where ops: "ops = op' # ops'" using Cons.prems(2) by (cases ops) auto
  obtain r' st1 where s: "step op' st = (r', st1)" by force
  with Cons.prems(2) ops have t: "trace_run step ops' st1 = (pre @ (op, r) # post, st')" and e: "e = (op', r')"
    by (auto split: prod.splits)
  obtain ops1 ops2 st2 st3 where "ops' = ops1 @ op # ops2" "trace_run step ops1 st1 = (pre, st2)"
    "step op st2 = (r, st3)" "trace_run step ops2 st3 = (post, st')"
    by (rule Cons.IH [OF _ t])
  with ops s e show ?case by (intro Cons.prems(1) [of "op' # ops1" ops2 st2 st3]) auto
qed

text \<open>
  A guarded component keeps its invariant along the operations that its caller is allowed to use.
\<close>

locale guarded =
  fixes step :: "'op \<Rightarrow> 'st \<Rightarrow> 'res \<times> 'st"
    and good :: "'st \<Rightarrow> bool"
    and allowed :: "'st \<Rightarrow> 'op \<Rightarrow> bool"
  assumes good_step: "good st \<Longrightarrow> allowed st op \<Longrightarrow> step op st = (r, st') \<Longrightarrow> good st'"
begin

lemma run_good: "good st \<Longrightarrow> trace_allowed allowed step ops st \<Longrightarrow> good (snd (trace_run step ops st))"
proof (induction ops arbitrary: st)
  case (Cons op ops)
  obtain r st' where s: "step op st = (r, st')" by force
  with Cons.prems have "good st'" by (auto intro: good_step)
  with Cons s show ?case by (simp del: trace_run.simps(2))
qed simp

lemma trace_invariant:
  assumes "P [] st"
    and "\<And>evs st op r st'. P evs st \<Longrightarrow> good st \<Longrightarrow> allowed st op \<Longrightarrow> step op st = (r, st') \<Longrightarrow>
      P (evs @ [(op, r)]) st'"
    and "good st" and "trace_allowed allowed step ops st"
  shows "P (fst (trace_run step ops st)) (snd (trace_run step ops st))"
  using assms(4)
proof (induction ops rule: rev_induct)
  case (snoc op ops)
  obtain e1 st1 where r: "trace_run step ops st = (e1, st1)" by force
  obtain x st' where s: "step op st1 = (x, st')" by force
  from snoc.prems r have a: "trace_allowed allowed step ops st" "allowed st1 op"
    by (auto simp: trace_allowed_append)
  have "good st1" using run_good [OF assms(3) a(1)] r by simp
  with assms(2) [OF _ _ a(2) s] snoc.IH [OF a(1)] r have "P (e1 @ [(op, x)]) st'" by simp
  with r s show ?case by (simp add: trace_run_append)
qed (simp add: assms(1))

end

text \<open>
  A store of entries under keys: an entry appears only by an operation that fills it, is used only
  while it is there and is gone once taken.
\<close>

locale keyed_store = guarded step good allowed
  for step :: "'op \<Rightarrow> 'st \<Rightarrow> 'res \<times> 'st" and good :: "'st \<Rightarrow> bool" and allowed :: "'st \<Rightarrow> 'op \<Rightarrow> bool" +
  fixes held :: "'st \<Rightarrow> 'key \<Rightarrow> bool"
    and fills :: "'key \<Rightarrow> 'op \<times> 'res \<Rightarrow> bool"
    and uses :: "'key \<Rightarrow> 'op \<times> 'res \<Rightarrow> bool"
    and takes :: "'key \<Rightarrow> 'op \<times> 'res \<Rightarrow> bool"
  assumes stays_empty: "good st \<Longrightarrow> step op st = (r, st') \<Longrightarrow> \<not> held st k \<Longrightarrow> \<not> fills k (op, r) \<Longrightarrow> \<not> held st' k"
    and uses_held: "good st \<Longrightarrow> step op st = (r, st') \<Longrightarrow> uses k (op, r) \<Longrightarrow> held st k"
    and takes_empties: "good st \<Longrightarrow> step op st = (r, st') \<Longrightarrow> takes k (op, r) \<Longrightarrow> \<not> held st' k"
begin

lemma unused_while_empty:
  assumes "good st" and "trace_allowed allowed step ops st" and "\<not> held st k"
    and "\<not> list_ex (fills k) (fst (trace_run step ops st))"
  shows "\<not> list_ex (uses k) (fst (trace_run step ops st))"
  using assms
proof (induction ops arbitrary: st)
  case (Cons op ops)
  obtain r st' where s: "step op st = (r, st')" by force
  from Cons.prems s have "good st'" by (auto intro: good_step)
  moreover from Cons.prems s have "\<not> held st' k"
    using stays_empty [OF Cons.prems(1) s] by (auto simp del: trace_run.simps(2))
  ultimately have "\<not> list_ex (uses k) (fst (trace_run step ops st'))"
    using Cons.prems s by (intro Cons.IH) (auto simp del: trace_run.simps(2))
  with s Cons.prems uses_held [OF Cons.prems(1) s] show ?case by (auto simp del: trace_run.simps(2))
qed simp

lemma taken_once:
  assumes "good st" and "allowed st op" and "step op st = (r, st')" and "takes k (op, r)"
    and "trace_allowed allowed step ops st'" and "\<not> list_ex (fills k) (fst (trace_run step ops st'))"
  shows "\<not> list_ex (uses k) (fst (trace_run step ops st'))"
  using unused_while_empty [OF good_step [OF assms(1-3)] assms(5) takes_empties [OF assms(1,3,4)] assms(6)] .

end

end
