(* ===== verification/Sender.thy ===== *)
theory Sender
  imports OutboxRuns Runs
begin

text \<open>
  \<open>OutboxSender\<close> of \<open>runtime.py\<close>: the one thread that wins the profile lock, recovers stale
  rows, claims one due row at a time, delivers it and completes or reschedules the claim.

  The thread is a state machine. \<open>sender_pc\<close> names the point of the code it is about to execute;
  one step executes up to the next point at which another thread may interfere: a read of the stop
  flag, a change of the wake flag, one atomic operation of the outbox, the wait for the network call.
  What the environment decides in a step (clocks, views of the file system, faults, the outcome of the
  call) is the record \<open>sender_env\<close>. Log events are not modelled.
\<close>

section \<open>State\<close>

text \<open>How \<open>runner.run\<close> of the retain call ends.\<close>

datatype delivery =
    Confirmed
  | NotConfirmed
  | RunnerUnsettled
  | CallTimedOut
  | ClientFailed
  | CallCancelled
  | CallRaised

datatype sender_pc =
    Electing
  | Acquiring
  | BackoffClear
  | BackoffCheck
  | BackoffSleep
  | Recovering profile_lock_owner
  | OwnTop profile_lock_owner
  | OwnClear profile_lock_owner
  | OwnCheck profile_lock_owner
  | OwnSettle profile_lock_owner
  | SettleWait profile_lock_owner
  | ClaimCheck profile_lock_owner
  | Claiming profile_lock_owner
  | Idle profile_lock_owner
  | OwnSleep profile_lock_owner
  | Delivering profile_lock_owner outbox_row
  | DrainWait profile_lock_owner outbox_row failure_category
  | Completing profile_lock_owner outbox_row
  | Rescheduling profile_lock_owner outbox_row failure_category
  | Releasing profile_lock_owner bool
  | Unwinding profile_lock_owner
  | Finished
  | Crashed

text \<open>The thread is no longer alive.\<close>

definition ended :: "sender_pc \<Rightarrow> bool" where
  "ended pc \<longleftrightarrow> pc = Finished \<or> pc = Crashed"

record sender =
  sn_pc :: sender_pc
  sn_stop :: bool
  sn_wake :: bool

definition new_sender :: sender where
  "new_sender = \<lparr>sn_pc = Electing, sn_stop = False, sn_wake = True\<rparr>"

record sender_env =
  se_fs_open :: file_system
  se_fs_check :: file_system
  se_fs_recheck :: file_system
  se_flock_broken :: bool
  se_settled :: bool
  se_view :: owner_view
  se_faults :: faults
  se_now :: py
  se_outcome :: delivery

record retain_request =
  rq_content :: ustr
  rq_document_id :: string
  rq_payload_schema :: string
  rq_source_sha256 :: string
  rq_segment_index :: int
  rq_segment_count :: int
  rq_timestamp :: "ustr option"

text \<open>
  \<open>timestamp_of\<close> is \<open>retained_event_timestamp\<close>, which reads the occurrence time back from the
  stored JSON text.
\<close>

definition retain_request_of :: "(ustr \<Rightarrow> ustr option) \<Rightarrow> outbox_row \<Rightarrow> retain_request" where
  "retain_request_of timestamp_of row =
     \<lparr>rq_content = content row, rq_document_id = document_id row, rq_payload_schema = payload_schema row,
      rq_source_sha256 = source_sha256 row, rq_segment_index = segment_index row,
      rq_segment_count = segment_count row, rq_timestamp = timestamp_of (content row)\<rparr>"

type_synonym sent = "retain_request \<times> delivery"

section \<open>Signals\<close>

definition wake :: "sender \<Rightarrow> sender" where
  "wake s = s\<lparr>sn_wake := True\<rparr>"

definition request_stop :: "sender \<Rightarrow> sender" where
  "request_stop s = s\<lparr>sn_stop := True, sn_wake := True\<rparr>"

section \<open>One step of the thread\<close>

definition after_delivery :: "profile_lock_owner \<Rightarrow> outbox_row \<Rightarrow> delivery \<Rightarrow> sender_pc" where
  "after_delivery owner row outcome =
     (case outcome of
        Confirmed \<Rightarrow> Completing owner row
      | NotConfirmed \<Rightarrow> Rescheduling owner row RetainUnconfirmed
      | RunnerUnsettled \<Rightarrow> DrainWait owner row RetainFailed
      | CallTimedOut \<Rightarrow> DrainWait owner row RetainTimeout
      | ClientFailed \<Rightarrow> Rescheduling owner row RetainFailed
      | CallCancelled \<Rightarrow> Rescheduling owner row RetainFailed
      | CallRaised \<Rightarrow> Rescheduling owner row RetainFailed)"

definition after_transition :: "profile_lock_owner \<Rightarrow> transition_result \<Rightarrow> sender_pc" where
  "after_transition owner result =
     (case result of Applied _ \<Rightarrow> OwnTop owner | TransitionLocalFailure \<Rightarrow> Releasing owner True)"

definition after_claim :: "profile_lock_owner \<Rightarrow> claim_result \<Rightarrow> sender_pc" where
  "after_claim owner result =
     (case result of
        Claimed row \<Rightarrow> Delivering owner row
      | EmptyClaim \<Rightarrow> Idle owner
      | ClaimLocalFailure \<Rightarrow> Releasing owner True)"

type_synonym sender_effect = "sent list \<times> sender_pc \<times> bool \<times> sqlite_outbox \<times> os_state"

text \<open>The effect of a step: what was sent, the next point, the wake flag, the outbox and the locks.\<close>

fun pc_step ::
    "(ustr \<Rightarrow> ustr option) \<Rightarrow> sender_env \<Rightarrow> bool \<Rightarrow> sender_pc \<Rightarrow> bool \<Rightarrow> sqlite_outbox \<Rightarrow> os_state \<Rightarrow> sender_effect"
where
  "pc_step ts e stop Electing w ob os = ([], if stop then Finished else Acquiring, w, ob, os)"
| "pc_step ts e stop Acquiring w ob os =
     (case try_acquire_profile_lock (se_fs_open e) (se_fs_check e) (se_fs_recheck e) (se_flock_broken e)
             (ob_closed ob) (ob_hermes_home ob) (ob_lock_identity ob) (ob_lock_token ob) os of
        ((Acquired, Some owner), os') \<Rightarrow> ([], Recovering owner, w, ob, os')
      | (_, os') \<Rightarrow> ([], BackoffClear, w, ob, os'))"
| "pc_step ts e stop BackoffClear w ob os = ([], BackoffCheck, False, ob, os)"
| "pc_step ts e stop BackoffCheck w ob os = ([], if stop then Electing else BackoffSleep, w, ob, os)"
| "pc_step ts e stop BackoffSleep w ob os = ([], Electing, w, ob, os)"
| "pc_step ts e stop (Recovering owner) w ob os =
     (case recover_sending (se_view e) (se_faults e) owner (se_now e) ob of
        Inl _ \<Rightarrow> ([], Unwinding owner, w, ob, os)
      | Inr (result, ob') \<Rightarrow> ([], after_transition owner result, w, ob', os))"
| "pc_step ts e stop (OwnTop owner) w ob os =
     ([], if stop then Releasing owner False else OwnClear owner, w, ob, os)"
| "pc_step ts e stop (OwnClear owner) w ob os = ([], OwnCheck owner, False, ob, os)"
| "pc_step ts e stop (OwnCheck owner) w ob os =
     ([], if stop then Releasing owner False else OwnSettle owner, w, ob, os)"
| "pc_step ts e stop (OwnSettle owner) w ob os =
     ([], if se_settled e then ClaimCheck owner else SettleWait owner, w, ob, os)"
| "pc_step ts e stop (SettleWait owner) w ob os =
     ([], if se_settled e then OwnTop owner else if stop then Releasing owner False else SettleWait owner,
      w, ob, os)"
| "pc_step ts e stop (ClaimCheck owner) w ob os =
     ([], if stop then Releasing owner False else Claiming owner, w, ob, os)"
| "pc_step ts e stop (Claiming owner) w ob os =
     (case claim_due (se_view e) (se_faults e) owner (se_now e) ob of
        Inl _ \<Rightarrow> ([], Unwinding owner, w, ob, os)
      | Inr (result, ob') \<Rightarrow> ([], after_claim owner result, w, ob', os))"
| "pc_step ts e stop (Idle owner) w ob os =
     (case next_matching_retry_deadline (se_faults e) ob of
        Inl _ \<Rightarrow> ([], Releasing owner True, w, ob, os)
      | Inr _ \<Rightarrow> ([], OwnSleep owner, w, ob, os))"
| "pc_step ts e stop (OwnSleep owner) w ob os = ([], OwnTop owner, w, ob, os)"
| "pc_step ts e stop (Delivering owner row) w ob os =
     ([(retain_request_of ts row, se_outcome e)], after_delivery owner row (se_outcome e), w, ob, os)"
| "pc_step ts e stop (DrainWait owner row category) w ob os =
     ([], if se_settled e then Rescheduling owner row category else DrainWait owner row category, w, ob, os)"
| "pc_step ts e stop (Completing owner row) w ob os =
     (case complete_claim (se_view e) (se_faults e) owner (PStr (lit (document_id row)))
             (PInt (attempt_count row)) ob of
        (result, ob') \<Rightarrow> ([], after_transition owner result, w, ob', os))"
| "pc_step ts e stop (Rescheduling owner row category) w ob os =
     (case reschedule_claim (se_view e) (se_faults e) owner (PStr (lit (document_id row)))
             (PInt (attempt_count row)) category (se_now e) ob of
        Inl _ \<Rightarrow> ([], Unwinding owner, w, ob, os)
      | Inr (result, ob') \<Rightarrow> ([], after_transition owner result, w, ob', os))"
| "pc_step ts e stop (Releasing owner lost) w ob os =
     ([], if lost then BackoffClear else Electing, w, ob, snd (release_owner owner os))"
| "pc_step ts e stop (Unwinding owner) w ob os = ([], Crashed, w, ob, snd (release_owner owner os))"
| "pc_step ts e stop Finished w ob os = ([], Finished, w, ob, os)"
| "pc_step ts e stop Crashed w ob os = ([], Crashed, w, ob, os)"

text \<open>
  The sleep of an idle owner: until the poll interval or the earliest retry deadline, whichever is first,
  and never less than zero.
\<close>

definition idle_timeout :: "real \<Rightarrow> real option \<Rightarrow> real \<Rightarrow> real" where
  "idle_timeout poll_interval deadline now =
     (case deadline of None \<Rightarrow> poll_interval | Some d \<Rightarrow> min poll_interval (max 0 (d - now)))"

section \<open>The process\<close>

text \<open>
  The outbox and the locks are shared: the provider's threads admit turns and signal the sender, and
  other processes change the locks.
\<close>

record world =
  wd_sender :: sender
  wd_outbox :: sqlite_outbox
  wd_os :: os_state

datatype world_op =
    SenderStep sender_env
  | AdmitTurn faults real "retained_segment list"
  | WakeSender
  | StopSender
  | OtherLocks os_state

definition world_step ::
    "sha_fun \<Rightarrow> (better_config \<Rightarrow> ustr \<Rightarrow> bool) \<Rightarrow> (ustr \<Rightarrow> ustr option) \<Rightarrow> world_op \<Rightarrow> world \<Rightarrow> sent list \<times> world"
where
  "world_step sha decodes ts op wd =
     (case op of
        SenderStep e \<Rightarrow>
          (case pc_step ts e (sn_stop (wd_sender wd)) (sn_pc (wd_sender wd)) (sn_wake (wd_sender wd))
                  (wd_outbox wd) (wd_os wd) of
             (events, pc, w, ob, os) \<Rightarrow>
               (events, wd\<lparr>wd_sender := (wd_sender wd)\<lparr>sn_pc := pc, sn_wake := w\<rparr>,
                           wd_outbox := ob, wd_os := os\<rparr>))
      | AdmitTurn fs now segments \<Rightarrow>
          ([], wd\<lparr>wd_outbox := snd (admit sha decodes fs now segments (wd_outbox wd))\<rparr>)
      | WakeSender \<Rightarrow> ([], wd\<lparr>wd_sender := wake (wd_sender wd)\<rparr>)
      | StopSender \<Rightarrow> ([], wd\<lparr>wd_sender := request_stop (wd_sender wd)\<rparr>)
      | OtherLocks os \<Rightarrow> ([], wd\<lparr>wd_os := os\<rparr>))"

definition world_run ::
    "sha_fun \<Rightarrow> (better_config \<Rightarrow> ustr \<Rightarrow> bool) \<Rightarrow> (ustr \<Rightarrow> ustr option) \<Rightarrow> world_op list \<Rightarrow> world
     \<Rightarrow> (world_op \<times> sent list) list \<times> world" where
  "world_run sha decodes ts = trace_run (world_step sha decodes ts)"

definition sends :: "(world_op \<times> sent list) list \<Rightarrow> sent list" where
  "sends trace = concat (map snd trace)"

end
