(* ===== verification/SenderTheorems.thy ===== *)
theory SenderTheorems
  imports Sender Samples
begin

text \<open>
  What the sender guarantees over every interleaving with admissions, signals and other processes'
  locks: at-least-once delivery, a bounded stop, and progress while the environment is healthy.
\<close>

section \<open>The effect of a step on the outbox\<close>

definition carried_row :: "sender_pc \<Rightarrow> outbox_row option" where
  "carried_row pc =
     (case pc of
        Delivering _ row \<Rightarrow> Some row
      | DrainWait _ row _ \<Rightarrow> Some row
      | Completing _ row \<Rightarrow> Some row
      | Rescheduling _ row _ \<Rightarrow> Some row
      | _ \<Rightarrow> None)"

definition completes :: "outbox_op \<Rightarrow> bool" where
  "completes op \<longleftrightarrow> (case op of OpComplete _ _ _ _ _ \<Rightarrow> True | _ \<Rightarrow> False)"

text \<open>Every step of the thread is one operation of the durable outbox, or none.\<close>

lemma pc_step_outbox:
  assumes "pc_step ts e stop pc w ob os = (events, pc', w', ob', os')"
  obtains "ob' = ob"
  | op where "ob' = apply_op sha decodes op ob" "op_ok op" "\<not> completes op"
  | owner row where "pc = Completing owner row" "carried_row pc' = None"
      "ob' = apply_op sha decodes (OpComplete (se_view e) (se_faults e) owner
         (PStr (lit (document_id row))) (PInt (attempt_count row))) ob"
proof (cases pc)
  case (Recovering owner)
  let ?op = "OpRecover (se_view e) (se_faults e) owner (se_now e)"
  have "ob' = apply_op sha decodes ?op ob"
    using assms Recovering by (auto simp: after_def split: sum.splits prod.splits)
  then show ?thesis by (rule that(2)) (simp_all add: completes_def)
next
  case (Claiming owner)
  let ?op = "OpClaim (se_view e) (se_faults e) owner (se_now e)"
  have "ob' = apply_op sha decodes ?op ob"
    using assms Claiming by (auto simp: after_def split: sum.splits prod.splits)
  then show ?thesis by (rule that(2)) (simp_all add: completes_def)
next
  case (Completing owner row)
  have "carried_row pc' = None"
    using assms Completing
    by (auto simp: after_transition_def carried_row_def split: prod.splits transition_result.splits)
  with assms Completing that(3) show ?thesis by (auto split: prod.splits)
next
  case (Rescheduling owner row category)
  let ?op = "OpReschedule (se_view e) (se_faults e) owner (PStr (lit (document_id row)))
     (PInt (attempt_count row)) category (se_now e)"
  have "ob' = apply_op sha decodes ?op ob"
    using assms Rescheduling by (auto simp: after_def split: sum.splits prod.splits)
  then show ?thesis by (rule that(2)) (simp_all add: completes_def)
next
  case Acquiring
  with assms that(1) show ?thesis by (auto split: prod.splits profile_lock_status.splits option.splits)
next
  case (Idle owner)
  with assms that(1) show ?thesis by (auto split: sum.splits)
qed (use assms that(1) in auto)

lemma request_same_payload: "same_payload r r' \<Longrightarrow> retain_request_of ts r' = retain_request_of ts r"
  by (simp add: same_payload_def immutable_values_def retain_request_of_def)

lemma same_payload_sym: "same_payload r r' \<Longrightarrow> same_payload r' r"
  by (simp add: same_payload_def)

lemma kept_row:
  assumes "outbox_ok ob" and "\<not> completes op" and "r \<in> set (rows ob)"
  shows "\<exists>r' \<in> set (rows (apply_op sha decodes op ob)). same_payload r r'"
proof -
  have t: "table_ok (rows ob)" using assms(1) by (simp add: outbox_ok_def)
  show ?thesis
    using table_step_row [OF apply_op_refines [OF t] t assms(3), of sha decodes op] assms(2)
    by (auto simp: completes_def)
qed

text \<open>A row that the thread carries came from its claim, and the table still holds it.\<close>

lemma carried_row_step:
  assumes "pc_step ts e stop pc w ob os = (events, pc', w', ob', os')" and "carried_row pc' = Some row"
    and "table_ok (rows ob)"
  shows "carried_row pc = Some row \<or> row \<in> set (rows ob')"
proof (cases pc)
  case (Claiming owner)
  then obtain result where c: "claim_due (se_view e) (se_faults e) owner (se_now e) ob = Inr (result, ob')"
    "pc' = after_claim owner result"
    using assms(1,2) by (auto simp: carried_row_def split: sum.splits prod.splits)
  then have "result = Claimed row"
    using assms(2) by (auto simp: after_claim_def carried_row_def split: claim_result.splits)
  with claim_due_Inr [OF c(1) assms(3)] show ?thesis
    by (auto simp: replace_row_def least_due_def image_iff intro!: bexI)
next
  case (Completing owner r)
  with assms show ?thesis
    by (auto simp: after_transition_def carried_row_def split: prod.splits transition_result.splits)
next
  case (Rescheduling owner r category)
  with assms show ?thesis
    by (auto simp: after_transition_def carried_row_def split: sum.splits prod.splits transition_result.splits)
next
  case (Recovering owner)
  with assms show ?thesis
    by (auto simp: after_transition_def carried_row_def split: sum.splits prod.splits transition_result.splits)
next
  case Acquiring
  with assms show ?thesis
    by (auto simp: carried_row_def split: prod.splits profile_lock_status.splits option.splits)
next
  case (Idle owner)
  with assms show ?thesis by (auto simp: carried_row_def split: sum.splits)
next
  case (Delivering owner r)
  with assms show ?thesis by (auto simp: carried_row_def after_delivery_def split: delivery.splits)
next
  case (DrainWait owner r category)
  with assms show ?thesis by (auto simp: carried_row_def split: if_splits)
qed (use assms in \<open>auto simp: carried_row_def split: if_splits\<close>)

section \<open>At-least-once delivery\<close>

definition world_allowed :: "world \<Rightarrow> world_op \<Rightarrow> bool" where
  "world_allowed wd op = (case op of AdmitTurn fs now segments \<Rightarrow> 0 \<le> now | _ \<Rightarrow> True)"

definition world_ok :: "world \<Rightarrow> bool" where
  "world_ok wd \<longleftrightarrow> outbox_ok (wd_outbox wd) \<and>
     (case carried_row (sn_pc (wd_sender wd)) of
        None \<Rightarrow> True
      | Some row \<Rightarrow> \<exists>r \<in> set (rows (wd_outbox wd)). same_payload row r)"

lemma world_ok_cong:
  assumes "wd_outbox wd' = wd_outbox wd" and "sn_pc (wd_sender wd') = sn_pc (wd_sender wd)"
  shows "world_ok wd' = world_ok wd"
  unfolding world_ok_def assms ..

text \<open>What a step keeps of a row: it stays, or the thread completes the row it carries.\<close>

lemma world_step_cases:
  assumes "world_ok wd" and "world_allowed wd op" and "world_step sha decodes ts op wd = (events, wd')"
  shows "world_ok wd' \<and>
    (\<forall>r \<in> set (rows (wd_outbox wd)).
       (\<exists>r' \<in> set (rows (wd_outbox wd')). same_payload r r') \<or>
       (\<exists>owner row. sn_pc (wd_sender wd) = Completing owner row \<and> same_payload r row))"
proof -
  have ok: "outbox_ok (wd_outbox wd)" and t: "table_ok (rows (wd_outbox wd))"
    using assms(1) by (auto simp: world_ok_def outbox_ok_def)
  have refl: "\<exists>r' \<in> set (rows (wd_outbox wd)). same_payload r r'" if "r \<in> set (rows (wd_outbox wd))" for r
    using that by (auto intro: bexI [of _ r])
  have carry: "\<exists>r' \<in> set t'. same_payload row r'"
    if "\<exists>r \<in> set (rows (wd_outbox wd)). same_payload row r"
      "\<And>r. r \<in> set (rows (wd_outbox wd)) \<Longrightarrow> \<exists>r' \<in> set t'. same_payload r r'" for row t'
    using that by (meson same_payload_trans)
  show ?thesis
  proof (cases op)
    case (SenderStep e)
    obtain pc' w' ob' os' where step: "pc_step ts e (sn_stop (wd_sender wd)) (sn_pc (wd_sender wd))
        (sn_wake (wd_sender wd)) (wd_outbox wd) (wd_os wd) = (events, pc', w', ob', os')"
      and wd': "sn_pc (wd_sender wd') = pc'" "wd_outbox wd' = ob'"
      using assms(3) SenderStep by (auto simp: world_step_def split: prod.splits)
    note carried = carried_row_step [OF step _ t]
    from step show ?thesis
    proof (cases rule: pc_step_outbox [where sha = sha and decodes = decodes])
      case 1
      then show ?thesis using assms(1) ok refl wd' carried
        by (fastforce simp: world_ok_def split: option.splits)
    next
      case (2 op')
      have ok': "outbox_ok ob'" unfolding 2(1) using ok 2(2) by (rule outbox_ok_apply_op)
      have keep: "\<exists>r' \<in> set (rows ob'). same_payload r r'" if "r \<in> set (rows (wd_outbox wd))" for r
        unfolding 2(1) using ok 2(3) that by (rule kept_row)
      have "case carried_row pc' of None \<Rightarrow> True | Some row \<Rightarrow> \<exists>r \<in> set (rows ob'). same_payload row r"
      proof (cases "carried_row pc'")
        case (Some row)
        from carried [OF Some] show ?thesis
        proof
          assume "carried_row (sn_pc (wd_sender wd)) = Some row"
          then have "\<exists>r \<in> set (rows (wd_outbox wd)). same_payload row r"
            using assms(1) by (simp add: world_ok_def)
          with Some show ?thesis using carry keep by simp
        qed (use Some in \<open>auto intro: bexI [of _ row]\<close>)
      qed simp
      with ok' keep show ?thesis unfolding world_ok_def wd' by blast
    next
      case (3 owner row)
      let ?op = "OpComplete (se_view e) (se_faults e) owner (PStr (lit (document_id row))) (PInt (attempt_count row))"
      have ok': "outbox_ok ob'" unfolding 3(3) using ok by (rule outbox_ok_apply_op) simp
      have "(\<exists>r' \<in> set (rows ob'). same_payload r r') \<or> same_payload r row" if r: "r \<in> set (rows (wd_outbox wd))" for r
        using table_step_row [OF apply_op_refines [OF t] t r, of sha decodes ?op]
      proof (elim disjE exE conjE)
        fix v fs owner'
        assume "?op = OpComplete v fs owner' (PStr (lit (document_id r))) (PInt (attempt_count r))"
        then have d: "document_id r = document_id row" by (simp add: lit_inject)
        from assms(1) 3(1) obtain r0 where r0: "r0 \<in> set (rows (wd_outbox wd))" "same_payload row r0"
          by (auto simp: world_ok_def carried_row_def)
        with d have "r = r0" using same_document [OF t r r0(1)] by (simp add: same_payload_def)
        with r0 show ?thesis using same_payload_sym by blast
      qed (simp add: 3(3))
      with ok' 3 wd' show ?thesis by (auto simp: world_ok_def)
    qed
  next
    case (AdmitTurn fs now segments)
    have wd': "wd_outbox wd' = apply_op sha decodes (OpAdmit fs now segments) (wd_outbox wd)"
      "wd_sender wd' = wd_sender wd"
      using assms(3) AdmitTurn by (auto simp: world_step_def)
    have ok': "outbox_ok (wd_outbox wd')"
      unfolding wd' using ok by (rule outbox_ok_apply_op) (use assms(2) AdmitTurn in \<open>simp add: world_allowed_def\<close>)
    have keep: "\<exists>r' \<in> set (rows (wd_outbox wd')). same_payload r r'" if "r \<in> set (rows (wd_outbox wd))" for r
      unfolding wd' using ok _ that by (rule kept_row) (simp add: completes_def)
    with ok' wd' assms(1) carry show ?thesis by (auto simp: world_ok_def split: option.splits)
  next
    case WakeSender
    with assms(3) have wd': "wd' = wd\<lparr>wd_sender := wake (wd_sender wd)\<rparr>" by (simp add: world_step_def)
    have "world_ok wd'" using assms(1) by (subst world_ok_cong [of _ wd]) (simp_all add: wd' wake_def)
    with refl show ?thesis by (simp add: wd')
  next
    case StopSender
    with assms(3) have wd': "wd' = wd\<lparr>wd_sender := request_stop (wd_sender wd)\<rparr>" by (simp add: world_step_def)
    have "world_ok wd'" using assms(1) by (subst world_ok_cong [of _ wd]) (simp_all add: wd' request_stop_def)
    with refl show ?thesis by (simp add: wd')
  next
    case (OtherLocks os)
    with assms(3) have wd': "wd' = wd\<lparr>wd_os := os\<rparr>" by (simp add: world_step_def)
    have "world_ok wd'" using assms(1) by (subst world_ok_cong [of _ wd]) (simp_all add: wd')
    with refl show ?thesis by (simp add: wd')
  qed
qed

interpretation process: guarded "world_step sha decodes ts" world_ok world_allowed
  for sha decodes ts
  by unfold_locales (use world_step_cases in blast)


lemma sends_append [simp]: "sends (xs @ ys) = sends xs @ sends ys"
  by (simp add: sends_def)

lemma sends_single [simp]: "sends [(op, events)] = events"
  by (simp add: sends_def)

lemma sends_Nil [simp]: "sends [] = []"
  by (simp add: sends_def)

text \<open>The thread is about to complete a row only after the confirmed send of its request.\<close>

lemma pc_step_completing:
  assumes "pc_step ts e stop pc w ob os = (events, Completing owner row, w', ob', os')"
  shows "(retain_request_of ts row, Confirmed) \<in> set events"
proof (cases pc)
  case (Delivering o' r)
  with assms show ?thesis by (auto simp: after_delivery_def split: delivery.splits)
qed (use assms in \<open>auto simp: after_claim_def after_transition_def split: if_splits sum.splits prod.splits
  claim_result.splits transition_result.splits profile_lock_status.splits option.splits\<close>)

lemma world_step_completing:
  assumes "world_step sha decodes ts op wd = (events, wd')"
    and "sn_pc (wd_sender wd') = Completing owner row"
  shows "(\<exists>owner. sn_pc (wd_sender wd) = Completing owner row) \<or> (retain_request_of ts row, Confirmed) \<in> set events"
proof (cases op)
  case (SenderStep e)
  with assms show ?thesis by (auto simp: world_step_def split: prod.splits dest: pc_step_completing)
qed (use assms in \<open>auto simp: world_step_def wake_def request_stop_def\<close>)

definition completing_confirmed :: "(ustr \<Rightarrow> ustr option) \<Rightarrow> sent set \<Rightarrow> world \<Rightarrow> bool" where
  "completing_confirmed ts S wd \<longleftrightarrow>
     (\<forall>owner row. sn_pc (wd_sender wd) = Completing owner row \<longrightarrow> (retain_request_of ts row, Confirmed) \<in> S)"

lemma completing_confirmed_step:
  assumes "completing_confirmed ts S wd" and "world_step sha decodes ts op wd = (events, wd')"
  shows "completing_confirmed ts (S \<union> set events) wd'"
  using assms(1) world_step_completing [OF assms(2)] unfolding completing_confirmed_def by blast

definition confirmed_before :: "(ustr \<Rightarrow> ustr option) \<Rightarrow> sent set \<Rightarrow> outbox_row \<Rightarrow> world \<Rightarrow> bool" where
  "confirmed_before ts S r wd \<longleftrightarrow> completing_confirmed ts S wd \<and>
     ((\<exists>r' \<in> set (rows (wd_outbox wd)). same_payload r r') \<or> (retain_request_of ts r, Confirmed) \<in> S)"

lemma confirmed_before_step:
  assumes "confirmed_before ts S r wd" and "world_ok wd" and "world_allowed wd op"
    and "world_step sha decodes ts op wd = (events, wd')"
  shows "confirmed_before ts (S \<union> set events) r wd'"
proof -
  have c: "completing_confirmed ts S wd" using assms(1) by (simp add: confirmed_before_def)
  have "(\<exists>r' \<in> set (rows (wd_outbox wd')). same_payload r r') \<or> (retain_request_of ts r, Confirmed) \<in> S"
  proof (cases "(retain_request_of ts r, Confirmed) \<in> S")
    case False
    with assms(1) obtain r1 where r1: "r1 \<in> set (rows (wd_outbox wd))" "same_payload r r1"
      by (auto simp: confirmed_before_def)
    with world_step_cases [OF assms(2-4)] consider r' where "r' \<in> set (rows (wd_outbox wd'))" "same_payload r1 r'"
      | owner row where "sn_pc (wd_sender wd) = Completing owner row" "same_payload r1 row" by blast
    then show ?thesis
    proof cases
      case (2 owner row)
      with c request_same_payload [OF same_payload_trans [OF r1(2) 2(2)], of ts] show ?thesis
        by (metis completing_confirmed_def)
    qed (use same_payload_trans [OF r1(2)] in blast)
  qed simp
  with completing_confirmed_step [OF c assms(4)] show ?thesis
    unfolding confirmed_before_def by blast
qed

lemma confirmed_before_run:
  assumes "world_ok wd" and "trace_allowed world_allowed (world_step sha decodes ts) ops wd"
    and "confirmed_before ts S r wd"
  shows "confirmed_before ts (S \<union> set (sends (fst (world_run sha decodes ts ops wd)))) r
    (snd (world_run sha decodes ts ops wd))"
  unfolding world_run_def
proof (rule process.trace_invariant [where P = "\<lambda>evs. confirmed_before ts (S \<union> set (sends evs)) r"])
  fix evs st op events st'
  assume "confirmed_before ts (S \<union> set (sends evs)) r st" "world_ok st" "world_allowed st op"
    "world_step sha decodes ts op st = (events, st')"
  from confirmed_before_step [OF this] show "confirmed_before ts (S \<union> set (sends (evs @ [(op, events)]))) r st'"
    by (simp add: Un_assoc)
qed (use assms in simp_all)

lemma completing_confirmed_run:
  assumes "world_ok wd" and "trace_allowed world_allowed (world_step sha decodes ts) ops wd"
    and "completing_confirmed ts {} wd"
  shows "completing_confirmed ts (set (sends (fst (world_run sha decodes ts ops wd))))
    (snd (world_run sha decodes ts ops wd))"
  unfolding world_run_def
proof (rule process.trace_invariant [where P = "\<lambda>evs. completing_confirmed ts (set (sends evs))"])
  fix evs st op events st'
  assume "completing_confirmed ts (set (sends evs)) st" "world_step sha decodes ts op st = (events, st')"
  from completing_confirmed_step [OF this] show "completing_confirmed ts (set (sends (evs @ [(op, events)]))) st'"
    by simp
qed (use assms in simp_all)

lemma world_ok_new: "outbox_ok (wd_outbox wd) \<Longrightarrow> wd_sender wd = new_sender \<Longrightarrow> world_ok wd"
  by (simp add: world_ok_def new_sender_def carried_row_def)

text \<open>
  C1. At-least-once delivery: on every interleaving of the sender thread with admissions, signals and
  other processes, a row that was in the queue at some point of the run and is gone at its end was sent,
  with its content and identity unchanged, in a call the service confirmed. No fault of the database, of
  the file system, of the client or of the runner, and no stop, loses a row.
\<close>

theorem delivered_before_deleted:
  assumes "outbox_ok (wd_outbox wd)" and "wd_sender wd = new_sender"
    and "trace_allowed world_allowed (world_step sha decodes ts) (before @ later) wd"
    and "r \<in> set (rows (wd_outbox (snd (world_run sha decodes ts before wd))))"
    and "document_id r \<notin> document_id ` set (rows (wd_outbox (snd (world_run sha decodes ts (before @ later) wd))))"
  shows "(retain_request_of ts r, Confirmed) \<in> set (sends (fst (world_run sha decodes ts (before @ later) wd)))"
proof -
  obtain e1 wd1 where r1: "world_run sha decodes ts before wd = (e1, wd1)" by force
  obtain e2 wd2 where r2: "world_run sha decodes ts later wd1 = (e2, wd2)" by force
  have all: "world_run sha decodes ts (before @ later) wd = (e1 @ e2, wd2)"
    using r1 r2 by (simp add: world_run_def trace_run_append)
  have a: "trace_allowed world_allowed (world_step sha decodes ts) before wd"
    "trace_allowed world_allowed (world_step sha decodes ts) later wd1"
    using assms(3) r1 by (simp_all add: trace_allowed_append world_run_def)
  note ok = world_ok_new [OF assms(1,2)]
  have ok1: "world_ok wd1" using process.run_good [OF ok a(1)] r1 by (simp add: world_run_def)
  have "completing_confirmed ts {} wd" using assms(2) by (simp add: completing_confirmed_def new_sender_def)
  from completing_confirmed_run [OF ok a(1) this] have "completing_confirmed ts (set (sends e1)) wd1"
    using r1 by simp
  moreover have "r \<in> set (rows (wd_outbox wd1))" using assms(4) r1 by simp
  ultimately have "confirmed_before ts (set (sends e1)) r wd1"
    unfolding confirmed_before_def using same_payload_refl by blast
  from confirmed_before_run [OF ok1 a(2) this] r2
  have "confirmed_before ts (set (sends e1) \<union> set (sends e2)) r wd2" by simp
  moreover have "\<not> same_payload r r'" if "r' \<in> set (rows (wd_outbox wd2))" for r'
    using assms(5) all that by (metis image_eqI same_payload_def snd_conv)
  ultimately show ?thesis by (auto simp: confirmed_before_def all)
qed


section \<open>Stopping\<close>

text \<open>How many steps are left once the stop flag is set and the runner settles.\<close>

fun stop_rank :: "sender_pc \<Rightarrow> nat" where
  "stop_rank Finished = 0"
| "stop_rank Crashed = 0"
| "stop_rank Electing = 1"
| "stop_rank BackoffSleep = 2"
| "stop_rank BackoffCheck = 2"
| "stop_rank BackoffClear = 3"
| "stop_rank (Unwinding _) = 1"
| "stop_rank (Releasing _ lost) = (if lost then 4 else 2)"
| "stop_rank (OwnTop _) = 3"
| "stop_rank (OwnClear _) = 4"
| "stop_rank (OwnCheck _) = 3"
| "stop_rank (ClaimCheck _) = 3"
| "stop_rank (SettleWait _) = 4"
| "stop_rank (OwnSettle _) = 5"
| "stop_rank (OwnSleep _) = 4"
| "stop_rank (Idle _) = 5"
| "stop_rank (Recovering _) = 5"
| "stop_rank Acquiring = 6"
| "stop_rank (Completing _ _) = 5"
| "stop_rank (Rescheduling _ _ _) = 5"
| "stop_rank (DrainWait _ _ _) = 6"
| "stop_rank (Delivering _ _) = 7"
| "stop_rank (Claiming _) = 8"

lemma stop_rank_le: "stop_rank pc \<le> 8"
  by (cases pc) auto

lemma stop_rank_0: "stop_rank pc = 0 \<longleftrightarrow> ended pc"
  by (cases pc) (auto simp: ended_def)

text \<open>A stopped step never moves away from the end, and a settled one moves towards it.\<close>

lemma pc_step_stopped:
  assumes "pc_step ts e True pc w ob os = (events, pc', w', ob', os')"
  shows "stop_rank pc' \<le> stop_rank pc" and "se_settled e \<Longrightarrow> stop_rank pc' \<le> stop_rank pc - 1"
    and "length events + (if 7 \<le> stop_rank pc' then 1 else 0) \<le> (if 7 \<le> stop_rank pc then 1 else 0)"
  using assms
  by (cases pc; auto simp: after_claim_def after_transition_def after_delivery_def split: if_splits sum.splits
    prod.splits claim_result.splits transition_result.splits delivery.splits profile_lock_status.splits
    option.splits)+

definition settled_step :: "world_op \<Rightarrow> bool" where
  "settled_step op = (case op of SenderStep e \<Rightarrow> se_settled e | _ \<Rightarrow> False)"

definition world_rank :: "world \<Rightarrow> nat" where
  "world_rank wd = stop_rank (sn_pc (wd_sender wd))"

lemma world_step_stopped:
  assumes "sn_stop (wd_sender wd)" and "world_step sha decodes ts op wd = (events, wd')"
  shows "sn_stop (wd_sender wd')"
    and "world_rank wd' \<le> world_rank wd - (if settled_step op then 1 else 0)"
    and "length events + (if 7 \<le> world_rank wd' then 1 else 0) \<le> (if 7 \<le> world_rank wd then 1 else 0)"
proof -
  have "sn_stop (wd_sender wd') \<and> world_rank wd' \<le> world_rank wd - (if settled_step op then 1 else 0) \<and>
    length events + (if 7 \<le> world_rank wd' then 1 else 0) \<le> (if 7 \<le> world_rank wd then 1 else 0)"
  proof (cases op)
    case (SenderStep e)
    obtain pc' w' ob' os' where step: "pc_step ts e True (sn_pc (wd_sender wd))
        (sn_wake (wd_sender wd)) (wd_outbox wd) (wd_os wd) = (events, pc', w', ob', os')"
      and wd': "sn_pc (wd_sender wd') = pc'" "sn_stop (wd_sender wd')"
      using assms SenderStep by (auto simp: world_step_def split: prod.splits)
    from pc_step_stopped [OF step] wd' SenderStep show ?thesis by (simp add: world_rank_def settled_step_def)
  qed (use assms in \<open>auto simp: world_step_def wake_def request_stop_def world_rank_def settled_step_def\<close>)
  then show "sn_stop (wd_sender wd')"
    and "world_rank wd' \<le> world_rank wd - (if settled_step op then 1 else 0)"
    and "length events + (if 7 \<le> world_rank wd' then 1 else 0) \<le> (if 7 \<le> world_rank wd then 1 else 0)"
    by blast+
qed

lemma world_run_stopped:
  assumes "sn_stop (wd_sender wd)" and "world_run sha decodes ts ops wd = (trace, wd')"
  shows "world_rank wd' \<le> world_rank wd - length (filter settled_step ops) \<and>
    length (sends trace) \<le> (if 7 \<le> world_rank wd then 1 else 0)"
  using assms unfolding world_run_def
proof (induction ops arbitrary: wd trace)
  case (Cons op ops)
  obtain events wd1 where s: "world_step sha decodes ts op wd = (events, wd1)" by force
  obtain trace1 where r: "trace_run (world_step sha decodes ts) ops wd1 = (trace1, wd')"
    and t: "trace = (op, events) # trace1"
    using Cons.prems(2) s by (auto split: prod.splits)
  note step = world_step_stopped [OF Cons.prems(1) s]
  from Cons.IH [OF step(1) r] step(2,3) show ?case
    using sends_append [of "[(op, events)]" trace1] t by (auto split: if_splits)
qed auto

text \<open>
  C40. Stopping is bounded: once a stop is requested, whatever the other threads do and whatever fails,
  eight steps of the sender taken while the runner settles end the thread, and at most one more call
  is sent.
\<close>

theorem stop_is_bounded:
  assumes "sn_stop (wd_sender wd)" and "world_run sha decodes ts ops wd = (trace, wd')"
    and "8 \<le> length (filter settled_step ops)"
  shows "ended (sn_pc (wd_sender wd')) \<and> length (sends trace) \<le> 1"
  using world_run_stopped [OF assms(1,2)] stop_rank_le [of "sn_pc (wd_sender wd)"] assms(3)
  by (auto simp: world_rank_def simp flip: stop_rank_0 split: if_splits)


section \<open>Draining\<close>

text \<open>A step in which nothing fails: the lock is held, the clock has reached \<open>t\<close>, the call succeeds.\<close>

definition healthy :: "sqlite_outbox \<Rightarrow> profile_lock_owner \<Rightarrow> real \<Rightarrow> sender_env \<Rightarrow> bool" where
  "healthy ob owner t e \<longleftrightarrow>
     se_settled e \<and> se_faults e = [] \<and> se_outcome e = Confirmed \<and>
     owned_before (se_view e) ob owner \<and> owned_at_commit (se_view e) ob owner \<and>
     (case valid_wall_time (se_now e) of Inr (Some time) \<Rightarrow> t \<le> time | _ \<Rightarrow> False)"

definition deliverable :: "sqlite_outbox \<Rightarrow> real \<Rightarrow> outbox_row \<Rightarrow> bool" where
  "deliverable ob t r \<longleftrightarrow> due ob t r \<and> document_id r \<noteq> []"

lemma destination_matches_rows [simp]: "destination_matches (ob\<lparr>rows := t\<rparr>) r = destination_matches ob r"
  by (simp add: destination_matches_def)

lemma owner_descriptor_rows [simp]:
  "owner_descriptor (ob\<lparr>rows := t\<rparr>) fs os owner = owner_descriptor ob fs os owner"
  by (simp add: owner_descriptor_def split: option.split)

lemma owned_rows [simp]:
  "owned_before v (ob\<lparr>rows := t\<rparr>) owner = owned_before v ob owner"
  "owned_at_commit v (ob\<lparr>rows := t\<rparr>) owner = owned_at_commit v ob owner"
  by (simp_all add: owned_before_def owned_at_commit_def)

lemma healthy_rows [simp]: "healthy (ob\<lparr>rows := t\<rparr>) owner time = healthy ob owner time"
  by (simp add: healthy_def fun_eq_iff)

lemma deliverable_rows [simp]: "deliverable (ob\<lparr>rows := t\<rparr>) time = deliverable ob time"
  by (simp add: deliverable_def due_def fun_eq_iff)

lemma claim_healthy:
  assumes "table_ok (rows ob)" and "\<not> ob_closed ob" and "healthy ob owner t e"
    and "list_all (deliverable ob t) (rows ob)" and "sort_key claim_key (rows ob) = r # later"
  obtains time where "0 \<le> time" and "claim_due (se_view e) (se_faults e) owner (se_now e) ob =
    Inr (Claimed (claimed_row time r), ob\<lparr>rows := replace_row (claimed_row time r) (rows ob)\<rparr>)"
proof -
  obtain time where time: "valid_wall_time (se_now e) = Inr (Some time)" "t \<le> time"
    using assms(3) by (auto simp: healthy_def split: sum.splits option.splits)
  have d: "due ob time x" if "x \<in> set (rows ob)" for x
    using assms(4) that time(2) by (fastforce simp: list_all_iff deliverable_def due_def)
  have r: "r \<in> set (rows ob)" using assms(5) by (metis list.set_intros(1) set_sort)
  have "filter (due ob time) (rows ob) = rows ob" using d by (simp add: filter_id_conv)
  then have "first_by claim_key (filter (due ob time) (rows ob)) = Some r"
    using assms(5) by (simp add: first_by_def)
  moreover have "owned_before (se_view e) ob owner" "owned_at_commit (se_view e) ob owner" "se_faults e = []"
    using assms(3) by (simp_all add: healthy_def)
  ultimately have "claim_due (se_view e) (se_faults e) owner (se_now e) ob =
      Inr (Claimed (claimed_row time r), ob\<lparr>rows := replace_row (claimed_row time r) (rows ob)\<rparr>)"
    using assms(2) time(1) claim_statement [OF assms(1) r d [OF r]]
    by (simp add: claim_due_def transaction_def claim_tx_def claimed_row_def)
  with valid_wall_time_nonneg [OF time(1)] show ?thesis by (rule that)
qed

lemma complete_healthy:
  assumes "table_ok (rows ob)" and "\<not> ob_closed ob" and "healthy ob owner t e"
    and "r \<in> set (rows ob)" and "state r = Sending" and "document_id r \<noteq> []"
  shows "complete_claim (se_view e) (se_faults e) owner (PStr (lit (document_id r))) (PInt (attempt_count r)) ob =
    (Applied 1, ob\<lparr>rows := delete_row (document_id r) (rows ob)\<rparr>)"
proof -
  let ?P = "exact_claim (PStr (lit (document_id r))) (PInt (attempt_count r))"
  have P: "?P x \<longleftrightarrow> x = r" if "x \<in> set (rows ob)" for x
    using that assms(4,5) same_document [OF assms(1) that assms(4)]
    by (auto simp: exact_claim_def names_row_def lit_inject)
  have "0 < attempt_count r" using table_okD(2) [OF assms(1,4)] assms(5) by (simp add: row_ok_def)
  then have guard: "valid_claim_guard (PStr (lit (document_id r))) (PInt (attempt_count r))"
    using assms(6) by (simp add: valid_claim_guard_def lit_def)
  have "filter ?P (rows ob) = [r]"
    by (rule filter_unique_row [OF assms(1,4)]) (use P assms(4) in blast)+
  then have count1: "count_if ?P (rows ob) = 1" by (simp add: count_if_def)
  have others: "filter (\<lambda>x. \<not> ?P x) (rows ob) = delete_row (document_id r) (rows ob)"
    by (rule delete_row_filter [OF assms(1,4) P])
  have own: "owned_before (se_view e) ob owner" "owned_at_commit (se_view e) ob owner" "se_faults e = []"
    using assms(3) by (simp_all add: healthy_def)
  show ?thesis unfolding complete_claim_def own(3)
    using guard assms(2) own(1,2) count1 others
    by (simp add: transaction_def complete_tx_def delete_where_def)
qed

text \<open>One round of the owner: claim the least row, deliver it, delete it.\<close>

definition owner_at_top :: "world \<Rightarrow> profile_lock_owner \<Rightarrow> bool" where
  "owner_at_top wd owner \<longleftrightarrow> sn_pc (wd_sender wd) = OwnTop owner \<and> \<not> sn_stop (wd_sender wd)"

lemma delete_replace_row: "document_id r' = d \<Longrightarrow> delete_row d (replace_row r' t) = delete_row d t"
  by (induction t) (auto simp: delete_row_def replace_row_def)

lemma replace_row_mem: "r \<in> set t \<Longrightarrow> document_id r' = document_id r \<Longrightarrow> r' \<in> set (replace_row r' t)"
  by (force simp: replace_row_def)

lemma request_claimed [simp]: "retain_request_of ts (claimed_row time r) = retain_request_of ts r"
  by (simp add: retain_request_of_def claimed_row_def)

lemma drain_round:
  assumes "owner_at_top wd owner" and "table_ok (rows (wd_outbox wd))" and "\<not> ob_closed (wd_outbox wd)"
    and "list_all (deliverable (wd_outbox wd) t) (rows (wd_outbox wd))"
    and "sort_key claim_key (rows (wd_outbox wd)) = r # later"
    and "length es = 8" and "list_all (healthy (wd_outbox wd) owner t) es"
  obtains trace wd' where "world_run sha decodes ts (map SenderStep es) wd = (trace, wd')"
    and "sends trace = [(retain_request_of ts r, Confirmed)]" and "owner_at_top wd' owner"
    and "wd_outbox wd' = (wd_outbox wd)\<lparr>rows := delete_row (document_id r) (rows (wd_outbox wd))\<rparr>"
proof -
  let ?ob = "wd_outbox wd"
  obtain e1 e2 e3 e4 e5 e6 e7 e8 where es: "es = [e1, e2, e3, e4, e5, e6, e7, e8]"
    using assms(6) by (auto simp: eval_nat_numeral length_Suc_conv)
  have h: "healthy ?ob owner t e6" "healthy ?ob owner t e8" "se_settled e4" "se_outcome e7 = Confirmed"
    using assms(7) es by (auto simp: healthy_def)
  obtain time where time: "0 \<le> time" and claim: "claim_due (se_view e6) (se_faults e6) owner (se_now e6) ?ob =
      Inr (Claimed (claimed_row time r), ?ob\<lparr>rows := replace_row (claimed_row time r) (rows ?ob)\<rparr>)"
    by (rule claim_healthy [OF assms(2,3) h(1) assms(4,5)])
  have r: "r \<in> set (rows ?ob)" using assms(5) by (metis list.set_intros(1) set_sort)
  let ?r = "claimed_row time r" and ?ob1 = "?ob\<lparr>rows := replace_row (claimed_row time r) (rows ?ob)\<rparr>"
  have d: "deliverable ?ob t r" using assms(4) r by (simp add: list_all_iff)
  have ok1: "table_ok (rows ?ob1)"
    using table_ok_replace [OF assms(2) row_ok_claimed [OF table_okD(2) [OF assms(2) r] time]] by simp
  have "complete_claim (se_view e8) (se_faults e8) owner (PStr (lit (document_id ?r))) (PInt (attempt_count ?r)) ?ob1 =
      (Applied 1, ?ob1\<lparr>rows := delete_row (document_id ?r) (rows ?ob1)\<rparr>)"
    using ok1 assms(3) h(2) replace_row_mem [OF r] d
    by (intro complete_healthy [where t = t]) (auto simp: claimed_row_def deliverable_def)
  then have complete: "complete_claim (se_view e8) (se_faults e8) owner (PStr (lit (document_id ?r)))
      (PInt (attempt_count ?r)) ?ob1 = (Applied 1, ?ob\<lparr>rows := delete_row (document_id r) (rows ?ob)\<rparr>)"
    by (simp add: delete_replace_row)
  show ?thesis
    by (rule that [of "fst (world_run sha decodes ts (map SenderStep es) wd)"
          "snd (world_run sha decodes ts (map SenderStep es) wd)"])
      (use assms(1) es h claim complete in \<open>simp_all add: world_run_def world_step_def owner_at_top_def
        after_claim_def after_delivery_def after_transition_def sends_def\<close>)
qed


lemma sort_delete_first:
  assumes "table_ok t" and "sort_key claim_key t = r # later"
  shows "sort_key claim_key (delete_row (document_id r) t) = later" and "r \<in> set t"
    and "length t = Suc (length (delete_row (document_id r) t))"
proof -
  have m: "mset t = mset (r # later)" using assms(2) by (metis mset_sort)
  then have "mset (map document_id t) = mset (map document_id (r # later))" by simp
  then have "distinct (map document_id (r # later))"
    using assms(1) by (metis mset_eq_imp_distinct_iff table_ok_def)
  then have "filter (\<lambda>x. document_id x \<noteq> document_id r) (r # later) = later"
    by (auto simp: filter_id_conv image_iff)
  then show s: "sort_key claim_key (delete_row (document_id r) t) = later"
    unfolding delete_row_def filter_sort [symmetric] assms(2) .
  show "r \<in> set t" using assms(2) by (metis list.set_intros(1) set_sort)
  show "length t = Suc (length (delete_row (document_id r) t))"
    using arg_cong [OF assms(2), of length] arg_cong [OF s, of length] by simp
qed

lemma drain_run:
  assumes "owner_at_top wd owner" and "table_ok (rows (wd_outbox wd))" and "\<not> ob_closed (wd_outbox wd)"
    and "list_all (deliverable (wd_outbox wd) t) (rows (wd_outbox wd))"
    and "length es = 8 * length (rows (wd_outbox wd))" and "list_all (healthy (wd_outbox wd) owner t) es"
    and "world_run sha decodes ts (map SenderStep es) wd = (trace, wd')"
  shows "rows (wd_outbox wd') = [] \<and> owner_at_top wd' owner \<and>
    sends trace = map (\<lambda>r. (retain_request_of ts r, Confirmed)) (sort_key claim_key (rows (wd_outbox wd)))"
  using assms
proof (induction "length (rows (wd_outbox wd))" arbitrary: wd wd' es trace)
  case 0
  then show ?case by (simp add: world_run_def)
next
  case (Suc n)
  let ?ob = "wd_outbox wd"
  obtain r later where sorted: "sort_key claim_key (rows ?ob) = r # later"
    using Suc.hyps(2) by (metis length_sort length_Suc_conv)
  note del = sort_delete_first [OF Suc.prems(2) sorted]
  have len: "length (take 8 es) = 8" "length (drop 8 es) = 8 * length (delete_row (document_id r) (rows ?ob))"
    using Suc.prems(5) del(3) by simp_all
  have h: "list_all (healthy ?ob owner t) (take 8 es)" "list_all (healthy ?ob owner t) (drop 8 es)"
    using Suc.prems(6) by (auto simp: list_all_iff dest: in_set_takeD in_set_dropD)
  obtain tr1 wd1 where one: "world_run sha decodes ts (map SenderStep (take 8 es)) wd = (tr1, wd1)"
    "sends tr1 = [(retain_request_of ts r, Confirmed)]" "owner_at_top wd1 owner"
    and ob1: "wd_outbox wd1 = ?ob\<lparr>rows := delete_row (document_id r) (rows ?ob)\<rparr>"
    by (rule drain_round [OF Suc.prems(1-4) sorted len(1) h(1)])
  obtain tr2 wd2 where two: "world_run sha decodes ts (map SenderStep (drop 8 es)) wd1 = (tr2, wd2)" by force
  have all: "world_run sha decodes ts (map SenderStep es) wd = (tr1 @ tr2, wd2)"
    using one(1) two by (metis (no_types, lifting) append_take_drop_id map_append trace_run_append
        world_run_def case_prod_conv)
  have "rows (wd_outbox wd2) = [] \<and> owner_at_top wd2 owner \<and>
    sends tr2 = map (\<lambda>r. (retain_request_of ts r, Confirmed)) (sort_key claim_key (rows (wd_outbox wd1)))"
    using Suc.hyps(2) del(3) Suc.prems(3,4) table_ok_delete [OF Suc.prems(2)] len(2) h(2) one(3) two ob1
    by (intro Suc.hyps(1) [of wd1 "drop 8 es"]) (auto simp: list_all_iff delete_row_def)
  then show ?case using all one(2) ob1 del(1) sorted Suc.prems(7) by simp
qed

text \<open>
  C39. Liveness: from the point where the owner starts a round, while nothing fails and no stop is
  requested, eight steps per row empty a queue whose rows are all due; every row is sent exactly once,
  in the order of the next attempt, creation, source, segment and document.
\<close>

theorem healthy_sender_drains:
  assumes "owner_at_top wd owner" and "table_ok (rows (wd_outbox wd))" and "\<not> ob_closed (wd_outbox wd)"
    and "list_all (deliverable (wd_outbox wd) t) (rows (wd_outbox wd))"
    and "length es = 8 * length (rows (wd_outbox wd))" and "list_all (healthy (wd_outbox wd) owner t) es"
    and "world_run sha decodes ts (map SenderStep es) wd = (trace, wd')"
  shows "rows (wd_outbox wd') = [] \<and> owner_at_top wd' owner \<and>
    sends trace = map (\<lambda>r. (retain_request_of ts r, Confirmed)) (sort_key claim_key (rows (wd_outbox wd)))"
  using assms by (rule drain_run)

section \<open>A sample process\<close>

definition sample_env :: sender_env where
  "sample_env =
     \<lparr>se_fs_open = sample_fs, se_fs_check = sample_fs, se_fs_recheck = sample_fs, se_flock_broken = False,
      se_settled = True, se_view = sample_view, se_faults = [], se_now = PInt 6, se_outcome = Confirmed\<rparr>"

definition sample_rows :: table where
  "sample_rows = [sample_row ''a'' Pending 0 4, sample_row ''b'' Pending 2 3]"

definition sample_world :: "sender \<Rightarrow> os_state \<Rightarrow> world" where
  "sample_world s os = \<lparr>wd_sender = s, wd_outbox = sample_outbox sample_rows, wd_os = os\<rparr>"

lemma sample_healthy: "healthy (sample_outbox t) sample_owner 6 sample_env"
  by (simp add: healthy_def sample_env_def valid_wall_time_def float_of_int_def float_limit_def)

lemma sample_world_ok: "outbox_ok (wd_outbox (sample_world s os))"
  by (simp add: sample_world_def sample_rows_def outbox_ok_def settings_ok_def table_ok_def within_capacity_def
      queued_bytes_def row_bytes_def utf8_char_def OUTBOX_ROW_ACCOUNTING_ALLOWANCE_BYTES_def)

lemma sample_deliverable: "list_all (deliverable (sample_outbox t) 6) sample_rows"
  by (simp add: sample_rows_def deliverable_def due_def)

lemma sample_rows_table: "table_ok sample_rows"
  by (simp add: sample_rows_def table_ok_def)

theorem healthy_sender_drains_witness:
  "rows (wd_outbox (snd (world_run sample_digest no_decoder (\<lambda>_. None) (map SenderStep (replicate 16 sample_env))
     (sample_world (new_sender\<lparr>sn_pc := OwnTop sample_owner\<rparr>) sample_os)))) = []"
proof -
  let ?wd = "sample_world (new_sender\<lparr>sn_pc := OwnTop sample_owner\<rparr>) sample_os"
  obtain trace wd' where "world_run sample_digest no_decoder (\<lambda>_. None)
      (map SenderStep (replicate 16 sample_env)) ?wd = (trace, wd')" by force
  moreover from healthy_sender_drains [OF _ _ _ _ _ _ this, of sample_owner 6] have "rows (wd_outbox wd') = []"
    using sample_healthy sample_deliverable sample_rows_table
    by (simp add: sample_world_def owner_at_top_def new_sender_def list_all_length)
      (simp add: sample_rows_def)
  ultimately show ?thesis by simp
qed


lemma world_run_Nil [simp]: "world_run sha decodes ts [] wd = ([], wd)"
  by (simp add: world_run_def)

lemma sample_start:
  "world_run sample_digest no_decoder (\<lambda>_. None) (map SenderStep (replicate 3 sample_env))
     (sample_world new_sender booted) =
   (replicate 3 (SenderStep sample_env, []), sample_world (new_sender\<lparr>sn_pc := OwnTop sample_owner\<rparr>) sample_os)"
proof -
  have "recover_sending sample_view [] sample_owner (PInt 6) (sample_outbox sample_rows) =
      Inr (Applied 0, sample_outbox sample_rows)"
    by (simp add: recover_sending_def valid_wall_time_def float_of_int_def float_limit_def
        transaction_def recover_tx_def update_where_def count_if_def sample_rows_def)
  with sample_acquire show ?thesis
    by (simp add: world_run_def world_step_def sample_world_def new_sender_def sample_env_def sample_outbox_def
        eval_nat_numeral after_transition_def)
qed

lemma sample_drained:
  "rows (wd_outbox (snd (world_run sample_digest no_decoder (\<lambda>_. None)
     (map SenderStep (replicate 19 sample_env)) (sample_world new_sender booted)))) = []"
proof -
  let ?wd = "sample_world (new_sender\<lparr>sn_pc := OwnTop sample_owner\<rparr>) sample_os"
  obtain trace wd' where r: "world_run sample_digest no_decoder (\<lambda>_. None)
      (map SenderStep (replicate 16 sample_env)) ?wd = (trace, wd')" by force
  with drain_run [OF _ _ _ _ _ _ r, of sample_owner 6] have "rows (wd_outbox (snd (world_run sample_digest
      no_decoder (\<lambda>_. None) (map SenderStep (replicate 16 sample_env)) ?wd))) = []"
    using sample_healthy sample_deliverable sample_rows_table
    by (simp add: sample_world_def owner_at_top_def new_sender_def list_all_length)
      (simp add: sample_rows_def)
  then have "rows (wd_outbox wd') = []" using r by simp
  moreover have "map SenderStep (replicate 19 sample_env) =
      map SenderStep (replicate 3 sample_env) @ map SenderStep (replicate 16 sample_env)"
    unfolding map_append [symmetric] replicate_add [symmetric] by simp
  ultimately show ?thesis
    using r sample_start by (simp only: world_run_def trace_run_append prod.case snd_conv)
qed

theorem delivered_before_deleted_witness:
  "(retain_request_of (\<lambda>_. None) (sample_row ''a'' Pending 0 4), Confirmed) \<in>
     set (sends (fst (world_run sample_digest no_decoder (\<lambda>_. None) (map SenderStep (replicate 19 sample_env))
       (sample_world new_sender booted))))"
proof -
  have "trace_allowed world_allowed (world_step sample_digest no_decoder (\<lambda>_. None)) (map SenderStep es) wd"
    for es wd by (induction es arbitrary: wd) (simp_all add: world_allowed_def)
  then have "trace_allowed world_allowed (world_step sample_digest no_decoder (\<lambda>_. None))
      ([] @ map SenderStep (replicate 19 sample_env)) (sample_world new_sender booted)"
    by (simp only: append_Nil)
  moreover have "sample_row ''a'' Pending 0 4 \<in> set (rows (wd_outbox (snd (world_run sample_digest no_decoder
      (\<lambda>_. None) [] (sample_world new_sender booted)))))"
    by (simp add: sample_world_def sample_rows_def)
  ultimately show ?thesis
    using delivered_before_deleted [OF sample_world_ok _] sample_drained
    by (metis append_Nil empty_iff image_empty list.set(1) sample_world_def world.select_convs(1))
qed

theorem stop_is_bounded_witness:
  "ended (sn_pc (wd_sender (snd (world_run sample_digest no_decoder (\<lambda>_. None)
     (map SenderStep (replicate 8 sample_env)) (sample_world (request_stop new_sender) booted)))))"
proof -
  obtain trace wd' where r: "world_run sample_digest no_decoder (\<lambda>_. None) (map SenderStep (replicate 8 sample_env))
      (sample_world (request_stop new_sender) booted) = (trace, wd')" by force
  have "filter settled_step (map SenderStep (replicate 8 sample_env)) = map SenderStep (replicate 8 sample_env)"
    by (simp add: filter_id_conv settled_step_def sample_env_def)
  with stop_is_bounded [OF _ r] r show ?thesis
    by (simp add: sample_world_def request_stop_def)
qed

end
