(* ===== verification/Projection.thy ===== *)
theory Projection
  imports Json
begin

text \<open>
  The bounded query projection of \<open>formatting.py\<close>: memory envelopes are cut out of the user's
  text, then its head and tail are kept within a character and a token bound.

  The tokenizer is a third-party package and the record \<open>tokenizer\<close> its interface:
  \<open>encode\<close> and \<open>decode_single_token_bytes\<close>. The lemmas that relate a projected
  query to the text rest on the documented law that the bytes of the tokens of a text are the bytes of
  the text (\<open>lossless\<close>).
\<close>

section \<open>Search and replacement\<close>

text \<open>The text before and after the first occurrence of a pattern.\<close>

fun cut_first :: "ustr \<Rightarrow> ustr \<Rightarrow> (ustr \<times> ustr) option" where
  "cut_first p s =
     (if prefix p s then Some ([], drop (length p) s)
      else (case s of [] \<Rightarrow> None | c # cs \<Rightarrow> map_option (apfst (Cons c)) (cut_first p cs)))"

declare cut_first.simps [simp del]

lemma cut_first_Some: "cut_first p s = Some (pre, post) \<Longrightarrow> s = pre @ p @ post"
proof (induction p s arbitrary: pre rule: cut_first.induct)
  case (1 p s)
  show ?case
  proof (cases "prefix p s")
    case True
    with "1.prems" show ?thesis by (auto simp: cut_first.simps [of p s] prefix_def)
  next
    case False
    with "1.prems" obtain c cs pre' where s: "s = c # cs" "pre = c # pre'" "cut_first p cs = Some (pre', post)"
      by (auto simp: cut_first.simps [of p s] split: list.splits)
    with "1.IH" [OF False s(1,3)] show ?thesis by simp
  qed
qed

datatype envelope = MemoryContextBlock | RecalledEvidenceBlock | LegacyEvidenceBlock

definition CONTEXT_BEGIN_MARKER :: ustr where
  "CONTEXT_BEGIN_MARKER = lit ''[RECALLED_MEMORY_EVIDENCE_BEGIN]''"

definition CONTEXT_SUFFIX :: ustr where
  "CONTEXT_SUFFIX = lit ''[RECALLED_MEMORY_EVIDENCE_END]''"

definition LEGACY_CONTEXT_BEGIN_MARKER :: ustr where
  "LEGACY_CONTEXT_BEGIN_MARKER = lit ''[BETTER_HINDSIGHT_HISTORICAL_EVIDENCE_BEGIN]''"

definition LEGACY_CONTEXT_SUFFIX :: ustr where
  "LEGACY_CONTEXT_SUFFIX = lit ''[BETTER_HINDSIGHT_HISTORICAL_EVIDENCE_END]''"

fun envelope_begin :: "envelope \<Rightarrow> ustr" where
  "envelope_begin MemoryContextBlock = lit ''<memory-context>''"
| "envelope_begin RecalledEvidenceBlock = CONTEXT_BEGIN_MARKER"
| "envelope_begin LegacyEvidenceBlock = LEGACY_CONTEXT_BEGIN_MARKER"

fun envelope_end :: "envelope \<Rightarrow> ustr" where
  "envelope_end MemoryContextBlock = lit ''</memory-context>''"
| "envelope_end RecalledEvidenceBlock = CONTEXT_SUFFIX"
| "envelope_end LegacyEvidenceBlock = LEGACY_CONTEXT_SUFFIX"

lemma envelope_begin_nonempty: "envelope_begin e \<noteq> []"
  by (cases e) (simp_all add: CONTEXT_BEGIN_MARKER_def LEGACY_CONTEXT_BEGIN_MARKER_def lit_def)

text \<open>
  \<open>re.compile(begin + ".*?" + end, DOTALL).sub("", text)\<close>: from the leftmost begin marker to
  the first end marker after it, repeatedly; a begin marker with no end marker after it leaves the
  rest of the text as it is.
\<close>

function strip_blocks :: "envelope \<Rightarrow> ustr \<Rightarrow> ustr" where
  "strip_blocks e s =
     (case cut_first (envelope_begin e) s of
        None \<Rightarrow> s
      | Some (pre, inner) \<Rightarrow>
          (case cut_first (envelope_end e) inner of
             None \<Rightarrow> s
           | Some (_, post) \<Rightarrow> pre @ strip_blocks e post))"
  by pat_completeness auto
termination
proof (relation "measure (\<lambda>(e, s). length s)", goal_cases)
  case (2 e s x pre inner y drop post)
  then have "s = pre @ envelope_begin e @ inner" "inner = drop @ envelope_end e @ post"
    by (auto dest: cut_first_Some)
  with envelope_begin_nonempty [of e] show ?case by (cases "envelope_begin e") auto
qed simp

declare strip_blocks.simps [simp del]

definition strip_envelopes :: "ustr \<Rightarrow> ustr" where
  "strip_envelopes query =
     strip_blocks LegacyEvidenceBlock
       (strip_blocks RecalledEvidenceBlock (strip_blocks MemoryContextBlock query))"

section \<open>UTF-8 decoding\<close>

definition continuation :: "nat \<Rightarrow> bool" where
  "continuation b \<longleftrightarrow> 128 \<le> b \<and> b < 192"

text \<open>
  One character of \<open>bytes.decode("utf-8")\<close>: the value and the bytes after it, or \<open>None\<close> at an
  ill-formed sequence (overlong forms, surrogates and values above 10FFFF included).
\<close>

definition decode_char :: "bytes \<Rightarrow> (nat \<times> bytes) option" where
  "decode_char bs =
     (case bs of
        [] \<Rightarrow> None
      | b0 # t0 \<Rightarrow>
          if b0 < 128 then Some (b0, t0)
          else if 194 \<le> b0 \<and> b0 < 224 then
            (case t0 of
               b1 # t1 \<Rightarrow> if continuation b1 then Some ((b0 - 192) * 64 + (b1 - 128), t1) else None
             | _ \<Rightarrow> None)
          else if 224 \<le> b0 \<and> b0 < 240 then
            (case t0 of
               b1 # b2 # t2 \<Rightarrow>
                 if continuation b1 \<and> continuation b2 \<and> (b0 = 224 \<longrightarrow> 160 \<le> b1) \<and> (b0 = 237 \<longrightarrow> b1 < 160)
                 then Some ((b0 - 224) * 4096 + (b1 - 128) * 64 + (b2 - 128), t2) else None
             | _ \<Rightarrow> None)
          else if 240 \<le> b0 \<and> b0 < 245 then
            (case t0 of
               b1 # b2 # b3 # t3 \<Rightarrow>
                 if continuation b1 \<and> continuation b2 \<and> continuation b3 \<and>
                    (b0 = 240 \<longrightarrow> 144 \<le> b1) \<and> (b0 = 244 \<longrightarrow> b1 < 144)
                 then Some ((b0 - 240) * 262144 + (b1 - 128) * 4096 + (b2 - 128) * 64 + (b3 - 128), t3)
                 else None
             | _ \<Rightarrow> None)
          else None)"

lemma decode_char_shorter: "decode_char bs = Some (c, t) \<Longrightarrow> length t < length bs"
  by (auto simp: decode_char_def split: list.splits if_splits)

text \<open>\<open>errors="ignore"\<close> drops an ill-formed byte and goes on with the next.\<close>

function decode_ignore :: "bytes \<Rightarrow> ustr" where
  "decode_ignore bs =
     (case bs of
        [] \<Rightarrow> []
      | _ # t \<Rightarrow> (case decode_char bs of None \<Rightarrow> decode_ignore t | Some (c, t') \<Rightarrow> c # decode_ignore t'))"
  by pat_completeness auto
termination
  by (relation "measure length") (auto dest: decode_char_shorter)

declare decode_ignore.simps [simp del]

section \<open>The projection\<close>

record tokenizer =
  encode :: "ustr \<Rightarrow> nat list"
  token_bytes :: "nat \<Rightarrow> bytes"

definition QUERY_OMISSION_MARKER :: ustr where
  "QUERY_OMISSION_MARKER = 10 # lit ''[... query middle omitted ...]'' @ [10]"

definition encode_query :: "tokenizer \<Rightarrow> ustr \<Rightarrow> nat list" where
  "encode_query tk query = encode tk query"

datatype query_error = NotText | BadCharLimit | BadTokenLimit

definition count_query_tokens :: "tokenizer \<Rightarrow> py \<Rightarrow> query_error + nat" where
  "count_query_tokens tk query =
     (case query of PStr s \<Rightarrow> Inr (length (encode_query tk s)) | _ \<Rightarrow> Inl NotText)"

text \<open>\<open>text[-n:]\<close> for a positive n.\<close>

definition last_items :: "nat \<Rightarrow> 'a list \<Rightarrow> 'a list" where
  "last_items n xs = (if n = 0 then xs else drop (length xs - n) xs)"

definition project_query_by_chars :: "ustr \<Rightarrow> int \<Rightarrow> ustr \<times> ustr" where
  "project_query_by_chars query max_chars =
     (if int (length query) \<le> max_chars then (query, query)
      else
        (let available_text = max_chars - int (length QUERY_OMISSION_MARKER) in
         if available_text < 2 then ([], [])
         else
           (let head_chars = nat ((available_text + 1) div 2);
                tail_chars = nat available_text - head_chars;
                head = take head_chars query;
                tail = last_items tail_chars query
            in (head @ QUERY_OMISSION_MARKER @ tail, head @ tail))))"

definition decode_query_tokens :: "tokenizer \<Rightarrow> nat list \<Rightarrow> ustr" where
  "decode_query_tokens tk tokens = decode_ignore (concat (map (token_bytes tk) tokens))"

text \<open>
  The shrinking loop, from \<open>content_tokens\<close> on. Each round gives up at least one token, so
  it ends.
\<close>

definition candidate_query :: "tokenizer \<Rightarrow> nat list \<Rightarrow> int \<Rightarrow> ustr" where
  "candidate_query tk query_tokens content_tokens =
     (let head_tokens = nat ((content_tokens + 1) div 2);
          tail_tokens = nat content_tokens - head_tokens
      in decode_query_tokens tk (take head_tokens query_tokens) @ QUERY_OMISSION_MARKER @
         decode_query_tokens tk (last_items tail_tokens query_tokens))"

definition token_reduction :: "int \<Rightarrow> int \<Rightarrow> int \<Rightarrow> int \<Rightarrow> int \<Rightarrow> int" where
  "token_reduction content_tokens candidate_tokens max_tokens candidate_chars max_chars =
     (let reduction = max 1 (candidate_tokens - max_tokens) in
      if candidate_chars > max_chars
      then max reduction
             ((content_tokens * (candidate_chars - max_chars) + candidate_chars - 1) div candidate_chars)
      else reduction)"

lemma token_reduction_pos: "1 \<le> token_reduction n k m c d"
  by (simp add: token_reduction_def Let_def le_max_iff_disj)

function shrink_query :: "tokenizer \<Rightarrow> nat list \<Rightarrow> int \<Rightarrow> int \<Rightarrow> int \<Rightarrow> ustr" where
  "shrink_query tk query_tokens max_chars max_tokens content_tokens =
     (if content_tokens < 2 then []
      else
        (let candidate = candidate_query tk query_tokens content_tokens;
             candidate_tokens = int (length (encode_query tk candidate))
         in if int (length candidate) \<le> max_chars \<and> candidate_tokens \<le> max_tokens then candidate
            else shrink_query tk query_tokens max_chars max_tokens
              (content_tokens - token_reduction content_tokens candidate_tokens max_tokens
                 (int (length candidate)) max_chars)))"
  by pat_completeness auto
termination
proof (relation "measure (\<lambda>(tk, toks, mc, mt, n). nat n)", goal_cases)
  case (2 tk toks mc mt n c k)
  with token_reduction_pos [of n k mt "int (length c)" mc] show ?case by simp
qed simp

declare shrink_query.simps [simp del]

definition project_query_by_tokens :: "tokenizer \<Rightarrow> ustr \<Rightarrow> int \<Rightarrow> int \<Rightarrow> ustr" where
  "project_query_by_tokens tk query max_chars max_tokens =
     (let query_tokens = encode_query tk query;
          marker_tokens = encode_query tk QUERY_OMISSION_MARKER;
          content_tokens = min (int (length query_tokens)) (max_tokens - int (length marker_tokens))
      in if content_tokens < 2 \<or> int (length QUERY_OMISSION_MARKER) \<ge> max_chars then []
         else shrink_query tk query_tokens max_chars max_tokens content_tokens)"

definition positive_limit :: "py \<Rightarrow> int option" where
  "positive_limit v = (case v of PInt i \<Rightarrow> if i \<le> 0 then None else Some i | _ \<Rightarrow> None)"

definition project_query :: "tokenizer \<Rightarrow> py \<Rightarrow> py \<Rightarrow> py \<Rightarrow> query_error + ustr" where
  "project_query tk query max_chars max_tokens =
     (case query of
        PStr s \<Rightarrow>
          (case positive_limit max_chars of
             None \<Rightarrow> Inl BadCharLimit
           | Some mc \<Rightarrow>
               (case positive_limit max_tokens of
                  None \<Rightarrow> Inl BadTokenLimit
                | Some mt \<Rightarrow>
                    (let projected = strip_envelopes s in
                     if projected = [] then Inr []
                     else
                       (case project_query_by_chars projected mc of
                          (char_bounded, tokenizer_input) \<Rightarrow>
                            if char_bounded = [] \<or> int (length (encode_query tk char_bounded)) \<le> mt
                            then Inr char_bounded
                            else Inr (project_query_by_tokens tk tokenizer_input mc mt)))))
      | _ \<Rightarrow> Inl NotText)"

end
