(* ===== verification/ProjectionTheorems.thy ===== *)
theory ProjectionTheorems
  imports Projection
begin

text \<open>
  The projected query obeys both bounds, and it is the stripped text or a head and a tail of it around
  the omission marker. The second rests on the decoder: cutting the bytes of a text anywhere and
  dropping what is ill-formed leaves a prefix, or a suffix, of the text.
\<close>

section \<open>Decoding\<close>

definition code_point :: "nat \<Rightarrow> bool" where
  "code_point c \<longleftrightarrow> c \<le> 1114111 \<and> \<not> surrogate c"

abbreviation code_points :: "ustr \<Rightarrow> bool" where
  "code_points \<equiv> list_all code_point"

lemma split_64: obtains q r where "(c :: nat) = 64 * q + r" "r < 64" "c div 64 = q" "c mod 64 = r"
  by (rule that [of "c div 64" "c mod 64"]) simp_all

lemma decode_char_2:
  "2 \<le> a \<Longrightarrow> a < 32 \<Longrightarrow> d < 64 \<Longrightarrow> decode_char ([192 + a, 128 + d] @ bs) = Some (64 * a + d, bs)"
  by (simp add: decode_char_def continuation_def)

lemma decode_char_3:
  "a < 16 \<Longrightarrow> b < 64 \<Longrightarrow> d < 64 \<Longrightarrow> (a = 0 \<Longrightarrow> 32 \<le> b) \<Longrightarrow> (a = 13 \<Longrightarrow> b < 32) \<Longrightarrow>
   decode_char ([224 + a, 128 + b, 128 + d] @ bs) = Some (64 * (64 * a + b) + d, bs)"
  by (simp add: decode_char_def continuation_def)

lemma decode_char_4:
  "a < 5 \<Longrightarrow> b < 64 \<Longrightarrow> e < 64 \<Longrightarrow> d < 64 \<Longrightarrow> (a = 0 \<Longrightarrow> 16 \<le> b) \<Longrightarrow> (a = 4 \<Longrightarrow> b < 16) \<Longrightarrow>
   decode_char ([240 + a, 128 + b, 128 + e, 128 + d] @ bs) = Some (64 * (64 * (64 * a + b) + e) + d, bs)"
  by (simp add: decode_char_def continuation_def)

lemma decode_char_utf8:
  assumes "code_point c"
  shows "decode_char (utf8_char c @ bs) = Some (c, bs)"
proof -
  have c: "c \<le> 1114111" "c < 55296 \<or> 57343 < c"
    using assms by (auto simp: code_point_def surrogate_def)
  obtain q d where 1: "c = 64 * q + d" "d < 64" "c div 64 = q" "c mod 64 = d" by (rule split_64)
  obtain p e where 2: "q = 64 * p + e" "e < 64" "q div 64 = p" "q mod 64 = e" by (rule split_64)
  obtain a b where 3: "p = 64 * a + b" "b < 64" "p div 64 = a" "p mod 64 = b" by (rule split_64)
  have div: "c div 4096 = p" "c div 262144 = a"
    using div_mult2_eq [of c 64 64] div_mult2_eq [of c 64 4096] div_mult2_eq [of q 64 64] 1(3) 2(3) 3(3) by simp_all
  show ?thesis
  proof (cases "c < 128")
    case False
    note big = this
    show ?thesis
    proof (cases "c < 2048")
      case True
      with big have "utf8_char c = [192 + q, 128 + d]" by (simp add: utf8_char_def 1(3,4))
      moreover have "2 \<le> q" "q < 32" using big True 1(1,2) by linarith+
      ultimately show ?thesis using decode_char_2 [OF _ _ 1(2), of q bs] 1(1) by simp
    next
      case False
      show ?thesis
      proof (cases "c < 65536")
        case True
        with False have "utf8_char c = [224 + p, 128 + e, 128 + d]" by (simp add: utf8_char_def div 1(3,4) 2(4))
        moreover have "p < 16" "p = 0 \<Longrightarrow> 32 \<le> e" "p = 13 \<Longrightarrow> e < 32"
          using True False c(2) 1(1,2) 2(1,2) by linarith+
        ultimately show ?thesis using decode_char_3 [OF _ 2(2) 1(2), of p bs] 1(1) 2(1) by simp
      next
        case False
        have "c div 4096 mod 64 = b" by (simp add: div 3(4))
        with False have "utf8_char c = [240 + a, 128 + b, 128 + e, 128 + d]"
          by (simp add: utf8_char_def div 1(3,4) 2(4))
        moreover have "a < 5" "a = 0 \<Longrightarrow> 16 \<le> b" "a = 4 \<Longrightarrow> b < 16"
          using False c(1) 1(1,2) 2(1,2) 3(1,2) by linarith+
        ultimately show ?thesis using decode_char_4 [OF _ 3(2) 2(2) 1(2), of a bs] 1(1) 2(1) 3(1) by simp
      qed
    qed
  qed (simp add: utf8_char_def decode_char_def)
qed

lemma utf8_char_tail: "\<exists>b t. utf8_char c = b # t \<and> list_all continuation t"
  by (auto simp: utf8_char_def continuation_def)

lemma decode_ignore_Nil [simp]: "decode_ignore [] = []"
  by (simp add: decode_ignore.simps)

lemma decode_ignore_utf8: "code_point c \<Longrightarrow> decode_ignore (utf8_char c @ bs) = c # decode_ignore bs"
  using decode_char_utf8 [of c bs] utf8_char_tail [of c]
  by (subst decode_ignore.simps) (auto split: list.splits)

lemma decode_char_continuation: "continuation b \<Longrightarrow> decode_char (b # bs) = None"
  by (auto simp: decode_char_def continuation_def)

lemma decode_ignore_continuations: "list_all continuation t \<Longrightarrow> decode_ignore (t @ bs) = decode_ignore bs"
  by (induction t) (simp_all add: decode_ignore.simps [of "_ # _"] decode_char_continuation)

lemma utf8_char_cases:
  obtains "utf8_char c = [c]" | a d where "utf8_char c = [192 + a, d]" "a < 32"
  | a b d where "utf8_char c = [224 + a, b, d]" "a < 16" | a b e d where "utf8_char c = [240 + a, b, e, d]"
proof -
  have "c div 64 < 32" if "c < 2048" using that by auto
  moreover have "c div 4096 < 16" if "c < 65536" using that by auto
  ultimately show ?thesis using that unfolding utf8_char_def by (metis (full_types))
qed

lemma decode_char_short:
  "a < 32 \<Longrightarrow> decode_char [192 + a] = None"
  "a < 16 \<Longrightarrow> decode_char [224 + a] = None" "a < 16 \<Longrightarrow> decode_char [224 + a, b] = None"
  "decode_char [240 + a] = None" "decode_char [240 + a, b] = None" "decode_char [240 + a, b, e] = None"
  by (simp_all add: decode_char_def)

lemma decode_char_Nil [simp]: "decode_char [] = None"
  by (simp add: decode_char_def)

lemma decode_char_cut:
  assumes "n < length (utf8_char c)"
  shows "decode_char (take n (utf8_char c)) = None"
proof -
  have "n = 0 \<or> n = 1 \<or> n = 2 \<or> n = 3"
    using assms length_utf8_char_le [of c] by linarith
  with assms show ?thesis
    by (cases rule: utf8_char_cases [of c]) (auto simp: take_Cons' decode_char_short)
qed

lemma decode_ignore_cut:
  assumes "n < length (utf8_char c)"
  shows "decode_ignore (take n (utf8_char c)) = []"
proof (cases n)
  case (Suc m)
  obtain b t where bt: "utf8_char c = b # t" "list_all continuation t" using utf8_char_tail by blast
  have "list_all continuation (take m t)" using bt(2) by (auto simp: list_all_iff dest: in_set_takeD)
  from decode_ignore_continuations [OF this, of "[]"] decode_char_cut [OF assms] show ?thesis
    by (simp add: Suc bt(1) decode_ignore.simps [of "_ # _"])
qed simp

lemma utf8_bytes_Cons: "utf8_bytes (c # s) = utf8_char c @ utf8_bytes s"
  by (simp add: utf8_bytes_def)

lemma decode_take: "code_points s \<Longrightarrow> prefix (decode_ignore (take n (utf8_bytes s))) s"
proof (induction s arbitrary: n)
  case (Cons c s)
  show ?case
  proof (cases "n < length (utf8_char c)")
    case True
    then show ?thesis by (simp add: utf8_bytes_Cons decode_ignore_cut)
  next
    case False
    with Cons show ?thesis by (simp add: utf8_bytes_Cons decode_ignore_utf8)
  qed
qed (simp add: utf8_bytes_def)

lemma decode_all: "code_points s \<Longrightarrow> decode_ignore (utf8_bytes s) = s"
  by (induction s) (simp_all add: utf8_bytes_Cons decode_ignore_utf8 utf8_bytes_def [of "[]"])

lemma decode_drop: "code_points s \<Longrightarrow> suffix (decode_ignore (drop n (utf8_bytes s))) s"
proof (induction s arbitrary: n)
  case (Cons c s)
  consider "n = 0" | "0 < n" "n < length (utf8_char c)" | "length (utf8_char c) \<le> n" by linarith
  then show ?case
  proof cases
    case 1
    with Cons.prems decode_all [of "c # s"] show ?thesis by simp
  next
    case 2
    obtain b t where bt: "utf8_char c = b # t" "list_all continuation t" using utf8_char_tail by blast
    obtain m where "n = Suc m" using 2(1) by (cases n) auto
    moreover have "list_all continuation (drop m t)" using bt(2) by (auto simp: list_all_iff dest: in_set_dropD)
    ultimately have "decode_ignore (drop n (utf8_bytes (c # s))) = s"
      using 2(2) bt(1) Cons.prems by (simp add: utf8_bytes_Cons decode_ignore_continuations decode_all)
    then show ?thesis by (simp add: suffix_ConsI)
  next
    case 3
    with Cons show ?thesis by (auto simp: utf8_bytes_Cons intro: suffix_ConsI)
  qed
qed (simp add: utf8_bytes_def)

section \<open>Bounds\<close>

lemma length_last_items: "length (last_items n xs) \<le> (if n = 0 then length xs else n)"
  by (simp add: last_items_def) arith

lemma project_by_chars:
  assumes "project_query_by_chars query mc = (bounded, input)"
  shows "bounded = [] \<or> int (length bounded) \<le> mc"
    and "if int (length query) \<le> mc then bounded = query \<and> input = query
      else bounded = [] \<and> input = [] \<or>
        (\<exists>h t. bounded = h @ QUERY_OMISSION_MARKER @ t \<and> input = h @ t \<and> prefix h query \<and> suffix t query)"
proof -
  let ?a = "mc - int (length QUERY_OMISSION_MARKER)"
  let ?h = "nat ((?a + 1) div 2)"
  let ?t = "nat ?a - ?h"
  consider (fits) "int (length query) \<le> mc" | (small) "mc < int (length query)" "?a < 2"
    | (cut) "mc < int (length query)" "2 \<le> ?a" by linarith
  then have "(bounded = [] \<or> int (length bounded) \<le> mc) \<and>
    (if int (length query) \<le> mc then bounded = query \<and> input = query
      else bounded = [] \<and> input = [] \<or>
        (\<exists>h t. bounded = h @ QUERY_OMISSION_MARKER @ t \<and> input = h @ t \<and> prefix h query \<and> suffix t query))"
  proof cases
    case fits
    with assms show ?thesis by (auto simp: project_query_by_chars_def)
  next
    case small
    with assms show ?thesis by (simp add: project_query_by_chars_def)
  next
    case cut
    then have p: "bounded = take ?h query @ QUERY_OMISSION_MARKER @ last_items ?t query"
      "input = take ?h query @ last_items ?t query"
      using assms by (simp_all add: project_query_by_chars_def Let_def)
    have t: "0 < ?t" "?h + ?t = nat ?a" using cut(2) by linarith+
    have "int (length bounded) \<le> int ?h + int (length QUERY_OMISSION_MARKER) + int ?t"
    proof -
      have "length (last_items ?t query) \<le> ?t" using t(1) length_last_items [of ?t query] by (simp only: split: if_splits)
      moreover have "length (take ?h query) \<le> ?h" by simp
      ultimately show ?thesis unfolding p(1) length_append of_nat_add by linarith
    qed
    also have "\<dots> = mc" using t(2) cut(2) by linarith
    finally have "int (length bounded) \<le> mc" .
    moreover have "suffix (last_items ?t query) query" by (simp add: last_items_def suffix_drop)
    ultimately show ?thesis using cut(1) p take_is_prefix by auto
  qed
  then show "bounded = [] \<or> int (length bounded) \<le> mc"
    and "if int (length query) \<le> mc then bounded = query \<and> input = query
      else bounded = [] \<and> input = [] \<or>
        (\<exists>h t. bounded = h @ QUERY_OMISSION_MARKER @ t \<and> input = h @ t \<and> prefix h query \<and> suffix t query)"
    by blast+
qed

lemma shrink_query_result:
  "shrink_query tk toks mc mt n = [] \<or>
   (int (length (shrink_query tk toks mc mt n)) \<le> mc \<and>
    int (length (encode_query tk (shrink_query tk toks mc mt n))) \<le> mt \<and>
    (\<exists>k. shrink_query tk toks mc mt n = candidate_query tk toks k))"
proof (induction tk toks mc mt n rule: shrink_query.induct)
  case (1 tk toks mc mt n)
  let ?c = "candidate_query tk toks n"
  show ?case
  proof (cases "n < 2")
    case False
    show ?thesis
    proof (cases "int (length ?c) \<le> mc \<and> int (length (encode_query tk ?c)) \<le> mt")
      case True
      with False have "shrink_query tk toks mc mt n = ?c" by (simp add: shrink_query.simps [of tk toks mc mt n])
      with True show ?thesis by metis
    next
      case exceeds: False
      with False have "shrink_query tk toks mc mt n = shrink_query tk toks mc mt
          (n - token_reduction n (int (length (encode_query tk ?c))) mt (int (length ?c)) mc)"
        by (subst shrink_query.simps) (simp only: Let_def if_False)
      with "1.IH" [OF False refl refl exceeds] show ?thesis by simp
    qed
  qed (simp add: shrink_query.simps)
qed

lemma project_query_cases:
  assumes "project_query tk (PStr s) (PInt mc) (PInt mt) = Inr r"
  obtains (empty) "r = []"
    | (chars) input where "strip_envelopes s \<noteq> []" "project_query_by_chars (strip_envelopes s) mc = (r, input)"
        "int (length (encode_query tk r)) \<le> mt"
    | (tokens) bounded input where "project_query_by_chars (strip_envelopes s) mc = (bounded, input)"
        "r = project_query_by_tokens tk input mc mt" "mt < int (length (encode_query tk bounded))" "bounded \<noteq> []"
proof -
  obtain bounded input where p: "project_query_by_chars (strip_envelopes s) mc = (bounded, input)" by force
  from assms have mc: "positive_limit (PInt mc) = Some mc" "positive_limit (PInt mt) = Some mt"
    by (auto simp: project_query_def positive_limit_def split: if_splits)
  show ?thesis
  proof (cases "strip_envelopes s = []")
    case True
    with assms mc show ?thesis by (intro empty) (simp add: project_query_def)
  next
    case False
    with assms mc p have r: "r = (if bounded = [] \<or> int (length (encode_query tk bounded)) \<le> mt then bounded
        else project_query_by_tokens tk input mc mt)"
      by (auto simp: project_query_def split: if_splits)
    show ?thesis
    proof (cases "bounded = []")
      case True
      with r show ?thesis by (intro empty) simp
    next
      case nonempty: False
      show ?thesis
      proof (cases "int (length (encode_query tk bounded)) \<le> mt")
        case True
        with r p False show ?thesis by (intro chars) simp_all
      next
        case False
        with r nonempty show ?thesis by (intro tokens [OF p]) simp_all
      qed
    qed
  qed
qed

lemma project_by_tokens:
  "project_query_by_tokens tk input mc mt = [] \<or>
   (int (length (project_query_by_tokens tk input mc mt)) \<le> mc \<and>
    int (length (encode_query tk (project_query_by_tokens tk input mc mt))) \<le> mt \<and>
    (\<exists>k. project_query_by_tokens tk input mc mt = candidate_query tk (encode_query tk input) k))"
  using shrink_query_result unfolding project_query_by_tokens_def Let_def by (simp split: if_split)

lemma projection_limits:
  "case project_query tk (PStr s) (PInt mc) (PInt mt) of
     Inl e \<Rightarrow> mc \<le> 0 \<or> mt \<le> 0
   | Inr r \<Rightarrow> r = [] \<or> int (length r) \<le> mc \<and> int (length (encode tk r)) \<le> mt"
proof (cases "project_query tk (PStr s) (PInt mc) (PInt mt)")
  case (Inl e)
  have "0 < mc \<Longrightarrow> 0 < mt \<Longrightarrow> \<exists>r. project_query tk (PStr s) (PInt mc) (PInt mt) = Inr r"
    by (auto simp: project_query_def positive_limit_def Let_def split: prod.split)
  with Inl show ?thesis by fastforce
next
  case (Inr r)
  then have "r = [] \<or> int (length r) \<le> mc \<and> int (length (encode_query tk r)) \<le> mt"
  proof (cases rule: project_query_cases)
    case (chars input)
    then show ?thesis using project_by_chars(1) by blast
  next
    case (tokens bounded input)
    then show ?thesis using project_by_tokens [of tk input mc mt] by auto
  qed simp
  with Inr show ?thesis by (simp add: encode_query_def)
qed

text \<open>
  C28. A projected query obeys both limits: whatever the tokenizer answers, the result is empty or has
  at most the permitted characters and, recounted as the server counts, at most the permitted tokens;
  the function always returns one for text and positive limits.
\<close>

theorem projected_query_bounded:
  "case project_query tk (PStr s) (PInt mc) (PInt mt) of
     Inl e \<Rightarrow> mc \<le> 0 \<or> mt \<le> 0
   | Inr r \<Rightarrow> r = [] \<or> int (length r) \<le> mc \<and> int (length (encode tk r)) \<le> mt"
  by (rule projection_limits)

section \<open>Head and tail\<close>

text \<open>The documented law of the tokenizer: the bytes of the tokens of a text are the text's bytes.\<close>

definition lossless :: "tokenizer \<Rightarrow> bool" where
  "lossless tk \<longleftrightarrow> (\<forall>s. code_points s \<longrightarrow> concat (map (token_bytes tk) (encode tk s)) = utf8_bytes s)"

lemma take_tokens: "\<exists>m. concat (map f (take n xs)) = take m (concat (map f xs))"
  by (metis append_eq_conv_conj append_take_drop_id concat_append map_append)

lemma last_tokens: "\<exists>m. concat (map f (last_items n xs)) = drop m (concat (map f xs))"
proof (cases "n = 0")
  case False
  then show ?thesis
    by (metis append_eq_conv_conj append_take_drop_id concat_append last_items_def map_append)
qed (auto simp: last_items_def intro: exI [of _ 0])

lemma candidate_head_tail:
  assumes "lossless tk" and "code_points s"
  shows "\<exists>h t. candidate_query tk (encode_query tk s) k = h @ QUERY_OMISSION_MARKER @ t \<and> prefix h s \<and> suffix t s"
proof -
  have b: "concat (map (token_bytes tk) (encode_query tk s)) = utf8_bytes s"
    using assms by (simp add: lossless_def encode_query_def)
  have "prefix (decode_query_tokens tk (take n (encode_query tk s))) s" for n
    using take_tokens [of "token_bytes tk" n "encode_query tk s"] decode_take [OF assms(2)]
    by (auto simp: decode_query_tokens_def b)
  moreover have "suffix (decode_query_tokens tk (last_items n (encode_query tk s))) s" for n
    using last_tokens [of "token_bytes tk" n "encode_query tk s"] decode_drop [OF assms(2)]
    by (auto simp: decode_query_tokens_def b)
  ultimately show ?thesis unfolding candidate_query_def Let_def by blast
qed

text \<open>
  With a lossless tokenizer a projected query is empty, or the whole text without its memory
  envelopes when that fits both limits, or a head and a tail around the omission marker. They are a
  head and a tail of the stripped text where it has at most the permitted characters or where the
  character cut alone is enough; otherwise they are taken from the text that the character cut leaves,
  its head and tail joined.
\<close>

theorem projected_query_head_and_tail:
  assumes "lossless tk" and "code_points (strip_envelopes s)"
    and "project_query tk (PStr s) (PInt mc) (PInt mt) = Inr r" and "r \<noteq> []"
  shows "if int (length (strip_envelopes s)) \<le> mc \<and> int (length (encode tk (strip_envelopes s))) \<le> mt
    then r = strip_envelopes s
    else \<exists>h t source. r = h @ QUERY_OMISSION_MARKER @ t \<and> prefix h source \<and> suffix t source \<and>
      (source = strip_envelopes s \<or>
       mc < int (length (strip_envelopes s)) \<and>
       (\<exists>h' t'. source = h' @ t' \<and> prefix h' (strip_envelopes s) \<and> suffix t' (strip_envelopes s)))"
  using assms(3)
proof (cases rule: project_query_cases)
  case (chars input)
  from project_by_chars(2) [OF chars(2)] show ?thesis
    using assms(4) chars(3) by (auto simp: encode_query_def split: if_splits)
next
  case (tokens bounded input)
  let ?s = "strip_envelopes s"
  obtain k where k: "r = candidate_query tk (encode_query tk input) k"
    using project_by_tokens [of tk input mc mt] tokens(2) assms(4) by auto
  consider "bounded = ?s" "input = ?s" "int (length ?s) \<le> mc"
    | h t where "input = h @ t" "prefix h ?s" "suffix t ?s" "mc < int (length ?s)"
    using project_by_chars(2) [OF tokens(1)] tokens(4) by (auto split: if_splits)
  then show ?thesis
  proof cases
    case 1
    with tokens(3) candidate_head_tail [OF assms(1,2), of k] k show ?thesis by (auto simp: encode_query_def)
  next
    case (2 h t)
    then have "code_points input" using assms(2)
      by (auto simp: list_all_iff dest!: set_mono_prefix set_mono_suffix)
    from candidate_head_tail [OF assms(1) this, of k] k obtain a b where
      "r = a @ QUERY_OMISSION_MARKER @ b" "prefix a input" "suffix b input" by blast
    with 2 show ?thesis by (simp only: not_le [symmetric] if_False simp_thms) blast
  qed
qed (use assms(4) in simp)


text \<open>A tokenizer with one token per byte is lossless.\<close>

definition byte_tokenizer :: tokenizer where
  "byte_tokenizer = \<lparr>encode = utf8_bytes, token_bytes = (\<lambda>t. [t])\<rparr>"

lemma byte_tokenizer_lossless: "lossless byte_tokenizer"
  by (simp add: lossless_def byte_tokenizer_def concat_map_singleton)

lemma no_envelope: "\<not> list_ex (\<lambda>c. c = 60 \<or> c = 91) s \<Longrightarrow> strip_envelopes s = s"
proof -
  assume s: "\<not> list_ex (\<lambda>c. c = 60 \<or> c = 91) s"
  have "strip_blocks e s = s" for e
  proof (cases "cut_first (envelope_begin e) s")
    case (Some x)
    obtain pre inner where x: "x = (pre, inner)" by force
    have "\<exists>c \<in> set (envelope_begin e). c = 60 \<or> c = 91"
      by (cases e) (simp_all add: CONTEXT_BEGIN_MARKER_def LEGACY_CONTEXT_BEGIN_MARKER_def lit_def)
    with cut_first_Some [OF Some [unfolded x]] s show ?thesis by (auto simp: list_ex_iff)
  qed (simp add: strip_blocks.simps)
  then show ?thesis by (simp add: strip_envelopes_def)
qed

text \<open>
  The character cut joins the head and the tail before the token cut, so text from the tail may follow
  the head with no marker between them: of ten letters a, forty letters b and ten emoji, the projection
  keeps the letters a directly followed by two emoji, as if the letters b had not been there.
\<close>

definition spliced_query :: ustr where
  "spliced_query = replicate 10 97 @ replicate 40 98 @ replicate 10 128512"

lemma projection_splices_silently:
  "project_query byte_tokenizer (PStr spliced_query) (PInt 52) (PInt 72) =
     Inr (replicate 10 97 @ replicate 2 128512 @ QUERY_OMISSION_MARKER @ replicate 5 128512)"
proof -
  have "strip_envelopes spliced_query = spliced_query"
    by (rule no_envelope) (simp add: spliced_query_def list_ex_iff)
  moreover have "shrink_query byte_tokenizer (utf8_bytes (replicate 10 97 @ replicate 10 128512)) 52 72 40 =
      replicate 10 97 @ replicate 2 128512 @ QUERY_OMISSION_MARKER @ replicate 5 128512"
    by code_simp
  moreover have "project_query_by_chars spliced_query 52 =
      (replicate 10 97 @ QUERY_OMISSION_MARKER @ replicate 10 128512, replicate 10 97 @ replicate 10 128512)"
    by code_simp
  moreover have "length (utf8_bytes (replicate 10 97 @ replicate 10 128512)) = 50"
    "length (utf8_bytes QUERY_OMISSION_MARKER) = 32" "length QUERY_OMISSION_MARKER = 32"
    "length (utf8_bytes (replicate 10 97 @ QUERY_OMISSION_MARKER @ replicate 10 128512)) = 82"
    by code_simp+
  ultimately show ?thesis
    by (simp add: project_query_def positive_limit_def encode_query_def byte_tokenizer_def
        project_query_by_tokens_def Let_def spliced_query_def)
qed

theorem projected_query_head_and_tail_witness:
  "project_query byte_tokenizer (PStr [97, 97]) (PInt 9) (PInt 9) = Inr [97, 97]"
proof -
  have s: "strip_envelopes [97, 97] = [97, 97]"
    by (rule no_envelope) simp
  have "project_query_by_chars [97, 97] 9 = ([97, 97], [97, 97])" "length (utf8_bytes [97, 97]) = 2" by code_simp+
  with s obtain r where r: "project_query byte_tokenizer (PStr [97, 97]) (PInt 9) (PInt 9) = Inr r" "r \<noteq> []"
    by (auto simp: project_query_def positive_limit_def byte_tokenizer_def encode_query_def)
  moreover have "code_points (strip_envelopes [97, 97])"
    by (simp add: s code_point_def surrogate_def)
  ultimately show ?thesis
    using projected_query_head_and_tail [OF byte_tokenizer_lossless _ r(1) r(2)] \<open>length (utf8_bytes [97, 97]) = 2\<close>
    by (simp add: s byte_tokenizer_def)
qed

end
