(* ===== verification/EvidenceTheorems.thy ===== *)
theory EvidenceTheorems
  imports Evidence
begin

text \<open>
  The envelope stays within its budget, its lines cannot be mistaken for its frame, the records are the
  results in their order, and a cut record keeps the longest prefix that fits.

  The code escapes the markers one after the other with \<open>str.replace\<close>. \<open>scan\<close> does it
  in one pass; that both agree is what makes the size of a line monotone in its text, and the
  bisection exact.
\<close>

section \<open>Escaping in one pass\<close>

definition marker :: "ustr \<Rightarrow> bool" where
  "marker p \<longleftrightarrow> p \<noteq> [] \<and> hd p = 91 \<and> 91 \<notin> set (tl p) \<and> 92 \<notin> set (tl p)"

definition marked :: "ustr set \<Rightarrow> ustr \<Rightarrow> bool" where
  "marked P s \<longleftrightarrow> (\<exists>p \<in> P. prefix p s)"

fun scan :: "(nat \<Rightarrow> ustr) \<Rightarrow> ustr set \<Rightarrow> ustr \<Rightarrow> ustr" where
  "scan f P [] = []"
| "scan f P (c # s) = (if marked P (c # s) then escaped_bracket else f c) @ scan f P s"

lemma markerE: "marker p \<Longrightarrow> (\<And>x. p = 91 # x \<Longrightarrow> 91 \<notin> set x \<Longrightarrow> 92 \<notin> set x \<Longrightarrow> Q) \<Longrightarrow> Q"
  by (cases p) (auto simp: marker_def)

lemma markedD: "marked P (c # s) \<Longrightarrow> \<forall>p \<in> P. marker p \<Longrightarrow> c = 91"
  by (auto simp: marked_def marker_def dest!: bspec) (metis hd_append2 list.sel(1) prefix_def)

lemma escaped_bracket_chars [simp]: "91 \<notin> set escaped_bracket" "escaped_bracket \<noteq> []" "hd escaped_bracket = 92"
  by (simp_all add: escaped_bracket_def lit_def)

lemma scan_plain: "91 \<notin> set x \<Longrightarrow> \<forall>p \<in> P. marker p \<Longrightarrow> scan (\<lambda>c. [c]) P (x @ s) = x @ scan (\<lambda>c. [c]) P s"
  by (induction x) (auto dest: markedD)

lemma prefix_scan:
  assumes "91 \<notin> set x" and "92 \<notin> set x" and "\<forall>p \<in> P. marker p" and "\<And>c. f c = [c] \<or> f c \<noteq> [] \<and> hd (f c) = 92"
  shows "prefix x (scan f P s) \<Longrightarrow> prefix x s"
  using assms(1,2)
proof (induction s arbitrary: x)
  case (Cons c s)
  show ?case
  proof (cases x)
    case (Cons a x')
    then have a: "a \<noteq> 91" "a \<noteq> 92" "91 \<notin> set x'" "92 \<notin> set x'" using Cons.prems(2,3) by auto
    show ?thesis
    proof (cases "marked P (c # s) \<or> f c \<noteq> [c]")
      case True
      then have "\<exists>y. (if marked P (c # s) then escaped_bracket else f c) = 92 # y"
        using assms(4) [of c] by (cases "f c") (auto simp: escaped_bracket_def)
      then obtain y where "(if marked P (c # s) then escaped_bracket else f c) = 92 # y" ..
      then have "scan f P (c # s) = 92 # y @ scan f P s" by simp
      with Cons.prems(1) Cons a show ?thesis by simp
    next
      case False
      with Cons.prems(1) Cons Cons.IH [OF _ a(3,4)] show ?thesis by simp
    qed
  qed simp
qed simp

lemma replace_all_skip:
  "\<forall>c \<in> set y. c \<noteq> 91 \<Longrightarrow> replace_all (91 # x) r (y @ z) = y @ replace_all (91 # x) r z"
  by (induction y) auto

lemma replace_scan:
  assumes "marker p" and "\<forall>q \<in> P. marker q"
  shows "replace_all p (escaped_bracket @ tl p) (scan (\<lambda>c. [c]) P s) = scan (\<lambda>c. [c]) (insert p P) s"
proof (induction "length s" arbitrary: s rule: less_induct)
  case less
  obtain x where p: "p = 91 # x" "91 \<notin> set x" "92 \<notin> set x" using assms(1) by (rule markerE)
  show ?case
  proof (cases s)
    case (Cons c s')
    show ?thesis
    proof (cases "marked P s")
      case True
      then have "marked (insert p P) s" by (simp add: marked_def)
      moreover have "\<forall>c \<in> set escaped_bracket. c \<noteq> 91" using escaped_bracket_chars(1) by blast
      note skip = replace_all_skip [OF this]
      ultimately show ?thesis using True Cons less [of s'] by (simp add: p(1) skip)
    next
      case unmarked: False
      have prefix: "prefix p (c # scan (\<lambda>c. [c]) P s') \<longleftrightarrow> prefix p s"
        using prefix_scan [OF p(2,3) assms(2), of "\<lambda>c. [c]" s'] scan_plain [OF p(2) assms(2)]
        by (auto simp: p(1) Cons prefix_def)
      show ?thesis
      proof (cases "prefix p s")
        case True
        then obtain s'' where s'': "s' = x @ s''" "c = 91" by (auto simp: p(1) Cons prefix_def)
        have "replace_all p (escaped_bracket @ tl p) (scan (\<lambda>c. [c]) P s) =
            (escaped_bracket @ x) @ replace_all p (escaped_bracket @ tl p) (scan (\<lambda>c. [c]) P s'')"
          using unmarked prefix True scan_plain [OF p(2) assms(2), of s'']
          by (simp add: Cons p(1) s'')
        also have "\<dots> = escaped_bracket @ x @ scan (\<lambda>c. [c]) (insert p P) s''"
          using less [of s''] by (simp add: Cons s'')
        also have "\<dots> = scan (\<lambda>c. [c]) (insert p P) s"
          using True scan_plain [OF p(2), of "insert p P" s''] assms by (simp add: Cons s'' marked_def)
        finally show ?thesis .
      next
        case False
        then have "\<not> marked (insert p P) s" using unmarked by (simp add: marked_def)
        with unmarked False prefix less [of s'] show ?thesis by (simp add: Cons)
      qed
    qed
  qed simp
qed

lemma scan_none: "scan (\<lambda>c. [c]) {} s = s"
  by (induction s) (simp_all add: marked_def)

definition separator_escape :: "nat \<Rightarrow> ustr" where
  "separator_escape c =
     (if c = 133 then 92 # lit ''u0085'' else if c = 8232 then 92 # lit ''u2028''
      else if c = 8233 then 92 # lit ''u2029'' else [c])"

lemma replace_one: "replace_all [c] r s = concat (map (\<lambda>a. if a = c then r else [a]) s)"
  by (induction s) auto

lemma concat_map_comp: "concat (map g (concat (map f s))) = concat (map (\<lambda>a. concat (map g (f a))) s)"
  by (induction s) auto

lemma separators_escaped:
  "foldl (\<lambda>s (separator, escaped). replace_all separator escaped s) s UNICODE_SEPARATORS =
     concat (map separator_escape s)"
  unfolding UNICODE_SEPARATORS_def foldl.simps prod.case replace_one concat_map_comp
  by (rule arg_cong [where f = concat], rule map_cong) (simp_all add: separator_escape_def lit_def)

lemma scan_separators:
  "concat (map separator_escape (scan (\<lambda>c. [c]) P s)) = scan separator_escape P s"
proof (induction s)
  case (Cons c s)
  have "concat (map separator_escape escaped_bracket) = escaped_bracket"
    by (simp add: escaped_bracket_def separator_escape_def lit_def)
  with Cons show ?case by simp
qed simp

lemma context_markers: "\<forall>p \<in> set CONTEXT_MARKERS. marker p"
  by (simp add: CONTEXT_MARKERS_def marker_def CONTEXT_BEGIN_MARKER_def CONTEXT_SUFFIX_def
      LEGACY_CONTEXT_BEGIN_MARKER_def LEGACY_CONTEXT_SUFFIX_def lit_def)

lemma serialize_scan:
  "serialize_record ev = scan separator_escape (set CONTEXT_MARKERS) (dumps (evidence_json ev))"
proof -
  let ?m = "[CONTEXT_BEGIN_MARKER, CONTEXT_SUFFIX, LEGACY_CONTEXT_BEGIN_MARKER, LEGACY_CONTEXT_SUFFIX]"
  have m: "marker CONTEXT_BEGIN_MARKER" "marker CONTEXT_SUFFIX" "marker LEGACY_CONTEXT_BEGIN_MARKER"
    "marker LEGACY_CONTEXT_SUFFIX"
    using context_markers by (simp_all add: CONTEXT_MARKERS_def)
  have "foldl (\<lambda>s p. replace_all p (escaped_bracket @ tl p) s) s ?m =
      scan (\<lambda>c. [c]) {LEGACY_CONTEXT_SUFFIX, LEGACY_CONTEXT_BEGIN_MARKER, CONTEXT_SUFFIX, CONTEXT_BEGIN_MARKER} s" for s
    using replace_scan [OF m(1), of "{}" s] replace_scan [OF m(2), of "{CONTEXT_BEGIN_MARKER}" s]
      replace_scan [OF m(3), of "{CONTEXT_SUFFIX, CONTEXT_BEGIN_MARKER}" s]
      replace_scan [OF m(4), of "{LEGACY_CONTEXT_BEGIN_MARKER, CONTEXT_SUFFIX, CONTEXT_BEGIN_MARKER}" s] m
    by (simp add: scan_none)
  moreover have "set CONTEXT_MARKERS =
      {LEGACY_CONTEXT_SUFFIX, LEGACY_CONTEXT_BEGIN_MARKER, CONTEXT_SUFFIX, CONTEXT_BEGIN_MARKER}"
    by (auto simp: CONTEXT_MARKERS_def)
  ultimately show ?thesis
    by (simp only: serialize_record_def Let_def separators_escaped scan_separators CONTEXT_MARKERS_def)
qed


section \<open>What a line cannot contain\<close>

lemma sublist_skip: "91 \<notin> set y \<Longrightarrow> sublist (91 # x) (y @ z) \<Longrightarrow> sublist (91 # x) z"
  by (induction y) (auto simp: sublist_Cons_right)

lemma scan_no_marker:
  assumes "\<forall>p \<in> P. marker p" and "p \<in> P" and "\<And>c. f c = [c] \<or> f c \<noteq> [] \<and> hd (f c) = 92 \<and> 91 \<notin> set (f c)"
  shows "\<not> sublist p (scan f P s)"
proof -
  obtain x where p: "p = 91 # x" "91 \<notin> set x" "92 \<notin> set x" using assms(1,2) by (blast elim: markerE)
  have f: "\<And>c. f c = [c] \<or> f c \<noteq> [] \<and> hd (f c) = 92" using assms(3) by blast
  show ?thesis
  proof (induction s)
    case (Cons c s)
    show ?case
    proof
      assume sub: "sublist p (scan f P (c # s))"
      show False
      proof (cases "marked P (c # s) \<or> 91 \<notin> set (f c)")
        case True
        then have "91 \<notin> set (if marked P (c # s) then escaped_bracket else f c)" by auto
        with sub Cons show False using sublist_skip [of _ x] by (simp only: scan.simps p(1)) blast
      next
        case False
        then have c: "f c = [c]" "c = 91" "\<not> marked P (c # s)" using assms(3) [of c] by auto
        with sub Cons have "prefix x (scan f P s)" by (simp add: p(1) sublist_Cons_right)
        then have "prefix p (c # s)" using prefix_scan [OF p(2,3) assms(1) f] by (simp add: p(1) c(2))
        with c(3) assms(2) show False by (auto simp: marked_def)
      qed
    qed
  qed (simp add: p(1))
qed

lemma separator_escape_cases:
  "separator_escape c = [c] \<or> separator_escape c \<noteq> [] \<and> hd (separator_escape c) = 92 \<and> 91 \<notin> set (separator_escape c)"
  by (simp add: separator_escape_def lit_def)

text \<open>The characters at which \<open>str.splitlines\<close> breaks a line.\<close>

definition line_break :: "nat \<Rightarrow> bool" where
  "line_break c \<longleftrightarrow> c \<in> {10, 11, 12, 13, 28, 29, 30, 133, 8232, 8233}"

lemma escape_printable: "c \<in> set (escape s) \<Longrightarrow> 32 \<le> c"
proof -
  have "32 \<le> c" if "c \<in> set (escape_char a)" for a
    using that by (auto simp: escape_char_def hex_digit_def split: if_splits)
  then show "c \<in> set (escape s) \<Longrightarrow> 32 \<le> c" by (auto simp: escape_def)
qed

lemma quote_printable: "c \<in> set (quote_str s) \<Longrightarrow> 32 \<le> c"
  using escape_printable [of c s] by (auto simp: quote_str_def)

lemma decimal_printable: "c \<in> set (decimal n) \<Longrightarrow> 32 \<le> c"
proof (induction n rule: decimal.induct)
  case (1 n)
  then show ?case by (cases "n < 10") (auto simp: decimal.simps [of n])
qed

lemma set_join: "set (join sep xs) \<subseteq> set sep \<union> \<Union> (set ` set xs)"
  by (induction sep xs rule: join.induct) auto

lemma dumps_printable: "c \<in> set (dumps j) \<Longrightarrow> 32 \<le> c"
proof (induction j rule: dumps.induct)
  case (2 b)
  then show ?case by (auto simp: lit_def split: if_splits)
next
  case (3 i)
  then show ?case by (auto simp: show_int_def dest: decimal_printable split: if_splits)
next
  case (4 s)
  then show ?case by (simp add: quote_printable)
next
  case (5 xs)
  then show ?case using set_join [of "[44]" "map dumps xs"] by auto
next
  case (6 kvs)
  let ?items = "map render_item (sort_key fst (map (\<lambda>(k, v). (k, dumps v)) kvs))"
  have "32 \<le> c" if "c \<in> \<Union> (set ` set ?items)"
    using that 6(1) by (fastforce simp: render_item_def dest: quote_printable)
  moreover have "set (dumps (JObj kvs)) \<subseteq> {123, 44, 125} \<union> \<Union> (set ` set ?items)"
    unfolding dumps.simps(6) set_append list.set using set_join [of "[44]" ?items] by auto
  ultimately show ?case using 6(2) by fastforce
qed (auto simp: lit_def)

lemma scan_chars: "c \<in> set (scan f P s) \<Longrightarrow> c \<in> set escaped_bracket \<or> (\<exists>a \<in> set s. c \<in> set (f a))"
  by (induction s) (auto split: if_splits)

lemma serialized_line:
  "\<not> list_ex line_break (serialize_record ev)"
  "p \<in> set CONTEXT_MARKERS \<Longrightarrow> \<not> sublist p (serialize_record ev)"
proof -
  have "\<not> line_break c" if "c \<in> set (serialize_record ev)" for c
  proof -
    from that consider "c \<in> set escaped_bracket"
      | a where "a \<in> set (dumps (evidence_json ev))" "c \<in> set (separator_escape a)"
      unfolding serialize_scan by (blast dest: scan_chars)
    then show ?thesis
    proof cases
      case 1
      then show ?thesis by (auto simp: escaped_bracket_def lit_def line_break_def)
    next
      case (2 a)
      then show ?thesis using dumps_printable [of a]
        by (auto simp: separator_escape_def lit_def line_break_def split: if_splits)
    qed
  qed
  then show "\<not> list_ex line_break (serialize_record ev)" by (auto simp: list_ex_iff)
  show "p \<in> set CONTEXT_MARKERS \<Longrightarrow> \<not> sublist p (serialize_record ev)"
    unfolding serialize_scan by (rule scan_no_marker [OF context_markers _ separator_escape_cases])
qed

section \<open>Sizes of truncated records\<close>

lemma utf8_len_scan_mono:
  assumes "\<forall>p \<in> P. marker p" and "f 91 = [91]"
  shows "utf8_len (scan f P xs) \<le> utf8_len (scan f P (xs @ ys))"
proof (induction xs)
  case (Cons c xs)
  have "utf8_len (if marked P (c # xs) then escaped_bracket else f c) \<le>
      utf8_len (if marked P (c # xs @ ys) then escaped_bracket else f c)"
  proof (cases "marked P (c # xs @ ys)")
    case True
    then have "c = 91" using assms(1) by (rule markedD)
    then show ?thesis using True assms(2) by (simp add: escaped_bracket_def lit_def utf8_char_def)
  next
    case False
    then have "\<not> marked P (c # xs)" by (metis append_Cons marked_def prefix_prefix)
    with False show ?thesis by simp
  qed
  with Cons show ?case by (simp add: add_mono)
qed simp

lemma prefix_barrier: "z \<notin> set p \<Longrightarrow> prefix p (u @ z # zs) \<longleftrightarrow> prefix p u"
proof (induction u arbitrary: p)
  case Nil
  then show ?case by (cases p) auto
next
  case (Cons a u)
  then show ?case by (cases p) auto
qed

lemma scan_barrier: "\<forall>p \<in> P. z \<notin> set p \<Longrightarrow> scan f P (xs @ z # zs) = scan f P xs @ scan f P (z # zs)"
proof (induction xs)
  case (Cons c xs)
  have "marked P (c # xs @ z # zs) = marked P (c # xs)"
    using Cons.prems prefix_barrier [of z _ "c # xs" zs] by (auto simp: marked_def)
  with Cons show ?case by (simp del: scan.simps(2) add: scan.simps(2) [of f P c])
qed simp

lemma join_hole: "\<exists>A B. \<forall>y. join sep (xs @ y # zs) = A @ y @ B"
proof (induction xs)
  case Nil
  show ?case
  proof (cases zs)
    case Nil
    then show ?thesis by (intro exI [of _ "[]"]) simp
  next
    case (Cons z zs')
    then have "\<forall>y. join sep ([] @ y # zs) = [] @ y @ (sep @ join sep zs)" by simp
    then show ?thesis by blast
  qed
next
  case (Cons x xs)
  then obtain A B where "\<forall>y. join sep (xs @ y # zs) = A @ y @ B" by blast
  moreover have "join sep (x # xs @ y # zs) = x @ sep @ join sep (xs @ y # zs)" for y
    by (cases "xs @ y # zs") auto
  ultimately have "\<forall>y. join sep ((x # xs) @ y # zs) = (x @ sep @ A) @ y @ B" by simp
  then show ?case by blast
qed


text \<open>The line of a record is fixed text around the escaped memory.\<close>

lemma sorted_optional:
  "sort_key fst (map (\<lambda>(k, v). (k, dumps v))
     (optional_item ''attachments'' a @ [(''memory'', m)] @ optional_item ''mentioned_at'' b @
      optional_item ''occurred_end'' c @ optional_item ''occurred_start'' d @ optional_item ''type'' e)) =
   map (\<lambda>(k, v). (k, dumps v))
     (optional_item ''attachments'' a @ [(''memory'', m)] @ optional_item ''mentioned_at'' b @
      optional_item ''occurred_end'' c @ optional_item ''occurred_start'' d @ optional_item ''type'' e)"
  by (rule sort_key_id_if_sorted) (auto simp: optional_item_def split: option.splits)

lemma dumps_evidence: "\<exists>A B. \<forall>m. dumps (evidence_json (ev\<lparr>ev_memory := m\<rparr>)) = A @ quote_str m @ B"
proof -
  define pre where "pre = map (render_item \<circ> (\<lambda>(k, v). (k, dumps v)))
    (optional_item ''attachments'' (map_option JList (ev_attachments ev)))"
  define post where "post = map (render_item \<circ> (\<lambda>(k, v). (k, dumps v)))
    (optional_item ''mentioned_at'' (map_option JStr (ev_mentioned_at ev)) @
     optional_item ''occurred_end'' (map_option JStr (ev_occurred_end ev)) @
     optional_item ''occurred_start'' (map_option JStr (ev_occurred_start ev)) @
     optional_item ''type'' (map_option JStr (ev_type ev)))"
  obtain A B where hole: "\<forall>y. join [44] (pre @ y # post) = A @ y @ B" using join_hole by blast
  have "dumps (evidence_json (ev\<lparr>ev_memory := m\<rparr>)) =
      [123] @ join [44] (pre @ render_item (''memory'', quote_str m) # post) @ [125]" for m
    unfolding evidence_json_def dumps.simps(6) sorted_optional by (simp add: pre_def post_def)
  then have "dumps (evidence_json (ev\<lparr>ev_memory := m\<rparr>)) =
      ([123] @ A @ quote_str (lit ''memory'') @ [58]) @ quote_str m @ (B @ [125])" for m
    by (simp add: hole render_item_def)
  then show ?thesis by blast
qed

lemma truncation_marker: "escape TEXT_TRUNCATION_MARKER = 32 # tl TEXT_TRUNCATION_MARKER"
  by (simp add: TEXT_TRUNCATION_MARKER_def lit_def escape_def escape_char_def)

lemma space_not_in_markers: "\<forall>p \<in> set CONTEXT_MARKERS. 32 \<notin> set p"
  by (simp add: CONTEXT_MARKERS_def CONTEXT_BEGIN_MARKER_def CONTEXT_SUFFIX_def
      LEGACY_CONTEXT_BEGIN_MARKER_def LEGACY_CONTEXT_SUFFIX_def lit_def)

text \<open>The longer the kept prefix, the longer the line.\<close>

lemma truncated_size_mono:
  assumes "j \<le> k"
  shows "utf8_len (serialize_record (truncated ev j)) \<le> utf8_len (serialize_record (truncated ev k))"
proof -
  obtain A B where d: "\<forall>m. dumps (evidence_json (ev\<lparr>ev_memory := m\<rparr>)) = A @ quote_str m @ B"
    using dumps_evidence by blast
  let ?Z = "tl TEXT_TRUNCATION_MARKER @ [34] @ B"
  let ?u = "\<lambda>k. A @ [34] @ escape (take k (ev_memory ev))"
  have line: "serialize_record (truncated ev k) =
      scan separator_escape (set CONTEXT_MARKERS) (?u k) @ scan separator_escape (set CONTEXT_MARKERS) (32 # ?Z)" for k
  proof -
    have "dumps (evidence_json (truncated ev k)) = ?u k @ 32 # ?Z"
      unfolding truncated_def using d by (simp add: quote_str_def truncation_marker)
    then show ?thesis unfolding serialize_scan using scan_barrier [OF space_not_in_markers] by metis
  qed
  have u: "?u k = ?u j @ escape (take (k - j) (drop j (ev_memory ev)))"
    using assms by (simp flip: escape_append take_add)
  have "separator_escape 91 = [91]" by (simp add: separator_escape_def)
  from utf8_len_scan_mono [where f = separator_escape, OF context_markers this] have "utf8_len (scan separator_escape (set CONTEXT_MARKERS) (?u j)) \<le>
      utf8_len (scan separator_escape (set CONTEXT_MARKERS) (?u k))" unfolding u .
  then show ?thesis unfolding line by simp
qed

section \<open>The bisection\<close>

definition fits_in :: "evidence \<Rightarrow> int \<Rightarrow> nat \<Rightarrow> bool" where
  "fits_in ev available k \<longleftrightarrow> int (utf8_len (serialize_record (truncated ev k))) \<le> available"

lemma encoded_size_Inr [result_iff]: "encoded_size s = Inr n \<longleftrightarrow> scalar_text s \<and> n = int (utf8_len s)"
  by (auto simp: encoded_size_def encode_utf8_def scalar_text_def utf8_len_def)

lemma bisect_prefix_longest:
  assumes "bisect_prefix ev available low high best ticks = Inr (k, ticks')"
    and "fits_in ev available best" and "0 \<le> low" and "low \<le> int best + 1" and "int best \<le> n"
    and "high \<le> n" and "\<And>j. high < int j \<Longrightarrow> int j \<le> n \<Longrightarrow> \<not> fits_in ev available j"
  shows "fits_in ev available k \<and> int k \<le> n \<and> (\<forall>j. int j \<le> n \<longrightarrow> fits_in ev available j \<longrightarrow> j \<le> k)"
  using assms
proof (induction ev available low high best ticks rule: bisect_prefix.induct)
  case (1 ev available low high best ticks)
  show ?case
  proof (cases "high < low")
    case True
    with "1.prems"(1) have "k = best" by (simp add: bisect_prefix.simps)
    moreover have "j \<le> best" if "int j \<le> n" "fits_in ev available j" for j
      using that "1.prems"(4,7) True by force
    ultimately show ?thesis using "1.prems"(2,5) by blast
  next
    case False
    let ?mid = "(low + high) div 2"
    have mid: "low \<le> ?mid" "?mid \<le> high" "0 \<le> ?mid" using False "1.prems"(3) by linarith+
    from "1.prems"(1) False obtain ticks1 where t: "raise_if_deadline_reached ticks = Inr ticks1"
      and size: "encoded_size (serialize_record (truncated ev (nat ?mid))) =
        Inr (int (utf8_len (serialize_record (truncated ev (nat ?mid)))))"
      and step: "(if fits_in ev available (nat ?mid)
         then bisect_prefix ev available (?mid + 1) high (nat ?mid) ticks1
         else bisect_prefix ev available low (?mid - 1) best ticks1) = Inr (k, ticks')"
      by (auto simp: bisect_prefix.simps [of ev available low high best] Let_def result_iff fits_in_def)
    show ?thesis
    proof (cases "fits_in ev available (nat ?mid)")
      case True
      with step have "bisect_prefix ev available (?mid + 1) high (nat ?mid) ticks1 = Inr (k, ticks')" by simp
      from "1.IH"(1) [OF False t refl size _ this True] show ?thesis
        using True mid "1.prems"(6,7) by (simp add: fits_in_def)
    next
      case fails: False
      with step have "bisect_prefix ev available low (?mid - 1) best ticks1 = Inr (k, ticks')" by simp
      moreover have "\<not> fits_in ev available j" if "?mid - 1 < int j" for j
      proof -
        have "nat ?mid \<le> j" using that mid(3) by linarith
        with truncated_size_mono [OF this, of ev] fails show ?thesis by (simp add: fits_in_def)
      qed
      ultimately show ?thesis
        using "1.IH"(2) [OF False t refl size] fails mid "1.prems"(2-6) by (simp add: fits_in_def)
    qed
  qed
qed


lemma fit_truncated_record_Inr:
  assumes "fit_truncated_record ev available ticks = Inr (result, ticks')"
  shows "(result = None \<and> \<not> fits_in ev available 0) \<or>
    (\<exists>k \<le> length (ev_memory ev). result = Some (serialize_record (truncated ev k), truncated ev k) \<and>
       fits_in ev available k \<and> (\<forall>j \<le> length (ev_memory ev). fits_in ev available j \<longrightarrow> j \<le> k))"
proof (cases "fits_in ev available 0")
  case True
  with assms obtain k where b: "bisect_prefix ev available 0 (int (length (ev_memory ev))) 0 ticks = Inr (k, ticks')"
    and r: "result = Some (serialize_record (truncated ev k), truncated ev k)"
    by (auto simp: fit_truncated_record_def result_iff fits_in_def)
  have "fits_in ev available k \<and> int k \<le> int (length (ev_memory ev)) \<and>
      (\<forall>j. int j \<le> int (length (ev_memory ev)) \<longrightarrow> fits_in ev available j \<longrightarrow> j \<le> k)"
    by (rule bisect_prefix_longest [OF b True]) simp_all
  with r show ?thesis by auto
next
  case False
  with assms show ?thesis by (auto simp: fit_truncated_record_def result_iff fits_in_def)
qed

text \<open>
  C27. Truncation is exact: a record that is too long for the bytes left is written with the longest
  prefix of its memory text whose whole escaped line, truncation marker included, still fits, and it is
  left out only when not even the empty prefix fits. The bisection over the prefix length finds it
  although markers and separators are escaped.
\<close>

theorem truncation_is_longest:
  assumes "fit_truncated_record ev available ticks = Inr (result, ticks')"
  shows "case result of
      None \<Rightarrow> \<forall>k. available < int (utf8_len (serialize_record (truncated ev k)))
    | Some (line, ev') \<Rightarrow> \<exists>k \<le> length (ev_memory ev). ev' = truncated ev k \<and> line = serialize_record ev' \<and>
        int (utf8_len line) \<le> available \<and>
        (\<forall>j \<le> length (ev_memory ev). int (utf8_len (serialize_record (truncated ev j))) \<le> available \<longrightarrow> j \<le> k)"
  using fit_truncated_record_Inr [OF assms]
proof (elim disjE conjE bexE exE)
  assume r: "result = None" "\<not> fits_in ev available 0"
  have "available < int (utf8_len (serialize_record (truncated ev k)))" for k
    using r(2) truncated_size_mono [of 0 k ev] by (simp add: fits_in_def)
  with r(1) show ?thesis by simp
qed (auto simp: fits_in_def)

section \<open>The loop over the results\<close>

lemma serialize_without_crowding_Inr:
  assumes "serialize_without_crowding_text ev0 available = Inr (line, ev)"
  shows "line = serialize_record ev \<and> (ev = ev0 \<or> ev = ev0\<lparr>ev_attachments := None\<rparr>)"
  using assms by (auto simp: serialize_without_crowding_text_def Let_def result_iff split: if_splits)

lemma select_results_Cons:
  assumes "select_results word nfkc mb it (r # rs) ticks st = Inr (st', t')"
  obtains (skipped) ticks1 where "select_results word nfkc mb it rs ticks1 st = Inr (st', t')"
    | (taken) ev0 ev ticks1 where "project_record word it r = Inr (Some ev0)"
        "ev = ev0 \<or> ev = ev0\<lparr>ev_attachments := None\<rparr>" "memory_fingerprint nfkc ev \<notin> set (sl_seen st)"
        "int fixed_bytes + sl_lines_bytes st + (if sl_lines st = [] then 0 else 1) +
           int (utf8_len (serialize_record ev)) \<le> mb"
        "select_results word nfkc mb it rs ticks1
           (select_line (serialize_record ev) ev r False
              ((if sl_lines st = [] then 0 else 1) + int (utf8_len (serialize_record ev)))
              (st\<lparr>sl_seen := memory_fingerprint nfkc ev # sl_seen st\<rparr>)) = Inr (st', t')"
    | (ended) ev where "st' = st\<lparr>sl_seen := memory_fingerprint nfkc ev # sl_seen st\<rparr>"
    | (cut_off) ev0 ev k where "project_record word it r = Inr (Some ev0)"
        "ev = ev0 \<or> ev = ev0\<lparr>ev_attachments := None\<rparr>" "memory_fingerprint nfkc ev \<notin> set (sl_seen st)"
        "fits_in ev (mb - int fixed_bytes - sl_lines_bytes st - (if sl_lines st = [] then 0 else 1)) k"
        "st' = select_line (serialize_record (truncated ev k)) (truncated ev k) r True 0
           (st\<lparr>sl_seen := memory_fingerprint nfkc ev # sl_seen st\<rparr>)"
proof -
  let ?sep = "if sl_lines st = [] then 0 else 1 :: int"
  let ?av = "mb - int fixed_bytes - sl_lines_bytes st - ?sep"
  from assms obtain ticks1 projected where p: "project_record word it r = Inr projected"
    and rest: "(case projected of None \<Rightarrow> select_results word nfkc mb it rs ticks1 st | Some ev0 \<Rightarrow>
           and_then (raise_if_deadline_reached ticks1) (\<lambda>ticks2.
           and_then (serialize_without_crowding_text ev0 ?av) (\<lambda>(line, ev).
           and_then (raise_if_deadline_reached ticks2) (\<lambda>ticks3.
           and_then (raise_if_deadline_reached ticks3) (\<lambda>ticks4.
             if memory_fingerprint nfkc ev \<in> set (sl_seen st)
             then select_results word nfkc mb it rs ticks4 st
             else
               (let st1 = st\<lparr>sl_seen := memory_fingerprint nfkc ev # sl_seen st\<rparr> in
                and_then (encoded_size line) (\<lambda>line_bytes.
                  if int fixed_bytes + sl_lines_bytes st + ?sep + line_bytes \<le> mb
                  then select_results word nfkc mb it rs ticks4
                         (select_line line ev r False (?sep + line_bytes) st1)
                  else
                    and_then (fit_truncated_record ev ?av ticks4) (\<lambda>(shortened, ticks5).
                      Inr (case shortened of
                             None \<Rightarrow> st1
                           | Some (line', ev') \<Rightarrow> select_line line' ev' r True 0 st1, ticks5))))))))) = Inr (st', t')"
    by (auto simp only: select_results.simps Let_def and_then_Inr)
  show ?thesis
  proof (cases projected)
    case None
    with rest show ?thesis by (intro skipped) simp
  next
    case (Some ev0)
    with rest obtain ticks4 line ev where sz: "serialize_without_crowding_text ev0 ?av = Inr (line, ev)"
      and rest: "(if memory_fingerprint nfkc ev \<in> set (sl_seen st)
             then select_results word nfkc mb it rs ticks4 st
             else
               (let st1 = st\<lparr>sl_seen := memory_fingerprint nfkc ev # sl_seen st\<rparr> in
                and_then (encoded_size line) (\<lambda>line_bytes.
                  if int fixed_bytes + sl_lines_bytes st + ?sep + line_bytes \<le> mb
                  then select_results word nfkc mb it rs ticks4
                         (select_line line ev r False (?sep + line_bytes) st1)
                  else
                    and_then (fit_truncated_record ev ?av ticks4) (\<lambda>(shortened, ticks5).
                      Inr (case shortened of
                             None \<Rightarrow> st1
                           | Some (line', ev') \<Rightarrow> select_line line' ev' r True 0 st1, ticks5))))) = Inr (st', t')"
      by (simp only: option.case and_then_Inr split_paired_Ex prod.case) blast
    note line = serialize_without_crowding_Inr [OF sz]
    show ?thesis
    proof (cases "memory_fingerprint nfkc ev \<in> set (sl_seen st)")
      case True
      with rest show ?thesis by (intro skipped) simp
    next
      case new: False
      let ?st1 = "st\<lparr>sl_seen := memory_fingerprint nfkc ev # sl_seen st\<rparr>"
      show ?thesis
      proof (cases "int fixed_bytes + sl_lines_bytes st + ?sep + int (utf8_len line) \<le> mb")
        case True
        with rest new have "select_results word nfkc mb it rs ticks4
            (select_line line ev r False (?sep + int (utf8_len line)) ?st1) = Inr (st', t')"
          by (auto simp: result_iff Let_def)
        with True new line p Some show ?thesis by (intro taken [of ev0 ev ticks4]) auto
      next
        case False
        with rest new obtain shortened ticks5 where f: "fit_truncated_record ev ?av ticks4 = Inr (shortened, ticks5)"
          and st': "st' = (case shortened of None \<Rightarrow> ?st1 | Some (line', ev') \<Rightarrow> select_line line' ev' r True 0 ?st1)"
          by (auto simp: result_iff Let_def split: prod.splits)
        from fit_truncated_record_Inr [OF f] show ?thesis
        proof (elim disjE conjE bexE exE)
          assume "shortened = None"
          with st' show ?thesis by (intro ended) simp
        next
          fix k
          assume "shortened = Some (serialize_record (truncated ev k), truncated ev k)" "fits_in ev ?av k"
          with st' new line p Some show ?thesis by (intro cut_off [of ev0 ev k]) auto
        qed
      qed
    qed
  qed
qed


text \<open>The projection of a result: its text redacted, its type where types are asked for, its dates and its handles.\<close>

definition projects :: "(nat \<Rightarrow> bool) \<Rightarrow> bool \<Rightarrow> recall_result \<Rightarrow> evidence \<Rightarrow> bool" where
  "projects word it r ev \<longleftrightarrow>
     (\<exists>s. rs_text r = Some (PStr s) \<and> ev_memory ev = redact_sensitive_text word s) \<and>
     (if it then optional_text (rs_type r) = Inr (ev_type ev) else ev_type ev = None) \<and>
     optional_text (rs_occurred_start r) = Inr (ev_occurred_start ev) \<and>
     optional_text (rs_occurred_end r) = Inr (ev_occurred_end ev) \<and>
     optional_text (rs_mentioned_at r) = Inr (ev_mentioned_at ev) \<and>
     ev_attachments ev = (if rs_attachments r = [] then None else Some (rs_attachments r))"

lemma project_record_projects: "project_record word it r = Inr (Some ev) \<Longrightarrow> projects word it r ev"
  by (auto simp: project_record_def projects_def result_iff map_option_case
      split: option.splits py.splits if_splits)

text \<open>Where a record comes from: the projection of its result, perhaps without handles, perhaps cut.\<close>

definition evidence_of :: "(nat \<Rightarrow> bool) \<Rightarrow> bool \<Rightarrow> recall_result \<Rightarrow> bool \<Rightarrow> evidence \<Rightarrow> bool" where
  "evidence_of word it r was_cut ev \<longleftrightarrow>
     (\<exists>ev0 whole. project_record word it r = Inr (Some ev0) \<and> projects word it r ev0 \<and>
        (whole = ev0 \<or> whole = ev0\<lparr>ev_attachments := None\<rparr>) \<and>
        (if was_cut then \<exists>k. ev = truncated whole k else ev = whole))"

definition selection_ok :: "(nat \<Rightarrow> bool) \<Rightarrow> (ustr \<Rightarrow> ustr) \<Rightarrow> int \<Rightarrow> bool \<Rightarrow> selection \<Rightarrow> bool" where
  "selection_ok word nfkc mb it st \<longleftrightarrow>
     sl_lines st = map serialize_record (sl_records st) \<and>
     length (sl_selected st) = length (sl_records st) \<and>
     length (sl_truncated st) = length (sl_records st) \<and>
     list_all2 (\<lambda>(r, was_cut). evidence_of word it r was_cut) (zip (sl_selected st) (sl_truncated st)) (sl_records st) \<and>
     True \<notin> set (butlast (sl_truncated st)) \<and>
     (sl_records st \<noteq> [] \<longrightarrow> int fixed_bytes + int (utf8_len (join [10] (sl_lines st))) \<le> mb) \<and>
     distinct (map (memory_fingerprint nfkc \<circ> fst) (filter (Not \<circ> snd) (zip (sl_records st) (sl_truncated st))))"

text \<open>As long as the loop runs, no record is cut.\<close>

definition still_open :: "(nat \<Rightarrow> bool) \<Rightarrow> (ustr \<Rightarrow> ustr) \<Rightarrow> int \<Rightarrow> bool \<Rightarrow> selection \<Rightarrow> bool" where
  "still_open word nfkc mb it st \<longleftrightarrow> selection_ok word nfkc mb it st \<and>
     sl_lines_bytes st = int (utf8_len (join [10] (sl_lines st))) \<and>
     True \<notin> set (sl_truncated st) \<and> set (sl_seen st) \<supseteq> memory_fingerprint nfkc ` set (sl_records st)"

lemma join_snoc: "utf8_len (join [10] (ls @ [l])) = utf8_len (join [10] ls) + (if ls = [] then 0 else 1) + utf8_len l"
  by (cases ls) (simp_all add: utf8_len_join utf8_char_def)

lemma selection_ok_seen [simp]: "selection_ok word nfkc mb it (st\<lparr>sl_seen := s\<rparr>) = selection_ok word nfkc mb it st"
  by (simp add: selection_ok_def)

lemma select_line_seen [simp]:
  "select_line line ev r was_cut added (st\<lparr>sl_seen := s\<rparr>) = (select_line line ev r was_cut added st)\<lparr>sl_seen := s\<rparr>"
  by (simp add: select_line_def)

lemma select_line_ok:
  assumes "still_open word nfkc mb it st" and "evidence_of word it r was_cut ev"
    and "int fixed_bytes + sl_lines_bytes st + (if sl_lines st = [] then 0 else 1) +
      int (utf8_len (serialize_record ev)) \<le> mb"
    and "\<not> was_cut \<Longrightarrow> memory_fingerprint nfkc ev \<notin> set (sl_seen st)"
  shows "selection_ok word nfkc mb it (select_line (serialize_record ev) ev r was_cut added st)"
proof -
  have ok: "selection_ok word nfkc mb it st" and open_facts:
    "sl_lines_bytes st = int (utf8_len (join [10] (sl_lines st)))" "True \<notin> set (sl_truncated st)"
    "set (sl_seen st) \<supseteq> memory_fingerprint nfkc ` set (sl_records st)"
    using assms(1) by (auto simp: still_open_def)
  have len: "length (sl_selected st) = length (sl_records st)" "length (sl_truncated st) = length (sl_records st)"
    using ok by (simp_all add: selection_ok_def)
  have "\<forall>(x, b) \<in> set (zip (sl_records st) (sl_truncated st)). memory_fingerprint nfkc x \<in> set (sl_seen st)"
    using open_facts(3) by (auto dest: set_zip_leftD)
  then have "distinct (map (memory_fingerprint nfkc \<circ> fst) (filter (Not \<circ> snd)
      (zip (sl_records st @ [ev]) (sl_truncated st @ [was_cut]))))"
    using ok len assms(4) by (cases was_cut) (auto simp: selection_ok_def image_iff dest!: bspec)
  moreover have "list_all2 (\<lambda>(r, was_cut). evidence_of word it r was_cut)
      (zip (sl_selected st @ [r]) (sl_truncated st @ [was_cut])) (sl_records st @ [ev])"
    using ok len assms(2) by (simp add: selection_ok_def list_all2_appendI)
  moreover have "int fixed_bytes + int (utf8_len (join [10] (sl_lines st @ [serialize_record ev]))) \<le> mb"
    using assms(3) open_facts(1) by (simp add: join_snoc split: if_splits)
  ultimately show ?thesis
    using ok open_facts(2) len
    by (simp add: selection_ok_def select_line_def butlast_append)
qed

lemma select_results_ok:
  assumes "select_results word nfkc mb it rs ticks st = Inr (st', t')" and "still_open word nfkc mb it st"
  shows "selection_ok word nfkc mb it st' \<and> (\<exists>ys. sl_selected st' = sl_selected st @ ys \<and> subseq ys rs)"
  using assms
proof (induction rs arbitrary: ticks st)
  case Nil
  then show ?case by (auto simp: still_open_def)
next
  case (Cons r rs)
  from Cons.prems(1) show ?case
  proof (cases rule: select_results_Cons)
    case (skipped ticks1)
    from Cons.IH [OF this Cons.prems(2)] show ?thesis by auto
  next
    case (taken ev0 ev ticks1)
    let ?st = "select_line (serialize_record ev) ev r False
      ((if sl_lines st = [] then 0 else 1) + int (utf8_len (serialize_record ev)))
      (st\<lparr>sl_seen := memory_fingerprint nfkc ev # sl_seen st\<rparr>)"
    have "evidence_of word it r False ev" using taken(1,2) by (auto simp: evidence_of_def dest: project_record_projects)
    from select_line_ok [OF Cons.prems(2) this taken(4), of "(if sl_lines st = [] then 0 else 1) +
        int (utf8_len (serialize_record ev))"] taken(3)
    have "selection_ok word nfkc mb it ?st" by simp
    then have "still_open word nfkc mb it ?st"
      using Cons.prems(2) join_snoc [of "sl_lines st" "serialize_record ev"]
      by (auto simp: still_open_def select_line_def)
    from Cons.IH [OF taken(5) this] show ?thesis by (auto simp: select_line_def)
  next
    case (ended ev)
    with Cons.prems(2) show ?thesis by (auto simp: still_open_def)
  next
    case (cut_off ev0 ev k)
    have "evidence_of word it r True (truncated ev k)" using cut_off(1,2) by (auto simp: evidence_of_def dest: project_record_projects)
    from select_line_ok [OF Cons.prems(2) this, of 0] cut_off(4)
    have "selection_ok word nfkc mb it st'" by (simp add: cut_off(5) fits_in_def)
    then show ?thesis by (auto simp: cut_off(5) select_line_def)
  qed
qed

lemma formatted_selection:
  assumes "format_recall_context_with_selected_results_and_provenance word nfkc results max_bytes ticks it =
    (context, records, selected, flags)"
  shows "(context, records, selected, flags) = ([], [], [], []) \<or>
    (\<exists>mb rs st. max_bytes = PInt mb \<and> results = Some rs \<and> selection_ok word nfkc mb it st \<and>
       subseq (sl_selected st) rs \<and> sl_records st \<noteq> [] \<and>
       context = render (sl_lines st) \<and> records = sl_records st \<and> selected = sl_selected st \<and>
       flags = sl_truncated st)"
proof (cases "positive_limit max_bytes = None \<or> results = None")
  case True
  with assms show ?thesis
    by (auto simp: format_recall_context_with_selected_results_and_provenance_def nothing_formatted_def split: option.splits)
next
  case False
  then obtain mb rs where mb: "positive_limit max_bytes = Some mb" "results = Some rs" by auto
  let ?run = "and_then (select_results word nfkc mb it rs ticks no_selection) (\<lambda>(st, ticks').
    and_then (raise_if_deadline_reached ticks') (\<lambda>_. Inr st))"
  show ?thesis
  proof (cases ?run)
    case (Inl e)
    with assms mb show ?thesis
      by (simp add: format_recall_context_with_selected_results_and_provenance_def nothing_formatted_def)
  next
    case (Inr st)
    then obtain t' where run: "select_results word nfkc mb it rs ticks no_selection = Inr (st, t')"
      by (auto simp: result_iff split: prod.splits)
    have "still_open word nfkc mb it no_selection"
      by (simp add: still_open_def selection_ok_def no_selection_def)
    from select_results_ok [OF run this] have ok: "selection_ok word nfkc mb it st" "subseq (sl_selected st) rs"
      by (auto simp: no_selection_def)
    then have "sl_lines st = [] \<longleftrightarrow> sl_records st = []" by (simp add: selection_ok_def)
    moreover have "max_bytes = PInt mb" using mb(1) by (auto simp: positive_limit_def split: py.splits if_splits)
    ultimately show ?thesis using assms mb Inr ok
      by (auto simp: format_recall_context_with_selected_results_and_provenance_def nothing_formatted_def split: if_splits)
  qed
qed


lemma utf8_len_render: "utf8_len (render ls) = fixed_bytes + utf8_len (join [10] ls)"
  by (simp add: render_def fixed_bytes_def)

lemma formatted_envelope:
  "case format_recall_context_with_selected_results_and_provenance word nfkc results (PInt mb) ticks it of
     (context, records, selected, flags) \<Rightarrow>
       context = [] \<or>
       int (utf8_len context) \<le> mb \<and> context = render (map serialize_record records) \<and> records \<noteq> [] \<and>
       \<not> list_ex (\<lambda>ev. list_ex line_break (serialize_record ev) \<or>
            list_ex (\<lambda>p. sublist p (serialize_record ev)) CONTEXT_MARKERS) records"
proof -
  obtain envelope_text records selected flags where f:
    "format_recall_context_with_selected_results_and_provenance word nfkc results (PInt mb) ticks it =
      (envelope_text, records, selected, flags)" by (metis prod_cases4)
  from formatted_selection [OF f] show ?thesis unfolding f
    using serialized_line
    by (auto simp: selection_ok_def utf8_len_render list_ex_iff)
qed

text \<open>
  C4. The evidence envelope cannot be forged from inside: whatever text, dates and handles the service
  returns, a nonempty context takes at most the permitted bytes and consists of the preamble, one line
  per record and the closing marker, where each line is the serialization of its record, breaks at no
  character that ends a line, and contains neither a current nor a legacy envelope marker.
\<close>

theorem evidence_envelope:
  "case format_recall_context_with_selected_results_and_provenance word nfkc results (PInt mb) ticks it of
     (context, records, selected, flags) \<Rightarrow>
       context = [] \<or>
       int (utf8_len context) \<le> mb \<and> context = render (map serialize_record records) \<and> records \<noteq> [] \<and>
       \<not> list_ex (\<lambda>ev. list_ex line_break (serialize_record ev) \<or>
            list_ex (\<lambda>p. sublist p (serialize_record ev)) CONTEXT_MARKERS) records"
  by (rule formatted_envelope)

text \<open>
  C29. The evidence is a faithful selection: the chosen results are results of the response in their
  order, one for each record; each record is the projection of its result, its text with the secrets
  redacted and its type and dates unchanged, with its handles dropped where they would crowd out the
  text; only the last can be cut, and no two uncut records have the same normalized text, dates and
  handles.
\<close>

theorem evidence_is_faithful_selection:
  assumes "format_recall_context_with_selected_results_and_provenance word nfkc (Some results) max_bytes ticks it =
    (context, records, selected, flags)"
  shows "subseq selected results \<and> length selected = length records \<and> length flags = length records \<and>
    list_all2 (\<lambda>(r, was_cut). evidence_of word it r was_cut) (zip selected flags) records \<and>
    True \<notin> set (butlast flags) \<and>
    distinct (map (memory_fingerprint nfkc \<circ> fst) (filter (Not \<circ> snd) (zip records flags)))"
  using formatted_selection [OF assms] by (auto simp: selection_ok_def)

section \<open>A sample response\<close>

definition sample_result :: "ustr \<Rightarrow> recall_result" where
  "sample_result text = \<lparr>rs_text = Some (PStr text), rs_type = PNone, rs_occurred_start = PNone,
     rs_occurred_end = PNone, rs_mentioned_at = PNone, rs_attachments = []\<rparr>"

definition sample_evidence :: "ustr \<Rightarrow> evidence" where
  "sample_evidence text = \<lparr>ev_memory = text, ev_type = None, ev_occurred_start = None, ev_occurred_end = None,
     ev_mentioned_at = None, ev_attachments = None\<rparr>"

lemma sample_formatted:
  "format_recall_context_with_selected_results_and_provenance ascii_word id
     (Some [sample_result [104, 105], sample_result [104, 105]]) (PInt 400) [] False =
   (render [serialize_record (sample_evidence [104, 105])], [sample_evidence [104, 105]],
    [sample_result [104, 105]], [False])"
proof -
  let ?ev = "sample_evidence [104, 105]"
  have p: "project_record ascii_word False (sample_result [104, 105]) = Inr (Some ?ev)"
    by code_simp
  have "fixed_bytes = 214" "utf8_len (serialize_record ?ev) = 15" by code_simp+
  moreover have "encoded_size (serialize_record ?ev) = Inr 15" by code_simp
  moreover have "ev_attachments ?ev = None" by (simp add: sample_evidence_def)
  ultimately show ?thesis using p
    by (simp add: format_recall_context_with_selected_results_and_provenance_def positive_limit_def
        no_selection_def serialize_without_crowding_text_def Let_def select_line_def)
qed

theorem evidence_is_faithful_selection_witness:
  "subseq [sample_result [104, 105]] [sample_result [104, 105], sample_result [104, 105]]"
  using evidence_is_faithful_selection [OF sample_formatted] by simp

lemma sample_fit:
  "fit_truncated_record (sample_evidence (replicate 9 104)) 47 [] =
     Inr (Some (serialize_record (truncated (sample_evidence (replicate 9 104)) 2),
                truncated (sample_evidence (replicate 9 104)) 2), [])"
  by code_simp

theorem truncation_is_longest_witness:
  "int (utf8_len (serialize_record (truncated (sample_evidence (replicate 9 104)) 2))) \<le> 47"
  using truncation_is_longest [OF sample_fit] by auto

end
