(* ===== verification/Mailbox.thy ===== *)
theory Mailbox
  imports Settings
begin

text \<open>
  \<open>plan_mailbox.py\<close>: the process-local rendezvous between the planner and the provider.
  The registry maps a profile's home to its state; every operation holds the registry's lock, so it is
  one atomic step. Clock readings and fresh tokens are arguments.

  The query digest is SHA-256 over the UTF-8 bytes with surrogates passed through, the parameter
  \<open>sha\<close>.
\<close>

section \<open>State\<close>

datatype plan_mode = ShadowPlan | ActivePlan

datatype plan_action = SkipAction | ReuseAction | RecallAction

record recall_plan =
  rp_mode :: plan_mode
  rp_action :: plan_action
  rp_query :: "ustr option"
  rp_turn :: string

record stored_plan =
  pn_sequence :: int
  pn_digest :: string
  pn_length :: nat
  pn_session :: string
  pn_mode :: plan_mode
  pn_expires :: real
  pn_owner :: "string option"
  pn_evaluation :: "string option"
  pn_publish_before :: "real option"
  pn_action :: "plan_action option"
  pn_query :: "ustr option"

record home_state =
  hs_activations :: "(string, string) dict"
  hs_closed :: "(string \<times> string, real) dict"
  hs_current :: "(string, string \<times> string) dict"
  hs_plans :: "(string, stored_plan) dict"
  hs_redirects :: "(string, string \<times> string) dict"
  hs_sequence :: int

definition new_home :: home_state where
  "new_home = \<lparr>hs_activations = [], hs_closed = [], hs_current = [], hs_plans = [],
     hs_redirects = [], hs_sequence = 0\<rparr>"

type_synonym registry = "(string, home_state) dict"

datatype mail_error = BadValue | Unavailable

definition PLAN_MAX_AGE_SECONDS :: real where
  "PLAN_MAX_AGE_SECONDS = 10"

definition query_digest :: "(bytes \<Rightarrow> string) \<Rightarrow> ustr \<Rightarrow> string" where
  "query_digest sha q = sha (utf8_bytes q)"

section \<open>Helpers\<close>

definition session_active :: "home_state \<Rightarrow> string \<Rightarrow> bool" where
  "session_active st s \<longleftrightarrow> list_ex (\<lambda>(_, active). active = s) (hs_activations st)"

definition purge_expired :: "real \<Rightarrow> home_state \<Rightarrow> home_state" where
  "purge_expired now st =
     st\<lparr>hs_plans := filter (\<lambda>(_, p). \<not> pn_expires p \<le> now) (hs_plans st),
        hs_closed := filter (\<lambda>(_, expires). \<not> expires \<le> now) (hs_closed st)\<rparr>"

definition clear_session :: "string \<Rightarrow> bool \<Rightarrow> home_state \<Rightarrow> home_state" where
  "clear_session s include_closed st =
     st\<lparr>hs_current := dict_pop (hs_current st) s,
        hs_plans := filter (\<lambda>(_, p). pn_session p \<noteq> s) (hs_plans st),
        hs_closed := (if include_closed then filter (\<lambda>(key, _). fst key \<noteq> s) (hs_closed st)
                      else hs_closed st)\<rparr>"

definition drop_empty_home :: "string \<Rightarrow> home_state \<Rightarrow> registry \<Rightarrow> registry" where
  "drop_empty_home home st reg =
     (if hs_activations st = [] \<and> hs_closed st = [] \<and> hs_current st = [] \<and> hs_plans st = []
      then dict_pop reg home else dict_set reg home st)"

definition resolve_active_session ::
    "home_state \<Rightarrow> string \<Rightarrow> (string \<times> string option) option \<times> home_state" where
  "resolve_active_session st s =
     (if session_active st s then (Some (s, None), st)
      else
        (case dict_get (hs_redirects st) s of
           None \<Rightarrow> (None, st)
         | Some (target, turn) \<Rightarrow>
             (let st' = st\<lparr>hs_redirects := dict_pop (hs_redirects st) s\<rparr> in
              if session_active st target then (Some (target, Some turn), st') else (None, st'))))"

section \<open>Operations\<close>

definition activate :: "string \<Rightarrow> string \<Rightarrow> string \<Rightarrow> real \<Rightarrow> registry \<Rightarrow> mail_error + string \<times> registry" where
  "activate home session token now reg =
     (if session = [] then Inl BadValue
      else
        (let st = purge_expired now (case dict_get reg home of None \<Rightarrow> new_home | Some st \<Rightarrow> st) in
         Inr (token, dict_set reg home
           (st\<lparr>hs_activations := dict_set (hs_activations st) token session\<rparr>))))"

definition deactivate :: "string \<Rightarrow> string \<Rightarrow> real \<Rightarrow> registry \<Rightarrow> mail_error + registry" where
  "deactivate home token now reg =
     (if token = [] then Inl BadValue
      else
        (case dict_get reg home of
           None \<Rightarrow> Inr reg
         | Some st0 \<Rightarrow>
             (let st = purge_expired now st0;
                  st' = st\<lparr>hs_activations := dict_pop (hs_activations st) token\<rparr>;
                  st'' = (case dict_get (hs_activations st) token of
                            None \<Rightarrow> st'
                          | Some session \<Rightarrow>
                              if session_active st' session then st'
                              else clear_session session True st')
              in Inr (drop_empty_home home st'' reg))))"

definition rebind ::
    "string \<Rightarrow> string \<Rightarrow> string \<Rightarrow> string \<Rightarrow> real \<Rightarrow> registry \<Rightarrow> mail_error + bool \<times> registry" where
  "rebind home token new_session expected_parent now reg =
     (if token = [] \<or> new_session = [] then Inl BadValue
      else
        (case dict_get reg home of
           None \<Rightarrow> Inl Unavailable
         | Some st0 \<Rightarrow>
             (case dict_get (hs_activations st0) token of
                None \<Rightarrow> Inl Unavailable
              | Some old \<Rightarrow>
                  (let st = purge_expired now st0 in
                   if old = new_session then Inr (True, dict_set reg home st)
                   else if expected_parent \<noteq> [] \<and> old \<noteq> expected_parent then
                     Inr (False, dict_set reg home st)
                   else
                     (let st1 = st\<lparr>hs_activations := dict_set (hs_activations st) token new_session\<rparr>;
                          st2 = (if session_active st1 old then st1 else clear_session old True st1)
                      in Inr (True, dict_set reg home (clear_session new_session True st2)))))))"

definition is_active :: "string \<Rightarrow> string \<Rightarrow> real \<Rightarrow> registry \<Rightarrow> mail_error + bool \<times> registry" where
  "is_active home session now reg =
     (if session = [] then Inl BadValue
      else
        (case dict_get reg home of
           None \<Rightarrow> Inr (False, reg)
         | Some st0 \<Rightarrow>
             (let st = purge_expired now st0 in
              Inr (session_active st session, dict_set reg home st))))"

definition begin_turn ::
    "string \<Rightarrow> string \<Rightarrow> string \<Rightarrow> string \<Rightarrow> string \<Rightarrow> real \<Rightarrow> registry
     \<Rightarrow> mail_error + string option \<times> registry" where
  "begin_turn home session turn parent owner now reg =
     (if session = [] \<or> turn = [] then Inl BadValue
      else
        (case dict_get reg home of
           None \<Rightarrow> Inr (None, reg)
         | Some st0 \<Rightarrow>
             (let st = purge_expired now st0 in
              if dict_get (hs_closed st) (session, turn) \<noteq> None then Inr (None, dict_set reg home st)
              else
                (let active = session_active st session;
                     st1 = st\<lparr>hs_redirects :=
                       filter (\<lambda>(_, redirect). fst redirect \<noteq> session \<or> snd redirect = turn)
                         (hs_redirects st)\<rparr>;
                     parent_active = (parent \<noteq> [] \<and> session_active st1 parent);
                     st2 =
                       (if parent_active then
                          clear_session parent True
                            (st1\<lparr>hs_redirects :=
                                   dict_set
                                     (filter (\<lambda>(source, redirect).
                                        source \<noteq> parent \<and> source \<noteq> session \<and>
                                        fst redirect \<noteq> parent \<and> fst redirect \<noteq> session)
                                        (hs_redirects st1))
                                     parent (session, turn),
                                 hs_activations :=
                                   map (\<lambda>(token, s). (token, if s = parent then session else s))
                                     (hs_activations st1)\<rparr>)
                        else st1)
                 in
                   if \<not> (active \<or> parent_active) then Inr (None, dict_set reg home st2)
                   else
                     (let st3 = clear_session session False st2 in
                      Inr (Some owner, dict_set reg home
                        (st3\<lparr>hs_current := dict_set (hs_current st3) session (turn, owner)\<rparr>)))))))"

record reservation =
  rv_query :: ustr
  rv_session :: string
  rv_turn :: string
  rv_mode :: plan_mode
  rv_evaluation :: "string option"
  rv_publish_timeout :: "pyfloat option"
  rv_owner :: "string option"

definition bad_timeout :: "pyfloat option \<Rightarrow> bool" where
  "bad_timeout t =
     (case t of
        None \<Rightarrow> False
      | Some f \<Rightarrow> (case finite_float f of None \<Rightarrow> True | Some r \<Rightarrow> r \<le> 0))"

definition publish_deadline :: "real \<Rightarrow> pyfloat option \<Rightarrow> real option" where
  "publish_deadline now t =
     (case t of None \<Rightarrow> None | Some f \<Rightarrow> map_option (\<lambda>r. now + r) (finite_float f))"

definition reserved_plan :: "(bytes \<Rightarrow> string) \<Rightarrow> reservation \<Rightarrow> real \<Rightarrow> int \<Rightarrow> stored_plan" where
  "reserved_plan sha rv now n =
     \<lparr>pn_sequence = n, pn_digest = query_digest sha (rv_query rv), pn_length = length (rv_query rv),
      pn_session = rv_session rv, pn_mode = rv_mode rv, pn_expires = now + PLAN_MAX_AGE_SECONDS,
      pn_owner = rv_owner rv, pn_evaluation = rv_evaluation rv,
      pn_publish_before = publish_deadline now (rv_publish_timeout rv),
      pn_action = None, pn_query = None\<rparr>"

definition reserve ::
    "(bytes \<Rightarrow> string) \<Rightarrow> string \<Rightarrow> reservation \<Rightarrow> real \<Rightarrow> registry \<Rightarrow> mail_error + bool \<times> registry" where
  "reserve sha home rv now reg =
     (if rv_query rv = [] \<or> rv_session rv = [] \<or> rv_turn rv = [] \<or> bad_timeout (rv_publish_timeout rv)
      then Inl BadValue
      else
        (case dict_get reg home of
           None \<Rightarrow> Inr (False, reg)
         | Some st0 \<Rightarrow>
             (let st = purge_expired now st0; refuse = Inr (False, dict_set reg home st) in
              if \<not> session_active st (rv_session rv) then refuse
              else if (case dict_get (hs_current st) (rv_session rv) of
                         None \<Rightarrow> rv_owner rv \<noteq> None
                       | Some (turn, owner) \<Rightarrow> turn \<noteq> rv_turn rv \<or> rv_owner rv \<noteq> Some owner)
              then refuse
              else if dict_get (hs_plans st) (rv_turn rv) \<noteq> None then refuse
              else
                Inr (True, dict_set reg home
                  (st\<lparr>hs_sequence := hs_sequence st + 1,
                      hs_plans := dict_set (hs_plans st) (rv_turn rv)
                        (reserved_plan sha rv now (hs_sequence st + 1))\<rparr>)))))"

text \<open>\<open>_require_action\<close>: only a recall carries a rewritten query, and a recall must.\<close>

definition action_ok :: "plan_action \<Rightarrow> ustr option \<Rightarrow> bool" where
  "action_ok action query \<longleftrightarrow>
     (if action = RecallAction then (case query of None \<Rightarrow> False | Some q \<Rightarrow> q \<noteq> []) else query = None)"

definition finalize ::
    "string \<Rightarrow> string \<Rightarrow> plan_mode \<Rightarrow> plan_action \<Rightarrow> ustr option \<Rightarrow> string option \<Rightarrow> real \<Rightarrow> registry
     \<Rightarrow> mail_error + bool \<times> registry" where
  "finalize home turn mode action query owner now reg =
     (if turn = [] \<or> \<not> action_ok action query then Inl BadValue
      else
        (case dict_get reg home of
           None \<Rightarrow> Inr (False, reg)
         | Some st0 \<Rightarrow>
             (let st = purge_expired now st0; refuse = Inr (False, dict_set reg home st) in
              case dict_get (hs_plans st) turn of
                None \<Rightarrow> refuse
              | Some p \<Rightarrow>
                  if pn_action p \<noteq> None \<or> pn_mode p \<noteq> mode \<or> pn_owner p \<noteq> owner then refuse
                  else if (case pn_publish_before p of None \<Rightarrow> False | Some d \<Rightarrow> d \<le> now) then refuse
                  else
                    Inr (True, dict_set reg home
                      (st\<lparr>hs_plans := dict_set (hs_plans st) turn
                            (p\<lparr>pn_action := Some action, pn_query := query\<rparr>)\<rparr>)))))"

definition cancel :: "string \<Rightarrow> string \<Rightarrow> string option \<Rightarrow> registry \<Rightarrow> mail_error + registry" where
  "cancel home turn owner reg =
     (if turn = [] then Inl BadValue
      else
        (case dict_get reg home of
           None \<Rightarrow> Inr reg
         | Some st \<Rightarrow>
             (let st' =
                (case dict_get (hs_plans st) turn of
                   None \<Rightarrow> st
                 | Some p \<Rightarrow>
                     if pn_owner p \<noteq> owner then st
                     else if pn_evaluation p = None then
                       st\<lparr>hs_plans := dict_pop (hs_plans st) turn\<rparr>
                     else
                       st\<lparr>hs_plans := dict_set (hs_plans st) turn
                            (p\<lparr>pn_action := None, pn_query := None, pn_publish_before := Some 0\<rparr>)\<rparr>)
              in Inr (drop_empty_home home st' reg))))"

text \<open>
  \<open>consume\<close> returns the plan and the evaluation id that it reports through the callback.
  \<open>close_current\<close> is its first half: the current turn of the session ends.
\<close>

definition close_current ::
    "string \<Rightarrow> real \<Rightarrow> home_state \<Rightarrow> (string \<times> stored_plan option) option \<times> home_state" where
  "close_current session now st =
     (case dict_get (hs_current st) session of
        None \<Rightarrow> (None, st)
      | Some (turn, _) \<Rightarrow>
          (Some (turn, dict_get (hs_plans st) turn),
           st\<lparr>hs_current := dict_pop (hs_current st) session,
              hs_plans := dict_pop (hs_plans st) turn,
              hs_closed := dict_set (hs_closed st) (session, turn) (now + PLAN_MAX_AGE_SECONDS),
              hs_redirects := filter (\<lambda>(_, redirect). redirect \<noteq> (session, turn)) (hs_redirects st)\<rparr>))"

definition candidates_of ::
    "string \<Rightarrow> nat \<Rightarrow> string option \<Rightarrow> (string \<times> stored_plan option) option \<Rightarrow> home_state
     \<Rightarrow> (string \<times> stored_plan) list" where
  "candidates_of session n redirected current st =
     (let usable = (\<lambda>(turn, p). pn_session p = session \<and> pn_length p = n \<and>
                      (redirected = None \<or> redirected = Some turn)) in
      case current of
        Some (turn, Some p) \<Rightarrow> if usable (turn, p) then [(turn, p)] else []
      | Some (_, None) \<Rightarrow> []
      | None \<Rightarrow> filter usable (hs_plans st))"

definition plan_of :: "string \<times> stored_plan \<Rightarrow> recall_plan option" where
  "plan_of tp =
     (case pn_action (snd tp) of
        None \<Rightarrow> None
      | Some action \<Rightarrow>
          Some \<lparr>rp_mode = pn_mode (snd tp), rp_action = action, rp_query = pn_query (snd tp),
                rp_turn = fst tp\<rparr>)"

definition consume ::
    "(bytes \<Rightarrow> string) \<Rightarrow> string \<Rightarrow> ustr \<Rightarrow> string \<Rightarrow> real \<Rightarrow> registry
     \<Rightarrow> mail_error + (recall_plan option \<times> string option) \<times> registry" where
  "consume sha home query session now reg =
     (if query = [] \<or> session = [] then Inl BadValue
      else
        (case dict_get reg home of
           None \<Rightarrow> Inr ((None, None), reg)
         | Some st0 \<Rightarrow>
             (case resolve_active_session (purge_expired now st0) session of
                (None, st) \<Rightarrow> Inr ((None, None), dict_set reg home st)
              | (Some (target, redirected), st) \<Rightarrow>
                  (case close_current target now st of
                     (current, st1) \<Rightarrow>
                       (let matches =
                          filter (\<lambda>(_, p). pn_digest p = query_digest sha query)
                            (candidates_of target (length query) redirected current st1)
                        in
                          case first_by (\<lambda>(_, p). - pn_sequence p) matches of
                            None \<Rightarrow> Inr ((None, None), dict_set reg home st1)
                          | Some newest \<Rightarrow>
                              Inr ((plan_of newest, pn_evaluation (snd newest)),
                                dict_set reg home
                                  (st1\<lparr>hs_plans := filter (\<lambda>(turn, _). turn \<notin> fst ` set matches)
                                         (hs_plans st1)\<rparr>)))))))"

definition clear_session_plans :: "string \<Rightarrow> string \<Rightarrow> registry \<Rightarrow> mail_error + registry" where
  "clear_session_plans home session reg =
     (if session = [] then Inl BadValue
      else
        (case dict_get reg home of
           None \<Rightarrow> Inr reg
         | Some st \<Rightarrow> Inr (drop_empty_home home (clear_session session True st) reg)))"

definition purge_stale :: "string \<Rightarrow> real \<Rightarrow> registry \<Rightarrow> registry" where
  "purge_stale home now reg =
     (case dict_get reg home of
        None \<Rightarrow> reg
      | Some st \<Rightarrow> drop_empty_home home (purge_expired now st) reg)"

end
