(* ===== verification/MailboxInvariant.thy ===== *)
theory MailboxInvariant
  imports Mailbox
begin

text \<open>
  The invariant of the plan mailbox and its preservation by every operation, and what a run of
  operations can hand to a consumer.

  \<open>home_ok_but S\<close> is the invariant up to the sessions of \<open>S\<close>, whose activation has
  just been taken away and which \<open>clear_session\<close> is about to clear.
\<close>

section \<open>The invariant\<close>

definition plan_ok :: "stored_plan \<Rightarrow> bool" where
  "plan_ok p \<longleftrightarrow>
     (case pn_action p of None \<Rightarrow> pn_query p = None | Some action \<Rightarrow> action_ok action (pn_query p))"

text \<open>
  A plan of a session with a current turn belongs to that turn and carries its owner token; a plan
  without an owner token exists only while its session has no current turn.
\<close>

definition fenced :: "home_state \<Rightarrow> string \<times> stored_plan \<Rightarrow> bool" where
  "fenced st tp \<longleftrightarrow>
     dict_get (hs_current st) (pn_session (snd tp)) =
       map_option (\<lambda>owner. (fst tp, owner)) (pn_owner (snd tp))"

definition home_ok_but :: "string set \<Rightarrow> home_state \<Rightarrow> bool" where
  "home_ok_but S st \<longleftrightarrow>
     dict_ok (hs_activations st) \<and> dict_ok (hs_closed st) \<and> dict_ok (hs_current st) \<and>
     dict_ok (hs_plans st) \<and> dict_ok (hs_redirects st) \<and>
     distinct (map (pn_sequence \<circ> snd) (hs_plans st)) \<and>
     (\<forall>tp \<in> set (hs_plans st). plan_ok (snd tp) \<and> pn_sequence (snd tp) \<le> hs_sequence st \<and> fenced st tp \<and>
        (pn_session (snd tp) \<notin> S \<longrightarrow> session_active st (pn_session (snd tp)))) \<and>
     (\<forall>s \<in> dict_keys (hs_current st). s \<notin> S \<longrightarrow> session_active st s)"

abbreviation home_ok :: "home_state \<Rightarrow> bool" where
  "home_ok \<equiv> home_ok_but {}"

definition registry_ok :: "registry \<Rightarrow> bool" where
  "registry_ok reg \<longleftrightarrow> dict_ok reg \<and> (\<forall>(h, st) \<in> set reg. home_ok st)"

lemma session_active_iff: "session_active st s \<longleftrightarrow> s \<in> dict_values (hs_activations st)"
  by (force simp: session_active_def list_ex_iff)

lemma session_active_updates [simp]:
  "session_active (st\<lparr>hs_plans := p\<rparr>) s = session_active st s"
  "session_active (st\<lparr>hs_closed := c\<rparr>) s = session_active st s"
  "session_active (st\<lparr>hs_current := k\<rparr>) s = session_active st s"
  "session_active (st\<lparr>hs_redirects := r\<rparr>) s = session_active st s"
  "session_active (st\<lparr>hs_sequence := n\<rparr>) s = session_active st s"
  by (simp_all add: session_active_def)

lemma fenced_updates [simp]:
  "fenced (st\<lparr>hs_plans := p\<rparr>) tp = fenced st tp"
  "fenced (st\<lparr>hs_closed := c\<rparr>) tp = fenced st tp"
  "fenced (st\<lparr>hs_redirects := r\<rparr>) tp = fenced st tp"
  "fenced (st\<lparr>hs_sequence := n\<rparr>) tp = fenced st tp"
  "fenced (st\<lparr>hs_activations := a\<rparr>) tp = fenced st tp"
  by (simp_all add: fenced_def)

lemma distinct_map_filter': "distinct (map f xs) \<Longrightarrow> distinct (map f (filter P xs))"
  by (induction xs) auto

lemma home_ok_new [simp]: "home_ok new_home"
  by (simp add: home_ok_but_def new_home_def)

lemma home_ok_but_plans [keeps]:
  "home_ok_but S st \<Longrightarrow> home_ok_but S (st\<lparr>hs_plans := filter P (hs_plans st)\<rparr>)"
  by (auto simp: home_ok_but_def dict_ok_filter distinct_map_filter')

lemma home_ok_but_closed [keeps]:
  "home_ok_but S st \<Longrightarrow> dict_ok c \<Longrightarrow> home_ok_but S (st\<lparr>hs_closed := c\<rparr>)"
  by (auto simp: home_ok_but_def)

lemma home_ok_but_redirects [keeps]:
  "home_ok_but S st \<Longrightarrow> dict_ok r \<Longrightarrow> home_ok_but S (st\<lparr>hs_redirects := r\<rparr>)"
  by (auto simp: home_ok_but_def)

lemma home_ok_but_purge [keeps]: "home_ok_but S st \<Longrightarrow> home_ok_but S (purge_expired now st)"
  by (auto simp: home_ok_but_def purge_expired_def dict_ok_filter distinct_map_filter')

lemma home_ok_but_clear [keeps]:
  assumes "home_ok_but S st"
  shows "home_ok_but (S - {s}) (clear_session s b st)"
  using assms
  by (auto simp: home_ok_but_def clear_session_def dict_ok_filter distinct_map_filter' fenced_def
      session_active_def set_dict_pop)

lemma home_ok_but_weaken: "home_ok_but S st \<Longrightarrow> S \<subseteq> S' \<Longrightarrow> home_ok_but S' st"
  by (auto simp: home_ok_but_def)

lemma home_ok_but_active: "home_ok_but {s} st \<Longrightarrow> session_active st s \<Longrightarrow> home_ok st"
  by (auto simp: home_ok_but_def)

lemma home_ok_but_activations:
  assumes "home_ok_but S st" and "dict_ok a"
    and "\<And>s. s \<notin> S' \<Longrightarrow> s \<in> dict_values (hs_activations st) \<Longrightarrow> s \<in> dict_values a" and "S \<subseteq> S'"
  shows "home_ok_but S' (st\<lparr>hs_activations := a\<rparr>)"
proof -
  have act: "session_active (st\<lparr>hs_activations := a\<rparr>) s" if "s \<notin> S'" "session_active st s" for s
    using assms(3) that by (simp add: session_active_iff)
  show ?thesis using assms(1,2,4) act unfolding home_ok_but_def by (simp add: subset_iff) blast
qed

lemma home_ok_clear: "home_ok_but {s} st \<Longrightarrow> home_ok (clear_session s b st)"
  using home_ok_but_clear [of "{s}" st s b] by simp

section \<open>Registry level\<close>

lemma registry_ok_get: "registry_ok reg \<Longrightarrow> dict_get reg home = Some st \<Longrightarrow> home_ok st"
  by (auto simp: registry_ok_def dest: dict_get_in_set)

lemma registry_ok_set [keeps]: "registry_ok reg \<Longrightarrow> home_ok st \<Longrightarrow> registry_ok (dict_set reg home st)"
  using set_dict_set_subset [of reg home st] by (auto simp: registry_ok_def)

lemma registry_ok_pop [keeps]: "registry_ok reg \<Longrightarrow> registry_ok (dict_pop reg home)"
  by (auto simp: registry_ok_def set_dict_pop)

lemma registry_ok_drop [keeps]: "registry_ok reg \<Longrightarrow> home_ok st \<Longrightarrow> registry_ok (drop_empty_home home st reg)"
  by (simp add: drop_empty_home_def keeps)

section \<open>Every operation keeps the invariant\<close>

lemma dict_set_mem: "(k, v) \<in> set (dict_set d k v)"
  by (induction d) (auto simp: dict_set_def)

lemma dict_set_other: "(k', w) \<in> set d \<Longrightarrow> k' \<noteq> k \<Longrightarrow> (k', w) \<in> set (dict_set d k v)"
  by (induction d) (auto simp: dict_set_def)

lemma activate_ok:
  assumes "registry_ok reg" and "activate home s token now reg = Inr (tok, reg')"
    and "\<And>st. dict_get reg home = Some st \<Longrightarrow> token \<notin> dict_keys (hs_activations st)"
  shows "registry_ok reg'"
proof -
  let ?st0 = "case dict_get reg home of None \<Rightarrow> new_home | Some st \<Rightarrow> st"
  let ?st = "purge_expired now ?st0"
  have ok: "home_ok ?st"
    using registry_ok_get [OF assms(1)] by (auto split: option.split intro: home_ok_but_purge)
  have "token \<notin> dict_keys (hs_activations ?st)"
    using assms(3) by (auto simp: purge_expired_def new_home_def split: option.splits)
  then have a: "dict_set (hs_activations ?st) token s = hs_activations ?st @ [(token, s)]"
    by (simp add: dict_set_new dict_get_None_iff)
  have "dict_ok (dict_set (hs_activations ?st) token s)"
    using ok by (simp add: home_ok_but_def)
  then have "home_ok (?st\<lparr>hs_activations := dict_set (hs_activations ?st) token s\<rparr>)"
    by (rule home_ok_but_activations [OF ok]) (simp_all add: a)
  with assms show ?thesis by (auto simp: activate_def Let_def keeps split: if_splits)
qed

lemma deactivate_ok:
  assumes "registry_ok reg" and "deactivate home token now reg = Inr reg'"
  shows "registry_ok reg'"
proof (cases "dict_get reg home")
  case None
  with assms show ?thesis by (simp add: deactivate_def split: if_splits)
next
  case (Some st0)
  let ?st = "purge_expired now st0"
  let ?st' = "?st\<lparr>hs_activations := dict_pop (hs_activations ?st) token\<rparr>"
  have ok: "home_ok ?st" using registry_ok_get [OF assms(1) Some] by (rule home_ok_but_purge)
  then have d: "dict_ok (dict_pop (hs_activations ?st) token)" by (simp add: home_ok_but_def)
  show ?thesis
  proof (cases "dict_get (hs_activations ?st) token")
    case None
    have "home_ok ?st'"
      using None by (intro home_ok_but_activations [OF ok d]) (force simp: set_dict_pop dict_get_None_iff)+
    with assms Some None show ?thesis
      by (auto simp: deactivate_def Let_def split: if_splits intro: keeps)
  next
    case tok: (Some session)
    have but: "home_ok_but {session} ?st'"
    proof (rule home_ok_but_activations [OF ok d])
      fix s
      assume s: "s \<notin> {session}" "s \<in> dict_values (hs_activations ?st)"
      then obtain t where "(t, s) \<in> set (hs_activations ?st)" by force
      moreover from this have "t \<noteq> token"
        using s(1) tok ok by (auto simp: home_ok_but_def simp flip: dict_get_Some_iff)
      ultimately show "s \<in> dict_values (dict_pop (hs_activations ?st) token)"
        by (force simp: set_dict_pop)
    qed simp
    have "home_ok (if session_active ?st' session then ?st' else clear_session session True ?st')"
      using home_ok_but_active [OF but] home_ok_clear [OF but] by simp
    with assms Some tok show ?thesis
      by (auto simp: deactivate_def Let_def split: if_splits intro: keeps)
  qed
qed

lemma rebind_ok:
  assumes "registry_ok reg" and "rebind home token new parent now reg = Inr (moved, reg')"
  shows "registry_ok reg'"
proof -
  from assms(2) obtain st0 old where st0: "dict_get reg home = Some st0"
    and old: "dict_get (hs_activations st0) token = Some old"
    by (auto simp: rebind_def split: if_splits option.splits)
  let ?st = "purge_expired now st0"
  let ?st1 = "?st\<lparr>hs_activations := dict_set (hs_activations ?st) token new\<rparr>"
  let ?st2 = "if session_active ?st1 old then ?st1 else clear_session old True ?st1"
  have ok: "home_ok ?st" using registry_ok_get [OF assms(1) st0] by (rule home_ok_but_purge)
  then have d: "dict_ok (dict_set (hs_activations ?st) token new)" by (simp add: home_ok_but_def)
  have but: "home_ok_but {old} ?st1"
  proof (rule home_ok_but_activations [OF ok d])
    fix s
    assume s: "s \<notin> {old}" "s \<in> dict_values (hs_activations ?st)"
    then obtain t where t: "(t, s) \<in> set (hs_activations ?st)" by force
    moreover have "t \<noteq> token"
      using t s(1) old ok by (auto simp: home_ok_but_def purge_expired_def simp flip: dict_get_Some_iff)
    ultimately show "s \<in> dict_values (dict_set (hs_activations ?st) token new)"
      using dict_set_other [of t s _ token new] by force
  qed simp
  have "home_ok ?st2" using home_ok_but_active [OF but] home_ok_clear [OF but] by simp
  then have "home_ok (clear_session new True ?st2)" using home_ok_but_clear [of "{}" ?st2 new True] by simp
  with assms st0 old ok show ?thesis
    by (auto simp: rebind_def Let_def split: if_splits intro: keeps)
qed

lemma is_active_ok:
  "registry_ok reg \<Longrightarrow> is_active home s now reg = Inr (b, reg') \<Longrightarrow> registry_ok reg'"
  by (auto simp: is_active_def Let_def split: if_splits option.splits
      intro!: registry_ok_set home_ok_but_purge dest: registry_ok_get)


lemma clear_session_current: "dict_get (hs_current (clear_session s b st)) s' =
    (if s' = s then None else dict_get (hs_current st) s')"
  by (simp add: clear_session_def)

lemma no_plan_after_clear: "tp \<in> set (hs_plans (clear_session s b st)) \<Longrightarrow> pn_session (snd tp) \<noteq> s"
  by (auto simp: clear_session_def)

lemma home_ok_set_current:
  assumes "home_ok st" and "session_active st s" and "\<forall>tp \<in> set (hs_plans st). pn_session (snd tp) \<noteq> s"
  shows "home_ok (st\<lparr>hs_current := dict_set (hs_current st) s k\<rparr>)"
proof -
  have "fenced (st\<lparr>hs_current := dict_set (hs_current st) s k\<rparr>) tp" if "tp \<in> set (hs_plans st)" for tp
    using assms(1,3) that by (auto simp: home_ok_but_def fenced_def)
  then show ?thesis
    using assms(1,2) set_dict_set_subset [of "hs_current st" s k] by (auto simp: home_ok_but_def)
qed

lemma begin_turn_ok:
  assumes "registry_ok reg" and "begin_turn home session turn parent owner now reg = Inr (r, reg')"
  shows "registry_ok reg'"
proof (cases "dict_get reg home")
  case None
  with assms show ?thesis by (simp add: begin_turn_def split: if_splits)
next
  case (Some st0)
  define st where "st = purge_expired now st0"
  define st1 where "st1 = st\<lparr>hs_redirects :=
    filter (\<lambda>(_, redirect). fst redirect \<noteq> session \<or> snd redirect = turn) (hs_redirects st)\<rparr>"
  define act where "act = map (\<lambda>(token, s). (token, if s = parent then session else s)) (hs_activations st1)"
  define red where "red = dict_set (filter (\<lambda>(source, redirect). source \<noteq> parent \<and> source \<noteq> session \<and>
      fst redirect \<noteq> parent \<and> fst redirect \<noteq> session) (hs_redirects st1)) parent (session, turn)"
  define st2 where "st2 = (if parent \<noteq> [] \<and> session_active st1 parent
    then clear_session parent True (st1\<lparr>hs_redirects := red, hs_activations := act\<rparr>) else st1)"
  have ok: "home_ok st" unfolding st_def using registry_ok_get [OF assms(1) Some] by (rule home_ok_but_purge)
  have ok1: "home_ok st1" unfolding st1_def
    using ok by (intro home_ok_but_redirects dict_ok_filter) (auto simp: home_ok_but_def)
  have okr: "home_ok (st1\<lparr>hs_redirects := red\<rparr>)"
    using ok1 by (intro home_ok_but_redirects) (auto simp: red_def home_ok_but_def dict_ok_filter)
  have "map fst act = map fst (hs_activations st1)" by (auto simp: act_def)
  then have "dict_ok act" using ok1 by (simp add: home_ok_but_def dict_ok_def)
  then have "home_ok_but {parent} ((st1\<lparr>hs_redirects := red\<rparr>)\<lparr>hs_activations := act\<rparr>)"
    by (rule home_ok_but_activations [OF okr]) (force simp: act_def)+
  then have ok2: "home_ok st2" using ok1 home_ok_clear unfolding st2_def by auto
  have "session_active st2 session" if "session_active st session \<or> parent \<noteq> [] \<and> session_active st1 parent"
    using that
    by (force simp: st2_def st1_def act_def session_active_def clear_session_def list_ex_iff)
  then have ok3: "home_ok ((clear_session session False st2)\<lparr>hs_current :=
      dict_set (hs_current (clear_session session False st2)) session (turn, owner)\<rparr>)"
    if "session_active st session \<or> parent \<noteq> [] \<and> session_active st1 parent"
    using that home_ok_but_clear [OF ok2, of session False] no_plan_after_clear
    by (intro home_ok_set_current) (auto simp: clear_session_def session_active_def)
  from assms(2) Some have "reg' = dict_set reg home st \<or> reg' = dict_set reg home st2 \<or>
      (session_active st session \<or> parent \<noteq> [] \<and> session_active st1 parent) \<and>
      reg' = dict_set reg home ((clear_session session False st2)\<lparr>hs_current :=
      dict_set (hs_current (clear_session session False st2)) session (turn, owner)\<rparr>)"
    unfolding st2_def red_def act_def st1_def st_def
    by (auto simp: begin_turn_def Let_def split: if_splits)
  then show ?thesis using ok ok2 ok3 assms(1) by (auto intro: keeps)
qed

lemma distinct_values_set:
  assumes "dict_ok d" and "distinct (map (f \<circ> snd) d)" and "\<forall>kv \<in> set d. fst kv \<noteq> k \<longrightarrow> f (snd kv) \<noteq> f v"
  shows "distinct (map (f \<circ> snd) (dict_set d k v))"
  using assms
proof (induction d)
  case (Cons a d)
  show ?case
  proof (cases "fst a = k")
    case True
    with Cons.prems have "\<forall>kv \<in> set d. f (snd kv) \<noteq> f v"
      by (metis dict_ok_def distinct.simps(2) image_eqI list.set_intros(2) list.set_map list.simps(9))
    with True Cons.prems show ?thesis by (cases a) (auto simp: dict_set_def image_iff)
  next
    case False
    have "f (snd a) \<notin> (f \<circ> snd) ` set (dict_set d k v)"
      using set_dict_set_subset [of d k v] False Cons.prems(2,3) by (fastforce simp: image_iff)
    with False Cons show ?thesis by (cases a) (auto simp: dict_set_def dict_ok_def)
  qed
qed (simp add: dict_set_def)

lemma home_ok_set_plan:
  assumes "home_ok st" and "plan_ok p" and "session_active st (pn_session p)" and "fenced st (t, p)"
    and "\<forall>tp \<in> set (hs_plans st). fst tp \<noteq> t \<longrightarrow> pn_sequence (snd tp) \<noteq> pn_sequence p"
    and "hs_sequence st \<le> n" and "pn_sequence p \<le> n"
  shows "home_ok (st\<lparr>hs_sequence := n, hs_plans := dict_set (hs_plans st) t p\<rparr>)"
proof -
  have "dict_ok (hs_plans st)" "distinct (map (pn_sequence \<circ> snd) (hs_plans st))"
    using assms(1) by (auto simp: home_ok_but_def)
  note d = distinct_values_set [OF this assms(5)]
  have "plan_ok (snd tp) \<and> pn_sequence (snd tp) \<le> n \<and> fenced st tp \<and> session_active st (pn_session (snd tp))"
    if "tp \<in> set (dict_set (hs_plans st) t p)" for tp
  proof -
    from that set_dict_set_subset [of "hs_plans st" t p] have "tp = (t, p) \<or> tp \<in> set (hs_plans st)" by blast
    then show ?thesis using assms by (auto simp: home_ok_but_def)
  qed
  with d assms(1) show ?thesis by (simp add: home_ok_but_def)
qed

lemma reserve_cases:
  assumes "reserve sha home rv now reg = Inr (b, reg')"
  obtains "\<not> b" "dict_get reg home = None" "reg' = reg"
  | st0 where "\<not> b" "dict_get reg home = Some st0" "reg' = dict_set reg home (purge_expired now st0)"
  | st0 st where "b" "dict_get reg home = Some st0" "st = purge_expired now st0"
      "session_active st (rv_session rv)" "dict_get (hs_plans st) (rv_turn rv) = None"
      "dict_get (hs_current st) (rv_session rv) = map_option (\<lambda>owner. (rv_turn rv, owner)) (rv_owner rv)"
      "reg' = dict_set reg home (st\<lparr>hs_sequence := hs_sequence st + 1,
         hs_plans := dict_set (hs_plans st) (rv_turn rv) (reserved_plan sha rv now (hs_sequence st + 1))\<rparr>)"
proof (cases "dict_get reg home")
  case None
  with assms that(1) show ?thesis by (simp add: reserve_def split: if_splits)
next
  case (Some st0)
  show ?thesis
  proof (cases b)
    case False
    with assms Some that(2) show ?thesis
      by (simp add: reserve_def Let_def split: if_splits)
  next
    case True
    with assms Some have "session_active (purge_expired now st0) (rv_session rv)"
      "dict_get (hs_plans (purge_expired now st0)) (rv_turn rv) = None"
      "dict_get (hs_current (purge_expired now st0)) (rv_session rv) =
         map_option (\<lambda>owner. (rv_turn rv, owner)) (rv_owner rv)"
      "reg' = dict_set reg home ((purge_expired now st0)\<lparr>hs_sequence := hs_sequence (purge_expired now st0) + 1,
         hs_plans := dict_set (hs_plans (purge_expired now st0)) (rv_turn rv)
           (reserved_plan sha rv now (hs_sequence (purge_expired now st0) + 1))\<rparr>)"
      by (auto simp: reserve_def Let_def split: if_splits option.splits)
    with that(3) True Some show ?thesis by blast
  qed
qed

lemma reserve_ok:
  assumes "registry_ok reg" and "reserve sha home rv now reg = Inr (b, reg')"
  shows "registry_ok reg'"
  using assms(2)
proof (cases rule: reserve_cases)
  case (3 st0 st)
  have ok: "home_ok st" unfolding 3 by (rule home_ok_but_purge [OF registry_ok_get [OF assms(1) 3(2)]])
  have "home_ok (st\<lparr>hs_sequence := hs_sequence st + 1, hs_plans := dict_set (hs_plans st) (rv_turn rv)
      (reserved_plan sha rv now (hs_sequence st + 1))\<rparr>)"
    using ok 3(4,6)
    by (intro home_ok_set_plan ok) (auto simp: plan_ok_def home_ok_but_def fenced_def reserved_plan_def)
  then show ?thesis using assms(1) 3(7) by (simp add: keeps)
qed (use assms(1) in \<open>auto intro!: registry_ok_set home_ok_but_purge dest: registry_ok_get\<close>)

lemma home_ok_replace_plan:
  assumes "home_ok st" and "dict_get (hs_plans st) t = Some p" and "plan_ok p'"
    and "pn_sequence p' = pn_sequence p" and "pn_session p' = pn_session p" and "pn_owner p' = pn_owner p"
  shows "home_ok (st\<lparr>hs_plans := dict_set (hs_plans st) t p'\<rparr>)"
proof -
  have mem: "(t, p) \<in> set (hs_plans st)" by (rule dict_get_in_set [OF assms(2)])
  then have p: "pn_sequence p \<le> hs_sequence st" "fenced st (t, p)" "session_active st (pn_session p)"
    using assms(1) by (auto simp: home_ok_but_def)
  have "pn_sequence (snd tp) \<noteq> pn_sequence p" if "tp \<in> set (hs_plans st)" "fst tp \<noteq> t" for tp
    using assms(1) that mem by (force simp: home_ok_but_def distinct_map inj_on_def)
  then have "home_ok (st\<lparr>hs_sequence := hs_sequence st, hs_plans := dict_set (hs_plans st) t p'\<rparr>)"
    using p assms by (intro home_ok_set_plan) (auto simp: fenced_def)
  then show ?thesis by simp
qed

lemma finalize_cases:
  assumes "finalize home turn mode action query owner now reg = Inr (b, reg')"
  obtains "\<not> b" "dict_get reg home = None" "reg' = reg"
  | st0 where "\<not> b" "dict_get reg home = Some st0" "reg' = dict_set reg home (purge_expired now st0)"
  | st0 p where "b" "dict_get reg home = Some st0" "dict_get (hs_plans (purge_expired now st0)) turn = Some p"
      "pn_action p = None" "pn_mode p = mode" "pn_owner p = owner" "action_ok action query"
      "case pn_publish_before p of None \<Rightarrow> True | Some d \<Rightarrow> now < d"
      "reg' = dict_set reg home ((purge_expired now st0)\<lparr>hs_plans :=
         dict_set (hs_plans (purge_expired now st0)) turn (p\<lparr>pn_action := Some action, pn_query := query\<rparr>)\<rparr>)"
proof (cases "dict_get reg home")
  case None
  with assms that(1) show ?thesis by (simp add: finalize_def split: if_splits)
next
  case (Some st0)
  show ?thesis
  proof (cases b)
    case False
    with assms Some that(2) show ?thesis
      by (auto simp: finalize_def Let_def split: if_splits option.splits)
  next
    case True
    with assms Some obtain p where "dict_get (hs_plans (purge_expired now st0)) turn = Some p"
      "pn_action p = None" "pn_mode p = mode" "pn_owner p = owner" "action_ok action query"
      "case pn_publish_before p of None \<Rightarrow> True | Some d \<Rightarrow> now < d"
      "reg' = dict_set reg home ((purge_expired now st0)\<lparr>hs_plans :=
         dict_set (hs_plans (purge_expired now st0)) turn (p\<lparr>pn_action := Some action, pn_query := query\<rparr>)\<rparr>)"
      by (auto simp: finalize_def Let_def not_le split: if_splits option.splits)
    with that(3) True Some show ?thesis by blast
  qed
qed

lemma finalize_ok:
  assumes "registry_ok reg" and "finalize home turn mode action query owner now reg = Inr (b, reg')"
  shows "registry_ok reg'"
  using assms(2)
proof (cases rule: finalize_cases)
  case (3 st0 p)
  have "home_ok ((purge_expired now st0)\<lparr>hs_plans :=
      dict_set (hs_plans (purge_expired now st0)) turn (p\<lparr>pn_action := Some action, pn_query := query\<rparr>)\<rparr>)"
    using 3 by (intro home_ok_replace_plan [OF home_ok_but_purge [OF registry_ok_get [OF assms(1)]]])
      (auto simp: plan_ok_def)
  then show ?thesis using assms(1) 3 by (simp add: keeps)
qed (use assms(1) in \<open>auto intro!: registry_ok_set home_ok_but_purge dest: registry_ok_get\<close>)

lemma cancel_ok:
  assumes "registry_ok reg" and "cancel home turn owner reg = Inr reg'"
  shows "registry_ok reg'"
proof (cases "dict_get reg home")
  case None
  with assms show ?thesis by (simp add: cancel_def split: if_splits)
next
  case (Some st)
  have ok: "home_ok st" by (rule registry_ok_get [OF assms(1) Some])
  have pop: "home_ok (st\<lparr>hs_plans := dict_pop (hs_plans st) turn\<rparr>)"
    unfolding dict_pop_def by (rule home_ok_but_plans [OF ok])
  have rep: "home_ok (st\<lparr>hs_plans := dict_set (hs_plans st) turn
      (p\<lparr>pn_action := None, pn_query := None, pn_publish_before := Some 0\<rparr>)\<rparr>)"
    if "dict_get (hs_plans st) turn = Some p" for p
    by (rule home_ok_replace_plan [OF ok that]) (simp_all add: plan_ok_def)
  show ?thesis using assms Some ok pop rep
    by (auto simp: cancel_def Let_def split: if_splits option.splits intro: keeps)
qed


lemma home_ok_resolve:
  assumes "home_ok st" and "resolve_active_session st s = (r, st')"
  shows "home_ok st'"
proof -
  from assms(2) have "st' = st \<or> st' = st\<lparr>hs_redirects := dict_pop (hs_redirects st) s\<rparr>"
    by (auto simp: resolve_active_session_def Let_def split: if_splits option.splits)
  moreover have "dict_ok (dict_pop (hs_redirects st) s)" using assms(1) by (simp add: home_ok_but_def)
  ultimately show ?thesis using assms(1) home_ok_but_redirects by blast
qed

text \<open>
  Once the current turn of a session is closed, no plan of that session is left: by the fence every
  plan of the session belonged to that turn.
\<close>

lemma home_ok_close:
  assumes "home_ok st" and "close_current s now st = (r, st')"
  shows "home_ok st'"
proof (cases "dict_get (hs_current st) s")
  case None
  with assms show ?thesis by (simp add: close_current_def)
next
  case (Some k)
  obtain turn owner where k: "k = (turn, owner)" by (cases k)
  let ?st = "st\<lparr>hs_plans := dict_pop (hs_plans st) turn\<rparr>"
  let ?st1 = "?st\<lparr>hs_current := dict_pop (hs_current st) s\<rparr>"
  have ok: "home_ok ?st" unfolding dict_pop_def by (rule home_ok_but_plans [OF assms(1)])
  have "pn_session (snd tp) \<noteq> s" if "tp \<in> set (hs_plans ?st)" for tp
  proof
    assume "pn_session (snd tp) = s"
    moreover have "fenced st tp" using assms(1) that by (auto simp: home_ok_but_def set_dict_pop)
    ultimately have "fst tp = turn" using Some k by (cases "pn_owner (snd tp)") (auto simp: fenced_def)
    with that show False by (auto simp: set_dict_pop)
  qed
  with ok have "home_ok ?st1" by (auto simp: home_ok_but_def fenced_def set_dict_pop)
  then have "home_ok (?st1\<lparr>hs_closed := dict_set (hs_closed st) (s, turn) (now + PLAN_MAX_AGE_SECONDS)\<rparr>)"
    by (rule home_ok_but_closed) (use assms(1) in \<open>simp add: home_ok_but_def\<close>)
  then have "home_ok (?st1\<lparr>hs_closed := dict_set (hs_closed st) (s, turn) (now + PLAN_MAX_AGE_SECONDS),
      hs_redirects := filter (\<lambda>(_, redirect). redirect \<noteq> (s, turn)) (hs_redirects st)\<rparr>)"
    by (rule home_ok_but_redirects) (use assms(1) in \<open>simp add: home_ok_but_def dict_ok_filter\<close>)
  with assms(2) Some k show ?thesis by (cases st) (auto simp: close_current_def)
qed

text \<open>What a call of \<open>consume\<close> does, case by case.\<close>

lemma consume_cases:
  assumes "consume sha home query s now reg = Inr (res, reg')"
  obtains "res = (None, None)" "dict_get reg home = None" "reg' = reg"
  | st0 st where "res = (None, None)" "dict_get reg home = Some st0"
      "resolve_active_session (purge_expired now st0) s = (None, st)" "reg' = dict_set reg home st"
  | st0 st target redirected current st1 where "res = (None, None)" "dict_get reg home = Some st0"
      "resolve_active_session (purge_expired now st0) s = (Some (target, redirected), st)"
      "close_current target now st = (current, st1)" "reg' = dict_set reg home st1"
  | st0 st target redirected current st1 matches tp where "dict_get reg home = Some st0"
      "resolve_active_session (purge_expired now st0) s = (Some (target, redirected), st)"
      "close_current target now st = (current, st1)"
      "matches = filter (\<lambda>(_, p). pn_digest p = query_digest sha query)
         (candidates_of target (length query) redirected current st1)"
      "first_by (\<lambda>(_, p). - pn_sequence p) matches = Some tp"
      "res = (plan_of tp, pn_evaluation (snd tp))"
      "reg' = dict_set reg home (st1\<lparr>hs_plans := filter (\<lambda>(turn, _). turn \<notin> fst ` set matches) (hs_plans st1)\<rparr>)"
proof (cases "dict_get reg home")
  case None
  with assms that(1) show ?thesis by (simp add: consume_def split: if_splits)
next
  case (Some st0)
  obtain r st where r: "resolve_active_session (purge_expired now st0) s = (r, st)" by force
  show ?thesis
  proof (cases r)
    case None
    with assms Some r that(2) show ?thesis by (simp add: consume_def split: if_splits)
  next
    case r': (Some tr)
    obtain target redirected where tr: "tr = (target, redirected)" by (cases tr)
    obtain current st1 where c: "close_current target now st = (current, st1)" by force
    let ?m = "filter (\<lambda>(_, p). pn_digest p = query_digest sha query)
         (candidates_of target (length query) redirected current st1)"
    note rr = r [unfolded r' tr]
    show ?thesis
    proof (cases "first_by (\<lambda>(_, p). - pn_sequence p) ?m")
      case None
      with assms Some rr c have "res = (None, None)" "reg' = dict_set reg home st1"
        by (simp_all add: consume_def split: if_splits)
      then show ?thesis using that(3) Some rr c by blast
    next
      case tp: (Some tp)
      with assms Some rr c have "res = (plan_of tp, pn_evaluation (snd tp))"
        "reg' = dict_set reg home (st1\<lparr>hs_plans := filter (\<lambda>(turn, _). turn \<notin> fst ` set ?m) (hs_plans st1)\<rparr>)"
        by (simp_all add: consume_def split: if_splits)
      with that(4) [OF Some rr c refl tp] show ?thesis by blast
    qed
  qed
qed

lemma consume_ok:
  assumes "registry_ok reg" and "consume sha home query s now reg = Inr (res, reg')"
  shows "registry_ok reg'"
  using assms(2)
proof (cases rule: consume_cases)
  case 1
  with assms(1) show ?thesis by simp
next
  case (2 st0 st)
  have "home_ok st" by (rule home_ok_resolve [OF home_ok_but_purge [OF registry_ok_get [OF assms(1) 2(2)]] 2(3)])
  with assms(1) 2(4) show ?thesis by (simp add: registry_ok_set)
next
  case (3 st0 st target redirected current st1)
  have "home_ok st" by (rule home_ok_resolve [OF home_ok_but_purge [OF registry_ok_get [OF assms(1) 3(2)]] 3(3)])
  then have "home_ok st1" by (rule home_ok_close [OF _ 3(4)])
  with assms(1) 3(5) show ?thesis by (simp add: registry_ok_set)
next
  case (4 st0 st target redirected current st1 matches tp)
  have "home_ok st" by (rule home_ok_resolve [OF home_ok_but_purge [OF registry_ok_get [OF assms(1) 4(1)]] 4(2)])
  then have "home_ok st1" by (rule home_ok_close [OF _ 4(3)])
  with assms(1) 4(7) show ?thesis by (simp add: registry_ok_set home_ok_but_plans)
qed

lemma clear_session_plans_ok:
  assumes "registry_ok reg" and "clear_session_plans home s reg = Inr reg'"
  shows "registry_ok reg'"
proof -
  have "home_ok (clear_session s True st)" if "dict_get reg home = Some st" for st
    using home_ok_but_clear [OF registry_ok_get [OF assms(1) that], of s True] by simp
  with assms show ?thesis
    by (auto simp: clear_session_plans_def split: if_splits option.splits intro: registry_ok_drop)
qed

lemma purge_stale_ok: "registry_ok reg \<Longrightarrow> registry_ok (purge_stale home now reg)"
  by (auto simp: purge_stale_def split: option.splits
      intro!: registry_ok_drop home_ok_but_purge dest: registry_ok_get)

end
