(* ===== verification/MailboxRuns.thy ===== *)
theory MailboxRuns
  imports MailboxInvariant Runs
begin

text \<open>
  Runs of mailbox operations. An event is the home, the operation and its answer. \<open>slot\<close> is
  the plan a registry holds for one turn of one home; \<open>slot_step\<close> is the specification of a
  slot, and every operation of the code is a step of it.
\<close>

section \<open>Operations and runs\<close>

datatype mail_op =
    Activate string string real
  | Deactivate string real
  | Rebind string string string real
  | IsActive string real
  | BeginTurn string string string string real
  | Reserve reservation real
  | Finalize string plan_mode plan_action "ustr option" "string option" real
  | Cancel string "string option"
  | Consume ustr string real
  | ClearSession string
  | PurgeStale real

datatype mail_result =
    Failed mail_error
  | Done
  | Token string
  | Answer bool
  | Turn "string option"
  | Delivered "recall_plan option" "string option"

type_synonym mail_event = "(string \<times> mail_op) \<times> mail_result"

primrec mail_step :: "(bytes \<Rightarrow> string) \<Rightarrow> string \<Rightarrow> mail_op \<Rightarrow> registry \<Rightarrow> mail_result \<times> registry" where
  "mail_step sha home (Activate session token now) reg =
     (case activate home session token now reg of Inl e \<Rightarrow> (Failed e, reg) | Inr (t, reg') \<Rightarrow> (Token t, reg'))"
| "mail_step sha home (Deactivate token now) reg =
     (case deactivate home token now reg of Inl e \<Rightarrow> (Failed e, reg) | Inr reg' \<Rightarrow> (Done, reg'))"
| "mail_step sha home (Rebind token session parent now) reg =
     (case rebind home token session parent now reg of
        Inl e \<Rightarrow> (Failed e, reg) | Inr (b, reg') \<Rightarrow> (Answer b, reg'))"
| "mail_step sha home (IsActive session now) reg =
     (case is_active home session now reg of Inl e \<Rightarrow> (Failed e, reg) | Inr (b, reg') \<Rightarrow> (Answer b, reg'))"
| "mail_step sha home (BeginTurn session turn parent owner now) reg =
     (case begin_turn home session turn parent owner now reg of
        Inl e \<Rightarrow> (Failed e, reg) | Inr (r, reg') \<Rightarrow> (Turn r, reg'))"
| "mail_step sha home (Reserve rv now) reg =
     (case reserve sha home rv now reg of Inl e \<Rightarrow> (Failed e, reg) | Inr (b, reg') \<Rightarrow> (Answer b, reg'))"
| "mail_step sha home (Finalize turn mode action query owner now) reg =
     (case finalize home turn mode action query owner now reg of
        Inl e \<Rightarrow> (Failed e, reg) | Inr (b, reg') \<Rightarrow> (Answer b, reg'))"
| "mail_step sha home (Cancel turn owner) reg =
     (case cancel home turn owner reg of Inl e \<Rightarrow> (Failed e, reg) | Inr reg' \<Rightarrow> (Done, reg'))"
| "mail_step sha home (Consume query session now) reg =
     (case consume sha home query session now reg of
        Inl e \<Rightarrow> (Failed e, reg) | Inr ((r, ev), reg') \<Rightarrow> (Delivered r ev, reg'))"
| "mail_step sha home (ClearSession session) reg =
     (case clear_session_plans home session reg of Inl e \<Rightarrow> (Failed e, reg) | Inr reg' \<Rightarrow> (Done, reg'))"
| "mail_step sha home (PurgeStale now) reg = (Done, purge_stale home now reg)"

definition mail_op_step :: "(bytes \<Rightarrow> string) \<Rightarrow> string \<times> mail_op \<Rightarrow> registry \<Rightarrow> mail_result \<times> registry" where
  "mail_op_step sha hop = mail_step sha (fst hop) (snd hop)"

definition mail_run :: "(bytes \<Rightarrow> string) \<Rightarrow> (string \<times> mail_op) list \<Rightarrow> registry \<Rightarrow> mail_event list \<times> registry" where
  "mail_run sha = trace_run (mail_op_step sha)"

section \<open>The slot of a turn\<close>

definition home_of :: "registry \<Rightarrow> string \<Rightarrow> home_state" where
  "home_of reg home = (case dict_get reg home of None \<Rightarrow> new_home | Some st \<Rightarrow> st)"

definition slot :: "registry \<Rightarrow> string \<Rightarrow> string \<Rightarrow> stored_plan option" where
  "slot reg home turn = dict_get (hs_plans (home_of reg home)) turn"

inductive slot_step :: "(bytes \<Rightarrow> string) \<Rightarrow> mail_event \<Rightarrow> string \<Rightarrow> string
    \<Rightarrow> stored_plan option \<Rightarrow> stored_plan option \<Rightarrow> bool"
  for sha :: "bytes \<Rightarrow> string" where
  keep: "slot_step sha ev home turn x x"
| lose: "slot_step sha ev home turn x None"
| reserved: "slot_step sha ((home, Reserve rv now), Answer True) home (rv_turn rv) x (Some (reserved_plan sha rv now n))"
| published: "pn_action p = None \<Longrightarrow> pn_mode p = mode \<Longrightarrow> pn_owner p = owner \<Longrightarrow> action_ok action query \<Longrightarrow>
    now < pn_expires p \<Longrightarrow> (case pn_publish_before p of None \<Rightarrow> True | Some d \<Rightarrow> now < d) \<Longrightarrow>
    slot_step sha ((home, Finalize turn mode action query owner now), Answer True) home turn (Some p)
      (Some (p\<lparr>pn_action := Some action, pn_query := query\<rparr>))"
| withdrawn: "pn_owner p = owner \<Longrightarrow>
    slot_step sha ((home, Cancel turn owner), Done) home turn (Some p)
      (Some (p\<lparr>pn_action := None, pn_query := None, pn_publish_before := Some 0\<rparr>))"

inductive_cases slot_step_none_elim: "slot_step sha ev home turn None (Some p)"
inductive_cases slot_step_some_elim: "slot_step sha ev home turn x (Some p)"

lemma home_of_set [simp]: "home_of (dict_set reg h st) h' = (if h' = h then st else home_of reg h')"
  by (simp add: home_of_def)

lemma home_of_get: "dict_get reg h = Some st \<Longrightarrow> home_of reg h = st"
  by (simp add: home_of_def)

lemma slot_set [simp]:
  "slot (dict_set reg h st) h' t = (if h' = h then dict_get (hs_plans st) t else slot reg h' t)"
  by (simp add: slot_def)

lemma slot_drop [simp]:
  "slot (drop_empty_home h st reg) h' t = (if h' = h then dict_get (hs_plans st) t else slot reg h' t)"
  by (auto simp: slot_def drop_empty_home_def home_of_def new_home_def)

lemma slot_absent: "dict_get reg h = None \<Longrightarrow> slot reg h t = None"
  by (simp add: slot_def home_of_def new_home_def)

lemma slot_get: "dict_get reg h = Some st \<Longrightarrow> slot reg h t = dict_get (hs_plans st) t"
  by (simp add: slot_def home_of_def)

text \<open>Operations that only drop plans.\<close>

definition fewer :: "home_state \<Rightarrow> home_state \<Rightarrow> bool" where
  "fewer st st' \<longleftrightarrow> (\<forall>t. dict_get (hs_plans st') t = None \<or> dict_get (hs_plans st') t = dict_get (hs_plans st) t)"

definition drops :: "home_state \<Rightarrow> home_state \<Rightarrow> bool" where
  "drops st st' \<longleftrightarrow> (\<exists>P. hs_plans st' = filter P (hs_plans st))"

lemma drops_refl [simp]: "drops st st"
  unfolding drops_def by (rule exI [of _ "\<lambda>_. True"]) simp

lemma drops_updates [simp]:
  "drops st (st'\<lparr>hs_activations := a\<rparr>) = drops st st'"
  "drops st (st'\<lparr>hs_current := k\<rparr>) = drops st st'"
  "drops st (st'\<lparr>hs_closed := c\<rparr>) = drops st st'"
  "drops st (st'\<lparr>hs_redirects := r\<rparr>) = drops st st'"
  by (simp_all add: drops_def)

lemma drops_clear [simp]: "drops st st' \<Longrightarrow> drops st (clear_session s b st')"
  by (auto simp: drops_def clear_session_def)

lemma fewer_refl [simp]: "fewer st st"
  by (simp add: fewer_def)

lemma fewer_trans: "fewer st st' \<Longrightarrow> fewer st' st'' \<Longrightarrow> fewer st st''"
  unfolding fewer_def by metis

lemma fewer_filter:
  "dict_ok (hs_plans st) \<Longrightarrow> hs_plans st' = filter P (hs_plans st) \<Longrightarrow> fewer st st'"
  using dict_get_filter [of "hs_plans st" "\<lambda>k v. P (k, v)"]
  by (auto simp: fewer_def split: option.splits if_splits)

lemma drops_fewer: "drops st st' \<Longrightarrow> dict_ok (hs_plans st) \<Longrightarrow> fewer st st'"
  by (auto simp: drops_def intro: fewer_filter)

lemma home_ok_plans: "home_ok_but S st \<Longrightarrow> dict_ok (hs_plans st)"
  by (simp add: home_ok_but_def)

lemma fewer_purge: "home_ok st \<Longrightarrow> fewer st (purge_expired now st)"
  by (rule fewer_filter) (auto simp: purge_expired_def home_ok_plans)

lemma fewer_clear: "dict_ok (hs_plans st) \<Longrightarrow> fewer st (clear_session s b st)"
  by (rule fewer_filter) (auto simp: clear_session_def)

lemma purge_expired_get:
  "home_ok st \<Longrightarrow> dict_get (hs_plans (purge_expired now st)) t = Some p \<Longrightarrow>
     dict_get (hs_plans st) t = Some p \<and> now < pn_expires p"
  using dict_get_filter [of "hs_plans st" "\<lambda>_ p. \<not> pn_expires p \<le> now" t]
  by (auto simp: purge_expired_def home_ok_but_def split: option.splits if_splits)

lemma fewer_slot:
  assumes "registry_ok reg" and "dict_get reg h = Some st0" and "fewer st0 st"
  shows "slot_step sha ev h' t (slot reg h' t) (slot (dict_set reg h st) h' t)"
    and "slot_step sha ev h' t (slot reg h' t) (slot (drop_empty_home h st reg) h' t)"
  using assms(3) slot_get [OF assms(2), of t]
  by (auto simp: fewer_def intro: slot_step.intros dest!: spec [of _ t])


lemma resolve_plans: "resolve_active_session st s = (r, st') \<Longrightarrow> hs_plans st' = hs_plans st"
  by (auto simp: resolve_active_session_def Let_def split: if_splits option.splits)

lemma fewer_close: "home_ok st \<Longrightarrow> close_current s now st = (r, st') \<Longrightarrow> fewer st st'"
  by (rule fewer_filter [of _ _ "\<lambda>(k, _). dict_get (hs_current st) s = None \<or> Some k \<noteq> map_option fst (dict_get (hs_current st) s)"])
    (auto simp: close_current_def home_ok_plans dict_pop_def split: option.splits)

lemma candidates_get:
  assumes "home_ok st" and "close_current s now st = (current, st1)"
    and "(t, p) \<in> set (candidates_of s n redirected current st1)"
  shows "dict_get (hs_plans st) t = Some p" and "pn_length p = n" and "pn_session p = s"
proof -
  have "dict_get (hs_plans st) t = Some p \<and> pn_length p = n \<and> pn_session p = s"
  proof (cases "dict_get (hs_current st) s")
    case None
    with assms show ?thesis
      by (auto simp: close_current_def candidates_of_def Let_def home_ok_but_def dict_get_Some_iff)
  next
    case (Some k)
    with assms(2,3) show ?thesis
      by (cases k) (auto simp: close_current_def candidates_of_def Let_def split: option.splits if_splits)
  qed
  then show "dict_get (hs_plans st) t = Some p" "pn_length p = n" "pn_session p = s" by simp_all
qed

lemma first_by_filter:
  "first_by f (filter P xs) = Some x \<Longrightarrow> x \<in> set xs \<and> P x"
  using first_by_Some(1) [of f "filter P xs" x] by simp

lemma consume_delivers:
  assumes "registry_ok reg" and "consume sha home query s now reg = Inr ((Some rp, ev), reg')"
  obtains p where "slot reg home (rp_turn rp) = Some p" "pn_action p = Some (rp_action rp)"
    "pn_query p = rp_query rp" "pn_mode p = rp_mode rp" "pn_digest p = query_digest sha query"
    "pn_length p = length query" "now < pn_expires p" "slot reg' home (rp_turn rp) = None"
  using assms(2)
proof (cases rule: consume_cases)
  case (4 st0 st target redirected current st1 matches tp)
  obtain t p where tp: "tp = (t, p)" by (cases tp)
  have ok0: "home_ok (purge_expired now st0)"
    by (rule home_ok_but_purge [OF registry_ok_get [OF assms(1) 4(1)]])
  have okst: "home_ok st" by (rule home_ok_resolve [OF ok0 4(2)])
  from first_by_filter [OF 4(5) [unfolded 4(4)]] tp
  have c: "(t, p) \<in> set (candidates_of target (length query) redirected current st1)"
    and d: "pn_digest p = query_digest sha query" by auto
  have tm: "tp \<in> set matches" by (rule first_by_Some(1) [OF 4(5)])
  from candidates_get [OF okst 4(3) c] resolve_plans [OF 4(2)]
  have g: "dict_get (hs_plans (purge_expired now st0)) t = Some p" and l: "pn_length p = length query" by simp_all
  from 4(6) tp have rp: "rp_turn rp = t" "pn_action p = Some (rp_action rp)" "pn_query p = rp_query rp"
    "pn_mode p = rp_mode rp"
    by (auto simp: plan_of_def split: option.splits)
  have "slot reg home t = Some p" "now < pn_expires p"
    using purge_expired_get [OF registry_ok_get [OF assms(1) 4(1)] g] slot_get [OF 4(1)] by simp_all
  moreover have "slot reg' home t = None"
    using tm tp 4(7) by (force simp: dict_get_None_iff)
  ultimately show ?thesis using that rp d l by simp
qed auto

section \<open>Every operation is a step of every slot\<close>

lemma consume_slot:
  assumes "registry_ok reg" and "consume sha home query s now reg = Inr (res, reg')"
  shows "slot_step sha ev h t (slot reg h t) (slot reg' h t)"
  using assms(2)
proof (cases rule: consume_cases)
  case 1
  then show ?thesis by (simp add: keep)
next
  case (2 st0 st)
  then show ?thesis
    using fewer_slot(1) [OF assms(1) 2(2), of st] fewer_purge [OF registry_ok_get [OF assms(1) 2(2)], of now]
      resolve_plans [OF 2(3)] by (simp add: fewer_def)
next
  case (3 st0 st target redirected current st1)
  note ok0 = home_ok_but_purge [OF registry_ok_get [OF assms(1) 3(2)], of now]
  have "fewer st0 st"
    using fewer_purge [OF registry_ok_get [OF assms(1) 3(2)], of now] resolve_plans [OF 3(3)] by (simp add: fewer_def)
  then have "fewer st0 st1"
    using fewer_close [OF home_ok_resolve [OF ok0 3(3)] 3(4)] by (rule fewer_trans)
  with 3 show ?thesis using fewer_slot(1) [OF assms(1) 3(2)] by simp
next
  case (4 st0 st target redirected current st1 matches tp)
  note ok0 = home_ok_but_purge [OF registry_ok_get [OF assms(1) 4(1)], of now]
  note ok1 = home_ok_close [OF home_ok_resolve [OF ok0 4(2)] 4(3)]
  have "fewer st0 st"
    using fewer_purge [OF registry_ok_get [OF assms(1) 4(1)], of now] resolve_plans [OF 4(2)] by (simp add: fewer_def)
  then have "fewer st0 st1"
    using fewer_close [OF home_ok_resolve [OF ok0 4(2)] 4(3)] by (rule fewer_trans)
  then have "fewer st0 (st1\<lparr>hs_plans := filter (\<lambda>(turn, _). turn \<notin> fst ` set matches) (hs_plans st1)\<rparr>)"
    by (rule fewer_trans) (rule fewer_filter, use ok1 in \<open>auto simp: home_ok_plans\<close>)
  with 4(7) show ?thesis using fewer_slot(1) [OF assms(1) 4(1)] by simp
qed

lemma begin_turn_slot:
  assumes "registry_ok reg" and "begin_turn home session turn parent owner now reg = Inr (r, reg')"
  shows "slot_step sha ev h t (slot reg h t) (slot reg' h t)"
proof (cases "dict_get reg home")
  case None
  with assms show ?thesis by (auto simp: begin_turn_def keep split: if_splits)
next
  case (Some st0)
  note ok = registry_ok_get [OF assms(1) Some]
  have "\<exists>st. reg' = dict_set reg home st \<and> drops (purge_expired now st0) st"
    using assms(2) Some
    by (auto simp: begin_turn_def Let_def split: if_splits option.splits)
  then obtain st where reg': "reg' = dict_set reg home st" and st: "drops (purge_expired now st0) st" by blast
  have "fewer (purge_expired now st0) st"
    by (rule drops_fewer [OF st home_ok_plans [OF home_ok_but_purge [OF ok]]])
  then have "fewer st0 st" by (rule fewer_trans [OF fewer_purge [OF ok]])
  then show ?thesis unfolding reg' by (rule fewer_slot(1) [OF assms(1) Some])
qed

lemma rebind_slot:
  assumes "registry_ok reg" and "rebind home token new parent now reg = Inr (b, reg')"
  shows "slot_step sha ev h t (slot reg h t) (slot reg' h t)"
proof -
  from assms(2) obtain st0 where st0: "dict_get reg home = Some st0"
    by (auto simp: rebind_def split: if_splits option.splits)
  note ok = registry_ok_get [OF assms(1) st0]
  have "\<exists>st. reg' = dict_set reg home st \<and> drops (purge_expired now st0) st"
    using assms(2) st0
    by (auto simp: rebind_def Let_def split: if_splits option.splits)
  then obtain st where reg': "reg' = dict_set reg home st" and st: "drops (purge_expired now st0) st" by blast
  have "fewer (purge_expired now st0) st"
    by (rule drops_fewer [OF st home_ok_plans [OF home_ok_but_purge [OF ok]]])
  then have "fewer st0 st" by (rule fewer_trans [OF fewer_purge [OF ok]])
  then show ?thesis unfolding reg' by (rule fewer_slot(1) [OF assms(1) st0])
qed

lemma deactivate_slot:
  assumes "registry_ok reg" and "deactivate home token now reg = Inr reg'"
  shows "slot_step sha ev h t (slot reg h t) (slot reg' h t)"
proof (cases "dict_get reg home")
  case None
  with assms show ?thesis by (auto simp: deactivate_def keep split: if_splits)
next
  case (Some st0)
  note ok = registry_ok_get [OF assms(1) Some]
  have "\<exists>st. reg' = drop_empty_home home st reg \<and> drops (purge_expired now st0) st"
    using assms(2) Some
    by (auto simp: deactivate_def Let_def split: if_splits option.splits)
  then obtain st where reg': "reg' = drop_empty_home home st reg" and st: "drops (purge_expired now st0) st" by blast
  have "fewer (purge_expired now st0) st"
    by (rule drops_fewer [OF st home_ok_plans [OF home_ok_but_purge [OF ok]]])
  then have "fewer st0 st" by (rule fewer_trans [OF fewer_purge [OF ok]])
  then show ?thesis unfolding reg' by (rule fewer_slot(2) [OF assms(1) Some])
qed


lemma reserve_slot:
  assumes "registry_ok reg" and "reserve sha home rv now reg = Inr (b, reg')"
  shows "slot_step sha ((home, Reserve rv now), Answer b) h t (slot reg h t) (slot reg' h t)"
  using assms(2)
proof (cases rule: reserve_cases)
  case 1
  then show ?thesis by (simp add: keep)
next
  case (2 st0)
  then show ?thesis
    using fewer_slot(1) [OF assms(1) 2(2) fewer_purge [OF registry_ok_get [OF assms(1) 2(2)]]] by simp
next
  case (3 st0 st)
  show ?thesis
  proof (cases "h = home \<and> t = rv_turn rv")
    case True
    with 3(1,7) show ?thesis by (auto intro: reserved)
  next
    case False
    have "fewer st0 st" unfolding 3 by (rule fewer_purge [OF registry_ok_get [OF assms(1) 3(2)]])
    from fewer_slot(1) [OF assms(1) 3(2) this, where h' = h and t = t] 3(7) False show ?thesis by auto
  qed
qed

lemma finalize_slot:
  assumes "registry_ok reg" and "finalize home turn mode action query owner now reg = Inr (b, reg')"
  shows "slot_step sha ((home, Finalize turn mode action query owner now), Answer b) h t (slot reg h t) (slot reg' h t)"
  using assms(2)
proof (cases rule: finalize_cases)
  case 1
  then show ?thesis by (simp add: keep)
next
  case (2 st0)
  then show ?thesis
    using fewer_slot(1) [OF assms(1) 2(2) fewer_purge [OF registry_ok_get [OF assms(1) 2(2)]]] by simp
next
  case (3 st0 p)
  note ok = registry_ok_get [OF assms(1) 3(2)]
  show ?thesis
  proof (cases "h = home \<and> t = turn")
    case True
    from purge_expired_get [OF ok 3(3)] slot_get [OF 3(2)] True
    have "slot reg h t = Some p" "now < pn_expires p" by simp_all
    with True 3 show ?thesis by (auto intro: published)
  next
    case False
    from fewer_slot(1) [OF assms(1) 3(2) fewer_purge [OF ok, of now], where h' = h and t = t] 3(9) False show ?thesis by auto
  qed
qed

lemma cancel_slot:
  assumes "registry_ok reg" and "cancel home turn owner reg = Inr reg'"
  shows "slot_step sha ((home, Cancel turn owner), Done) h t (slot reg h t) (slot reg' h t)"
proof (cases "dict_get reg home")
  case None
  with assms show ?thesis by (auto simp: cancel_def keep split: if_splits)
next
  case (Some st)
  show ?thesis
  proof (cases "dict_get (hs_plans st) turn")
    case None
    with assms(2) Some show ?thesis
      by (auto simp: cancel_def keep slot_get [OF Some] split: if_splits)
  next
    case p: (Some p)
    with assms(2) Some show ?thesis
      by (auto simp: cancel_def Let_def keep lose slot_get [OF Some] split: if_splits intro: withdrawn)
  qed
qed

lemma activate_slot: "activate home s token now reg = Inr (tok, reg') \<Longrightarrow> registry_ok reg \<Longrightarrow>
    slot_step sha ev h t (slot reg h t) (slot reg' h t)"
proof -
  assume a: "activate home s token now reg = Inr (tok, reg')" and ok: "registry_ok reg"
  show ?thesis
  proof (cases "dict_get reg home")
    case None
    with a show ?thesis
      by (auto simp: activate_def Let_def purge_expired_def new_home_def slot_absent keep split: if_splits)
  next
    case (Some st0)
    have "fewer st0 (purge_expired now st0)" by (rule fewer_purge [OF registry_ok_get [OF ok Some]])
    then have "fewer st0 ((purge_expired now st0)\<lparr>hs_activations :=
        dict_set (hs_activations (purge_expired now st0)) token s\<rparr>)"
      by (simp add: fewer_def)
    moreover have "reg' = dict_set reg home ((purge_expired now st0)\<lparr>hs_activations :=
        dict_set (hs_activations (purge_expired now st0)) token s\<rparr>)"
      using a Some by (auto simp: activate_def Let_def split: if_splits)
    ultimately show ?thesis by (metis fewer_slot(1) [OF ok Some])
  qed
qed

lemma is_active_slot: "is_active home s now reg = Inr (b, reg') \<Longrightarrow> registry_ok reg \<Longrightarrow>
    slot_step sha ev h t (slot reg h t) (slot reg' h t)"
  using fewer_slot(1) [OF _ _ fewer_purge [OF registry_ok_get], of reg home _ reg home]
  by (cases ev; cases "dict_get reg home") (auto simp: is_active_def Let_def keep simp del: slot_set split: if_splits)

lemma clear_session_slot: "clear_session_plans home s reg = Inr reg' \<Longrightarrow> registry_ok reg \<Longrightarrow>
    slot_step sha ev h t (slot reg h t) (slot reg' h t)"
  using fewer_slot(2) [OF _ _ fewer_clear [OF home_ok_plans [OF registry_ok_get]], of reg home _ reg home]
  by (cases ev; cases "dict_get reg home") (auto simp: clear_session_plans_def keep simp del: slot_drop split: if_splits)

lemma purge_stale_slot: "registry_ok reg \<Longrightarrow>
    slot_step sha ev h t (slot reg h t) (slot (purge_stale home now reg) h t)"
  using fewer_slot(2) [OF _ _ fewer_purge [OF registry_ok_get], of reg home _ reg home]
  by (cases "dict_get reg home") (auto simp: purge_stale_def keep simp del: slot_drop)

lemma mail_step_slot:
  assumes "registry_ok reg" and "mail_step sha home op reg = (result, reg')"
  shows "slot_step sha ((home, op), result) h t (slot reg h t) (slot reg' h t)"
  using assms
  by (cases op)
    (auto simp: keep reserve_slot finalize_slot cancel_slot activate_slot is_active_slot
      clear_session_slot purge_stale_slot rebind_slot begin_turn_slot deactivate_slot consume_slot
      split: sum.splits prod.splits)

definition fresh_token :: "registry \<Rightarrow> string \<times> mail_op \<Rightarrow> bool" where
  "fresh_token reg hop =
     (case snd hop of
        Activate _ token _ \<Rightarrow> dict_get (hs_activations (home_of reg (fst hop))) token = None
      | _ \<Rightarrow> True)"

definition fresh_tokens :: "(bytes \<Rightarrow> string) \<Rightarrow> (string \<times> mail_op) list \<Rightarrow> registry \<Rightarrow> bool" where
  "fresh_tokens sha = trace_allowed fresh_token (mail_op_step sha)"

lemma mail_step_ok:
  assumes "registry_ok reg" and "fresh_token reg (home, op)" and "mail_step sha home op reg = (result, reg')"
  shows "registry_ok reg'"
proof (cases op)
  case (Activate session token now)
  have "token \<notin> dict_keys (hs_activations st)" if "dict_get reg home = Some st" for st
    using assms(2) that Activate by (simp add: fresh_token_def home_of_def dict_get_None_iff)
  with assms Activate show ?thesis by (auto split: sum.splits prod.splits intro: activate_ok)
qed (use assms in \<open>auto split: sum.splits prod.splits intro: deactivate_ok rebind_ok is_active_ok begin_turn_ok
    reserve_ok finalize_ok cancel_ok consume_ok clear_session_plans_ok purge_stale_ok\<close>)

text \<open>The events that fill, use and take the slot of a turn.\<close>

fun fills_slot :: "string \<times> string \<Rightarrow> mail_event \<Rightarrow> bool" where
  "fills_slot (home, turn) ((h, Reserve rv now), Answer True) \<longleftrightarrow> h = home \<and> rv_turn rv = turn"
| "fills_slot k ev = False"

fun takes_slot :: "string \<times> string \<Rightarrow> mail_event \<Rightarrow> bool" where
  "takes_slot (home, turn) ((h, Consume query session now), Delivered (Some rp) ev) \<longleftrightarrow>
     h = home \<and> rp_turn rp = turn"
| "takes_slot k ev = False"

fun publishes_slot :: "string \<times> string \<Rightarrow> mail_event \<Rightarrow> bool" where
  "publishes_slot (home, turn) ((h, Finalize turn' mode action query owner now), Answer True) \<longleftrightarrow>
     h = home \<and> turn' = turn"
| "publishes_slot k ev = False"

definition uses_slot :: "string \<times> string \<Rightarrow> mail_event \<Rightarrow> bool" where
  "uses_slot k ev \<longleftrightarrow> takes_slot k ev \<or> publishes_slot k ev"

fun_cases fills_slotE: "fills_slot k ev"
fun_cases takes_slotE: "takes_slot k ev"
fun_cases publishes_slotE: "publishes_slot k ev"

interpretation mailbox: guarded "mail_op_step sha" registry_ok fresh_token
  for sha :: "bytes \<Rightarrow> string"
  by unfold_locales (auto simp: mail_op_step_def intro: mail_step_ok)

interpretation plan_slots: keyed_store "mail_op_step sha" registry_ok fresh_token
    "\<lambda>reg k. slot reg (fst k) (snd k) \<noteq> None" fills_slot uses_slot takes_slot
  for sha :: "bytes \<Rightarrow> string"
proof unfold_locales
  fix reg r reg' and op :: "string \<times> mail_op" and k :: "string \<times> string"
  assume ok: "registry_ok reg" and step: "mail_op_step sha op reg = (r, reg')"
  obtain home mop where op: "op = (home, mop)" by (cases op)
  obtain h t where k: "k = (h, t)" by (cases k)
  from step op have s: "mail_step sha home mop reg = (r, reg')" by (simp add: mail_op_step_def)
  note slot = mail_step_slot [OF ok s, of h t]
  show "\<not> slot reg' (fst k) (snd k) \<noteq> None" if "\<not> slot reg (fst k) (snd k) \<noteq> None" "\<not> fills_slot k (op, r)"
    using slot that k op by (cases "slot reg' h t") (auto elim!: slot_step_none_elim)
  have cons: "slot reg (fst k) (snd k) \<noteq> None \<and> slot reg' (fst k) (snd k) = None" if "takes_slot k (op, r)"
    using that s ok k op
    by (cases mop) (auto elim!: takes_slotE split: sum.splits elim: consume_delivers)
  then show "\<not> slot reg' (fst k) (snd k) \<noteq> None" if "takes_slot k (op, r)"
    using that by simp
  have "slot reg (fst k) (snd k) \<noteq> None" if "publishes_slot k (op, r)"
  proof -
    from that k op obtain mode action query owner now where
      m: "mop = Finalize t mode action query owner now" "r = Answer True" "home = h"
      by (auto elim!: publishes_slotE)
    with s have "finalize h t mode action query owner now reg = Inr (True, reg')"
      by (auto split: sum.splits)
    then show ?thesis
      by (cases rule: finalize_cases)
        (use k registry_ok_get [OF ok] slot_get in \<open>auto dest!: purge_expired_get\<close>)
  qed
  with cons show "slot reg (fst k) (snd k) \<noteq> None" if "uses_slot k (op, r)"
    using that by (auto simp: uses_slot_def)
qed

end
