(* ===== verification/Planner.thy ===== *)
theory Planner
  imports MailboxRuns Redaction
begin

text \<open>
  \<open>planner.py\<close>: the \<open>pre_llm_call\<close> companion, from the host's transcript to one published
  plan in the mailbox.

  Host functions are parameters, gathered in the record \<open>host\<close>: the extraction of the user's
  instruction from a skill message, the test for trivial prompts, and the egress scrub, which older
  hosts do not have and which may raise. The remote decision and the rewriting model answer through
  \<open>planner_env\<close>, with the readings of the clock, the fresh token and the outcome of
  \<open>load_config\<close>. Evaluation records and log events are not modelled.
\<close>

section \<open>Clipping and host rows\<close>

definition CLIP_MARKER :: ustr where
  "CLIP_MARKER = [10] @ lit ''['' @ [8230] @ lit '' clipped '' @ [8230] @ lit '']'' @ [10]"

definition clip_text :: "ustr \<Rightarrow> nat \<Rightarrow> ustr" where
  "clip_text text maximum =
     (if length text \<le> maximum then text
      else if maximum \<le> length CLIP_MARKER then take maximum text
      else
        (let remaining = maximum - length CLIP_MARKER;
             head = (remaining + 1) div 2;
             tail = remaining - head
         in if tail \<noteq> 0 then take head text @ CLIP_MARKER @ drop (length text - tail) text
            else take head text))"

definition py_get :: "(ustr \<times> py) list \<Rightarrow> string \<Rightarrow> py" where
  "py_get message key = (case dict_get message (lit key) of None \<Rightarrow> PNone | Some v \<Rightarrow> v)"

definition is_internal_message :: "(ustr \<times> py) list \<Rightarrow> bool" where
  "is_internal_message message \<longleftrightarrow>
     py_get message ''display_kind'' \<in>
       {PStr (lit ''delegation_closeout''), PStr (lit ''internal_notification'')}"

definition DISPLAY_TIMESTAMP_MAX_CHARS :: nat where
  "DISPLAY_TIMESTAMP_MAX_CHARS = 64"

definition ascii_digit :: "nat \<Rightarrow> bool" where
  "ascii_digit c \<longleftrightarrow> 48 \<le> c \<and> c \<le> 57"

definition zone_char :: "nat \<Rightarrow> bool" where
  "zone_char c \<longleftrightarrow> (65 \<le> c \<and> c \<le> 90) \<or> (97 \<le> c \<and> c \<le> 122) \<or> ascii_digit c \<or> c \<in> set (lit ''_+/:-'')"

definition decimal_value :: "ustr \<Rightarrow> nat" where
  "decimal_value ds = foldl (\<lambda>n d. 10 * n + (d - 48)) 0 ds"

text \<open>A text against a shape in which \<open>0\<close> stands for a digit.\<close>

definition has_shape :: "string \<Rightarrow> ustr \<Rightarrow> bool" where
  "has_shape shape s \<longleftrightarrow> list_all2 (\<lambda>p c. if p = CHR ''0'' then ascii_digit c else of_char p = c) shape s"

definition days_in_month :: "nat \<Rightarrow> nat \<Rightarrow> nat" where
  "days_in_month year month =
     (if month = 2 then (if year mod 4 = 0 \<and> (year mod 100 \<noteq> 0 \<or> year mod 400 = 0) then 29 else 28)
      else if month \<in> {4, 6, 9, 11} then 30 else 31)"

text \<open>
  \<open>datetime.fromisoformat\<close> on a date and a time of the right shape. (Python 3.14 also takes 24:00:00.)
\<close>

definition calendar_time :: "ustr \<Rightarrow> ustr \<Rightarrow> bool" where
  "calendar_time date time \<longleftrightarrow>
     (let year = decimal_value (take 4 date);
          month = decimal_value (take 2 (drop 5 date));
          day = decimal_value (drop 8 date)
      in 1 \<le> year \<and> 1 \<le> month \<and> month \<le> 12 \<and> 1 \<le> day \<and> day \<le> days_in_month year month \<and>
         decimal_value (take 2 time) < 24 \<and> decimal_value (take 2 (drop 3 time)) < 60 \<and>
         decimal_value (drop 6 time) < 60)"

text \<open>
  \<open>_DISPLAY_TIMESTAMP.fullmatch\<close> and the calendar check: \<open>[Mon 2024-01-31 10:20:30 ZONE] \<close>,
  where the zone is optional.
\<close>

definition display_timestamp :: "ustr \<Rightarrow> bool" where
  "display_timestamp s \<longleftrightarrow>
     (26 \<le> length s \<and> take 1 s = lit ''['' \<and> drop (length s - 2) s = lit ''] '' \<and>
      take 3 (drop 1 s) \<in> {lit ''Mon'', lit ''Tue'', lit ''Wed'', lit ''Thu'', lit ''Fri'', lit ''Sat'', lit ''Sun''} \<and>
      has_shape '' 0000-00-00 00:00:00'' (take 20 (drop 4 s)) \<and>
      (case drop 24 (take (length s - 2) s) of
         [] \<Rightarrow> True
       | c # zone \<Rightarrow> c = 32 \<and> 1 \<le> length zone \<and> length zone \<le> 32 \<and> list_all zone_char zone) \<and>
      calendar_time (take 10 (drop 5 s)) (take 8 (drop 16 s)))"

text \<open>Rows of the transcript are dictionaries; the history is a list or a tuple of them.\<close>

definition current_is_internal :: "ustr \<Rightarrow> py \<Rightarrow> bool" where
  "current_is_internal current history =
     (case history of
        PList items \<Rightarrow>
          if items = [] then False
          else (case last items of
                  PDict row \<Rightarrow>
                    if py_get row ''role'' \<noteq> PStr (lit ''user'') \<or>
                       lit ''_compressed_summary'' \<in> fst ` set row \<or>
                       lit ''_compressed_summary_has_user_turn'' \<in> fst ` set row \<or>
                       \<not> is_internal_message row
                    then False
                    else (case py_get row ''content'' of
                            PStr content \<Rightarrow>
                              if content = current then True
                              else if \<not> (length current < length content \<and>
                                        length content - length current \<le> DISPLAY_TIMESTAMP_MAX_CHARS)
                              then False
                              else
                                (let extra = length content - length current in
                                 display_timestamp (take extra content) \<and> drop extra content = current)
                          | _ \<Rightarrow> False)
                | _ \<Rightarrow> False)
      | _ \<Rightarrow> False)"

definition py_truthy :: "py \<Rightarrow> bool" where
  "py_truthy v =
     (case v of
        PNone \<Rightarrow> False
      | PBool b \<Rightarrow> b
      | PInt i \<Rightarrow> i \<noteq> 0
      | PFloat f \<Rightarrow> f \<noteq> Fin 0
      | PStr s \<Rightarrow> s \<noteq> []
      | PList xs \<Rightarrow> xs \<noteq> []
      | PDict kvs \<Rightarrow> kvs \<noteq> []
      | _ \<Rightarrow> True)"

section \<open>The capsule\<close>

datatype role = User | Assistant

record host =
  ho_extract :: "ustr \<Rightarrow> ustr"
  ho_trivial :: "ustr \<Rightarrow> bool"
  ho_scrub_text :: "(ustr \<Rightarrow> ustr option) option"

text \<open>
  A row that may be shown: \<open>Inl\<close> is the \<open>TypeError\<close> of looking an unhashable role up in a set.
\<close>

definition safe_history_message :: "(ustr \<Rightarrow> ustr) \<Rightarrow> nat \<Rightarrow> py \<Rightarrow> unit + (role \<times> ustr) option" where
  "safe_history_message extract maximum row =
     (case row of
        PDict message \<Rightarrow>
          if is_internal_message message then Inr None
          else
            (let shown = (\<lambda>r content.
                   (let bounded = clip_text content maximum in
                    if strip bounded = [] then None else Some (r, bounded)))
             in case py_get message ''role'' of
                  PList _ \<Rightarrow> Inl ()
                | PDict _ \<Rightarrow> Inl ()
                | PStr r \<Rightarrow>
                    if r = lit ''user'' then
                      (case py_get message ''content'' of
                         PStr content \<Rightarrow> Inr (shown User (extract content)) | _ \<Rightarrow> Inr None)
                    else if r = lit ''assistant'' then
                      if py_truthy (py_get message ''tool_calls'') then Inr None
                      else (case py_get message ''content'' of
                              PStr content \<Rightarrow> Inr (shown Assistant content) | _ \<Rightarrow> Inr None)
                    else Inr None
                | _ \<Rightarrow> Inr None)
      | _ \<Rightarrow> Inr None)"

record capsule =
  cp_current :: ustr
  cp_recent :: "(role \<times> ustr) list"

definition HISTORY_INSPECTED_ROWS_PER_EXCHANGE :: int where
  "HISTORY_INSPECTED_ROWS_PER_EXCHANGE = 8"

text \<open>
  The loop over the rows, newest first. \<open>candidates\<close> is in the order of collection; the rest of the
  arguments are the loop's variables.
\<close>

fun collect_history ::
    "(ustr \<Rightarrow> ustr) \<Rightarrow> planner_config \<Rightarrow> ustr \<Rightarrow> py list \<Rightarrow> int \<Rightarrow> nat \<Rightarrow> bool \<Rightarrow> (role \<times> ustr) list
     \<Rightarrow> unit + (role \<times> ustr) list"
where
  "collect_history extract c current [] index remaining skipped candidates = Inr candidates"
| "collect_history extract c current (raw # rows) index remaining skipped candidates =
     (if index \<ge> pl_history_max_exchanges c * HISTORY_INSPECTED_ROWS_PER_EXCHANGE \<or> remaining = 0
      then Inr candidates
      else
        and_then (safe_history_message extract (nat (pl_history_max_chars c)) raw) (\<lambda>message.
          case message of
            None \<Rightarrow> collect_history extract c current rows (index + 1) remaining skipped candidates
          | Some (r, content) \<Rightarrow>
              if \<not> skipped \<and> r = User \<and> content = current
              then collect_history extract c current rows (index + 1) remaining True candidates
              else if int (length candidates) \<ge> pl_history_max_exchanges c * 2 then Inr candidates
              else
                (let clipped = clip_text content remaining in
                 collect_history extract c current rows (index + 1) (remaining - length clipped) skipped
                   (candidates @ [(r, clipped)]))))"

text \<open>
  A history that is no sequence counts as empty. Text and bytes are sequences too, of items that are
  no rows.
\<close>

definition build_capsule :: "(ustr \<Rightarrow> ustr) \<Rightarrow> ustr \<Rightarrow> py \<Rightarrow> planner_config \<Rightarrow> unit + capsule" where
  "build_capsule extract message history c =
     (let current = clip_text message (nat (pl_history_max_chars c));
          remaining = nat (pl_history_max_chars c) - length current;
          items = (case history of PList xs \<Rightarrow> xs | _ \<Rightarrow> [])
      in and_then (collect_history extract c current (rev items) 0 remaining False [])
           (\<lambda>candidates. Inr \<lparr>cp_current = current, cp_recent = rev candidates\<rparr>))"

definition role_text :: "role \<Rightarrow> ustr" where
  "role_text r = (case r of User \<Rightarrow> lit ''user'' | Assistant \<Rightarrow> lit ''assistant'')"

text \<open>
  The older hosts' scrub. A newer host scrubs every text of the capsule behind one added space, which
  is removed again; the model lets it rewrite each text.
\<close>

definition remove_space :: "ustr \<Rightarrow> ustr" where
  "remove_space s = (case s of [] \<Rightarrow> [] | c # cs \<Rightarrow> if c = 32 then cs else s)"

definition scrub_capsule ::
    "(nat \<Rightarrow> bool) \<Rightarrow> (capsule \<Rightarrow> capsule option) option \<Rightarrow> capsule \<Rightarrow> capsule option" where
  "scrub_capsule word scrub cp =
     (case scrub of
        Some f \<Rightarrow>
          map_option
            (\<lambda>cleaned. \<lparr>cp_current = remove_space (cp_current cleaned),
                       cp_recent = map (apsnd remove_space) (cp_recent cleaned)\<rparr>)
            (f \<lparr>cp_current = 32 # cp_current cp, cp_recent = map (apsnd (Cons 32)) (cp_recent cp)\<rparr>)
      | None \<Rightarrow>
          Some \<lparr>cp_current = redact_sensitive_text word (cp_current cp),
                cp_recent = map (apsnd (redact_sensitive_text word)) (cp_recent cp)\<rparr>)"

definition CAPSULE_UTF8_EXPANSION :: int where "CAPSULE_UTF8_EXPANSION = 6"
definition CAPSULE_FIXED_OVERHEAD_BYTES :: int where "CAPSULE_FIXED_OVERHEAD_BYTES = 512"
definition CAPSULE_MESSAGE_OVERHEAD_BYTES :: int where "CAPSULE_MESSAGE_OVERHEAD_BYTES = 64"

definition capsule_byte_limit :: "planner_config \<Rightarrow> int" where
  "capsule_byte_limit c =
     pl_history_max_chars c * CAPSULE_UTF8_EXPANSION +
     (pl_history_max_exchanges c * 2) * CAPSULE_MESSAGE_OVERHEAD_BYTES + CAPSULE_FIXED_OVERHEAD_BYTES"

text \<open>
  \<open>json.dumps\<close> without sorting: the keys are written in the order of the dictionaries, which is the
  order of the items here.
\<close>

definition dumps_message :: "role \<times> ustr \<Rightarrow> ustr" where
  "dumps_message m =
     lit ''{'' @ render_item (''role'', quote_str (role_text (fst m))) @ lit '','' @
     render_item (''content'', quote_str (snd m)) @ lit ''}''"

definition dumps_capsule :: "capsule \<Rightarrow> ustr" where
  "dumps_capsule cp =
     lit ''{'' @ render_item (''current_user_message'', quote_str (cp_current cp)) @ lit '','' @
     render_item (''recent_conversation'', lit ''['' @ join (lit '','') (map dumps_message (cp_recent cp)) @ lit '']'') @
     lit ''}''"

definition serialize_capsule :: "capsule \<Rightarrow> planner_config \<Rightarrow> ustr option" where
  "serialize_capsule cp c =
     (case encode_utf8 (dumps_capsule cp) of
        None \<Rightarrow> None
      | Some b \<Rightarrow> if int (length b) > capsule_byte_limit c then None else Some (dumps_capsule cp))"

section \<open>Decisions\<close>

record plan_decision =
  pd_action :: plan_action
  pd_query :: "ustr option"

text \<open>\<open>_parse_rewrite\<close>.\<close>

definition parse_rewrite :: "py \<Rightarrow> int \<Rightarrow> plan_decision option" where
  "parse_rewrite parsed query_max_chars =
     (case parsed of
        PDict [(key, PStr raw)] \<Rightarrow>
          if key \<noteq> lit ''query'' then None
          else
            (let query = strip raw in
             if query = [] \<or> int (length query) > query_max_chars \<or> list_ex surrogate query \<or>
                list_ex (\<lambda>c. c < 32) query
             then None
             else Some \<lparr>pd_action = RecallAction, pd_query = Some query\<rparr>)
      | _ \<Rightarrow> None)"

datatype 'a answer = Answered 'a real | Raised

text \<open>
  \<open>parse_action\<close> of \<open>jev.py\<close>: only an explicit choice of the three is a decision.
\<close>

definition py_item :: "py \<Rightarrow> string \<Rightarrow> py" where
  "py_item v key = (case v of PDict kvs \<Rightarrow> py_get kvs key | _ \<Rightarrow> PNone)"

definition parse_action :: "py \<Rightarrow> plan_action option" where
  "parse_action document =
     (case py_item (py_item (py_item document ''answers'') ''action'') ''choice'' of
        PStr choice \<Rightarrow>
          if choice = lit ''skip'' then Some SkipAction
          else if choice = lit ''reuse'' then Some ReuseAction
          else if choice = lit ''recall'' then Some RecallAction
          else None
      | _ \<Rightarrow> None)"

text \<open>
  What happens outside: an answer comes with the clock reading that follows it.
\<close>

record planner_env =
  pe_now :: real
  pe_owner :: string
  pe_loaded :: "better_config option"
  pe_reserve_now :: real
  pe_scrub_capsule :: "(capsule \<Rightarrow> capsule option) option"
  pe_started :: real
  pe_checked :: real
  pe_jev_timeout :: real
  pe_decision :: "py answer"
  pe_rewrite_started :: real
  pe_rewritten :: "py answer"
  pe_completed :: real
  pe_finalize_now :: real

text \<open>\<open>_jev_rewrite\<close>: the outer option is an exception.\<close>

definition jev_rewrite :: "planner_env \<Rightarrow> planner_config \<Rightarrow> real \<Rightarrow> plan_decision option option" where
  "jev_rewrite e c deadline =
     (if deadline - pe_rewrite_started e \<le> 0 then None
      else
        (case pe_rewritten e of
           Raised \<Rightarrow> None
         | Answered parsed at_time \<Rightarrow>
             if at_time \<ge> deadline then None else Some (parse_rewrite parsed (pl_query_max_chars c))))"

text \<open>\<open>_jev_plan\<close> with \<open>decide_memory\<close>, which refuses a spent budget and an answer that is no choice.\<close>

definition jev_plan :: "planner_env \<Rightarrow> ustr \<Rightarrow> planner_config \<Rightarrow> real \<Rightarrow> plan_decision option option" where
  "jev_plan e current c deadline =
     (if deadline - pe_jev_timeout e \<le> 0 then None
      else
        (case pe_decision e of
           Raised \<Rightarrow> None
         | Answered document at_time \<Rightarrow>
             (case parse_action document of
                None \<Rightarrow> None
              | Some action \<Rightarrow>
                  if at_time \<ge> deadline then None
                  else if action \<noteq> RecallAction then Some (Some \<lparr>pd_action = action, pd_query = None\<rparr>)
                  else if pl_rewrite c \<noteq> ApplyRewrite
                  then Some (Some \<lparr>pd_action = RecallAction, pd_query = Some current\<rparr>)
                  else jev_rewrite e c deadline)))"


section \<open>The hook\<close>

definition MAX_PLANNER_QUERY :: nat where
  "MAX_PLANNER_QUERY = 8192"

text \<open>
  The keyword arguments of the hook, read as the code reads them: an identifier that is not text is the
  empty one, and a subagent has no parent.
\<close>

record hook_call =
  hk_message :: py
  hk_session :: string
  hk_turn :: string
  hk_parent :: string
  hk_subagent :: bool
  hk_history :: py
  hk_first_turn :: bool

definition plan_mode_of :: "planner_mode \<Rightarrow> plan_mode" where
  "plan_mode_of m = (if m = Shadow then ShadowPlan else ActivePlan)"

record plan_request =
  pq_config :: better_config
  pq_internal :: bool
  pq_current :: ustr
  pq_source :: ustr

text \<open>The early returns between the begin of the turn and the reservation.\<close>

definition plan_request_of :: "host \<Rightarrow> hook_call \<Rightarrow> better_config option \<Rightarrow> plan_request option" where
  "plan_request_of ho call loaded =
     (case hk_message call of
        PStr message \<Rightarrow>
          if message = [] then None
          else
            (let internal = length message \<le> MAX_PLANNER_QUERY \<and> current_is_internal message (hk_history call);
                 current = ho_extract ho message
             in if hk_first_turn call \<and> \<not> internal then None
                else if current = [] \<or> length current > MAX_PLANNER_QUERY \<or> ho_trivial ho current then None
                else
                  (case loaded of
                     None \<Rightarrow> None
                   | Some cfg \<Rightarrow>
                       if pl_mode (planner_cfg cfg) = Off \<or> \<not> rc_enabled (recall_cfg cfg) then None
                       else if int (length current) > pl_history_max_chars (planner_cfg cfg) \<or> strip current = []
                       then None
                       else
                         map_option
                           (\<lambda>source. \<lparr>pq_config = cfg, pq_internal = internal, pq_current = current,
                                      pq_source = source\<rparr>)
                           (case ho_scrub_text ho of None \<Rightarrow> Some current | Some scrub \<Rightarrow> scrub current)))
      | _ \<Rightarrow> None)"

definition plan_reservation :: "hook_call \<Rightarrow> string \<Rightarrow> plan_request \<Rightarrow> reservation" where
  "plan_reservation call owner pq =
     \<lparr>rv_query = pq_source pq, rv_session = hk_session call, rv_turn = hk_turn call,
      rv_mode = plan_mode_of (pl_mode (planner_cfg (pq_config pq))),
      rv_evaluation = (if ev_enabled (evaluation_cfg (pq_config pq)) then Some owner else None),
      rv_publish_timeout = Some (Fin (pl_timeout_seconds (planner_cfg (pq_config pq)))),
      rv_owner = Some owner\<rparr>"

text \<open>The decision of the hook: \<open>None\<close> once anything fails, is invalid or comes too late.\<close>

definition decide_plan :: "(nat \<Rightarrow> bool) \<Rightarrow> planner_env \<Rightarrow> plan_request \<Rightarrow> capsule \<Rightarrow> plan_decision option" where
  "decide_plan word e pq cp =
     (let c = planner_cfg (pq_config pq);
          deadline = pe_started e + pl_timeout_seconds c;
          decision =
            (case scrub_capsule word (pe_scrub_capsule e) cp of
               None \<Rightarrow> None
             | Some cleaned \<Rightarrow>
                 (case serialize_capsule cleaned c of
                    None \<Rightarrow> None
                  | Some serialized \<Rightarrow>
                      if deadline - pe_checked e \<le> 0 then None
                      else if pq_internal pq then Some \<lparr>pd_action = SkipAction, pd_query = None\<rparr>
                      else (case jev_plan e (pq_source pq) c deadline of None \<Rightarrow> None | Some d \<Rightarrow> d)))
      in if pe_completed e \<ge> deadline then None else decision)"

type_synonym hook_events = "(mail_op \<times> mail_result) list"

text \<open>
  The hook's own mailbox operations with their answers. \<open>others\<close> are the operations of other threads
  between its three: before the reservation and before the publication. \<open>Inl\<close> is the one exception
  that leaves the hook.
\<close>

definition on_pre_llm_call ::
    "(bytes \<Rightarrow> string) \<Rightarrow> (nat \<Rightarrow> bool) \<Rightarrow> host \<Rightarrow> string \<Rightarrow> hook_call \<Rightarrow> planner_env
     \<Rightarrow> (string \<times> mail_op) list \<times> (string \<times> mail_op) list \<Rightarrow> registry \<Rightarrow> (unit + hook_events) \<times> registry" where
  "on_pre_llm_call sha word ho home call e others reg =
     (if hk_session call = [] \<or> hk_turn call = [] then (Inr [], reg)
      else
        (let parent = (if hk_subagent call then [] else hk_parent call);
             op1 = BeginTurn (hk_session call) (hk_turn call) parent (pe_owner e) (pe_now e)
         in case mail_step sha home op1 reg of
              (Turn (Some owner), reg1) \<Rightarrow>
                (case plan_request_of ho call (pe_loaded e) of
                   None \<Rightarrow> (Inr [(op1, Turn (Some owner))], reg1)
                 | Some pq \<Rightarrow>
                     (let op2 = Reserve (plan_reservation call owner pq) (pe_reserve_now e) in
                      case mail_step sha home op2 (snd (mail_run sha (fst others) reg1)) of
                        (Answer True, reg2) \<Rightarrow>
                          (case build_capsule (ho_extract ho) (pq_current pq) (hk_history call)
                                  (planner_cfg (pq_config pq)) of
                             Inl _ \<Rightarrow> (Inl (), reg2)
                           | Inr cp \<Rightarrow>
                               (let op3 =
                                  (case decide_plan word e pq cp of
                                     None \<Rightarrow> Cancel (hk_turn call) (Some owner)
                                   | Some d \<Rightarrow>
                                       Finalize (hk_turn call)
                                         (plan_mode_of (pl_mode (planner_cfg (pq_config pq))))
                                         (pd_action d) (pd_query d) (Some owner) (pe_finalize_now e))
                                in case mail_step sha home op3 (snd (mail_run sha (snd others) reg2)) of
                                     (r3, reg3) \<Rightarrow>
                                       (Inr [(op1, Turn (Some owner)), (op2, Answer True), (op3, r3)], reg3)))
                      | (r2, reg2) \<Rightarrow> (Inr [(op1, Turn (Some owner)), (op2, r2)], reg2)))
            | (r1, reg1) \<Rightarrow> (Inr [(op1, r1)], reg1)))"

end
