(* ===== verification/PlannerTheorems.thy ===== *)
theory PlannerTheorems
  imports Planner Samples
begin

text \<open>
  The capsule is bounded before it is sent, and what the hook publishes is a timely, well-formed
  decision on the turn that it began and reserved itself.
\<close>

section \<open>The capsule\<close>

lemma length_clip_text: "length (clip_text s n) \<le> n"
  by (auto simp: clip_text_def Let_def min_def)

lemma length_clip_text_le: "length (clip_text s n) \<le> length s"
  by (auto simp: clip_text_def Let_def min_def)

definition chars_of :: "(role \<times> ustr) list \<Rightarrow> nat" where
  "chars_of ms = sum_list (map (length \<circ> snd) ms)"

lemma collect_history_bounded:
  assumes "collect_history extract c current items index remaining skipped candidates = Inr ms"
    and "int (length candidates) \<le> pl_history_max_exchanges c * 2"
  shows "chars_of ms \<le> chars_of candidates + remaining \<and> int (length ms) \<le> pl_history_max_exchanges c * 2"
  using assms
proof (induction "extract" "c" "current" "items" "index" "remaining" "skipped" "candidates"
    rule: collect_history.induct)
  case (2 ex c cur raw items index remaining skipped candidates)
  let ?stop = "index \<ge> pl_history_max_exchanges c * HISTORY_INSPECTED_ROWS_PER_EXCHANGE \<or> remaining = 0"
  show ?case
  proof (cases ?stop)
    case True
    with "2.prems" show ?thesis by (simp add: chars_of_def)
  next
    case False
    with "2.prems"(1) obtain message where m: "safe_history_message ex (nat (pl_history_max_chars c)) raw = Inr message"
      and rest: "(case message of
            None \<Rightarrow> collect_history ex c cur items (index + 1) remaining skipped candidates
          | Some (r, body) \<Rightarrow>
              if \<not> skipped \<and> r = User \<and> body = cur
              then collect_history ex c cur items (index + 1) remaining True candidates
              else if int (length candidates) \<ge> pl_history_max_exchanges c * 2 then Inr candidates
              else
                (let clipped = clip_text body remaining in
                 collect_history ex c cur items (index + 1) (remaining - length clipped) skipped
                   (candidates @ [(r, clipped)]))) = Inr ms"
      by (auto simp only: collect_history.simps(2) if_False and_then_Inr)
    show ?thesis
    proof (cases message)
      case None
      with rest "2.IH"(1) [OF False m None] "2.prems"(2) show ?thesis by simp
    next
      case (Some rc)
      obtain r body where rc: "rc = (r, body)" by force
      show ?thesis
      proof (cases "\<not> skipped \<and> r = User \<and> body = cur")
        case True
        with rest Some rc "2.IH"(2) [OF False m Some rc [symmetric] True] "2.prems"(2) show ?thesis by simp
      next
        case other: False
        show ?thesis
        proof (cases "int (length candidates) \<ge> pl_history_max_exchanges c * 2")
          case True
          have "Inr candidates = (Inr ms :: unit + _)"
            using rest True other unfolding Some rc by (simp only: option.case prod.case if_False if_True)
          then show ?thesis using "2.prems"(2) by (simp add: chars_of_def)
        next
          case room: False
          let ?clipped = "clip_text body remaining"
          have "collect_history ex c cur items (index + 1) (remaining - length ?clipped) skipped
              (candidates @ [(r, ?clipped)]) = Inr ms"
            using rest room other unfolding Some rc by (simp only: option.case prod.case if_False Let_def)
          moreover have "int (length (candidates @ [(r, ?clipped)])) \<le> pl_history_max_exchanges c * 2"
            using room by simp
          ultimately have "chars_of ms \<le> chars_of (candidates @ [(r, ?clipped)]) + (remaining - length ?clipped) \<and>
              int (length ms) \<le> pl_history_max_exchanges c * 2"
            by (rule "2.IH"(3) [OF False m Some rc [symmetric] other room refl])
          then show ?thesis using length_clip_text [of body remaining] by (simp add: chars_of_def)
        qed
      qed
    qed
  qed
qed (simp add: chars_of_def)

lemma utf8_len_ascii: "list_all (\<lambda>c. c < 128) s \<Longrightarrow> utf8_len s = length s"
  by (induction s) (simp_all add: utf8_char_def)

lemma hex_digit_ascii: "n < 16 \<Longrightarrow> hex_digit n < 128"
  by (simp add: hex_digit_def)

lemma utf8_len_escape: "utf8_len (escape s) \<le> 6 * length s"
proof (induction s)
  case (Cons c s)
  have "utf8_len (escape_char c) \<le> 6"
  proof (cases "escape_char c = [c]")
    case True
    then show ?thesis using length_utf8_char_le [of c] by simp
  next
    case False
    then have "list_all (\<lambda>c. c < 128) (escape_char c) \<and> length (escape_char c) \<le> 6"
      using hex_digit_ascii [of "c div 16"] hex_digit_ascii [of "c mod 16"]
      by (auto simp: escape_char_def split: if_splits)
    then show ?thesis using utf8_len_ascii by simp
  qed
  with Cons show ?case by (simp add: escape_Cons)
qed simp

lemma utf8_len_item: "utf8_len (render_item (key, v)) = utf8_len (quote_str (lit key)) + 1 + utf8_len v"
  by (simp add: render_item_def utf8_char_def)

lemma utf8_len_keys:
  "utf8_len (quote_str (lit ''role'')) = 6" "utf8_len (quote_str (lit ''content'')) = 9"
  "utf8_len (quote_str (lit ''current_user_message'')) = 22" "utf8_len (quote_str (lit ''recent_conversation'')) = 21"
  "utf8_len (quote_str (role_text User)) = 6" "utf8_len (quote_str (role_text Assistant)) = 11"
  "utf8_len (lit ''{'') = 1" "utf8_len (lit ''}'') = 1" "utf8_len (lit ''['') = 1" "utf8_len (lit '']'') = 1"
  "utf8_len (lit '','') = 1"
  by code_simp+

lemma utf8_len_message: "utf8_len (dumps_message m) \<le> 6 * length (snd m) + 34"
proof -
  have "utf8_len (quote_str (role_text (fst m))) \<le> 11" by (cases "fst m") (simp_all only: utf8_len_keys)
  then show ?thesis using utf8_len_escape [of "snd m"]
    unfolding dumps_message_def utf8_len_append utf8_len_item utf8_len_keys utf8_len_quote [of "snd m"] by simp
qed

lemma utf8_len_messages:
  "utf8_len (join [44] (map dumps_message ms)) \<le> 6 * chars_of ms + 35 * length ms"
proof (induction ms)
  case (Cons m ms)
  have "utf8_len (join [44] (map dumps_message (m # ms))) \<le>
      utf8_len (dumps_message m) + 1 + utf8_len (join [44] (map dumps_message ms))"
    by (cases ms) (simp_all add: utf8_char_def)
  with Cons utf8_len_message [of m] show ?case by (simp add: chars_of_def)
qed (simp add: chars_of_def)

lemma utf8_len_capsule:
  "utf8_len (dumps_capsule cp) \<le> 6 * (length (cp_current cp) + chars_of (cp_recent cp)) + 35 * length (cp_recent cp) + 60"
proof -
  have "lit '','' = [44]" by code_simp
  with utf8_len_messages [of "cp_recent cp"] utf8_len_escape [of "cp_current cp"] show ?thesis
    unfolding dumps_capsule_def utf8_len_append utf8_len_item utf8_len_keys utf8_len_quote [of "cp_current cp"] by simp
qed

definition capsule_chars :: "capsule \<Rightarrow> nat" where
  "capsule_chars cp = length (cp_current cp) + sum_list (map (length \<circ> snd) (cp_recent cp))"

definition capsule_within :: "planner_config \<Rightarrow> capsule \<Rightarrow> bool" where
  "capsule_within c cp \<longleftrightarrow>
     int (capsule_chars cp) \<le> pl_history_max_chars c \<and> int (length (cp_recent cp)) \<le> 2 * pl_history_max_exchanges c"

lemma capsule_selected:
  assumes "build_capsule extract message history c = Inr cp"
    and "0 \<le> pl_history_max_chars c" and "0 \<le> pl_history_max_exchanges c"
  shows "capsule_within c cp"
proof -
  let ?cur = "clip_text message (nat (pl_history_max_chars c))"
  from assms(1) obtain ms where ms: "collect_history extract c ?cur (rev (case history of PList xs \<Rightarrow> xs | _ \<Rightarrow> [])) 0
      (nat (pl_history_max_chars c) - length ?cur) False [] = Inr ms"
    and cp: "cp = \<lparr>cp_current = ?cur, cp_recent = rev ms\<rparr>"
    by (auto simp: build_capsule_def Let_def and_then_Inr)
  from collect_history_bounded [OF ms] assms(3)
  have b: "chars_of ms \<le> nat (pl_history_max_chars c) - length ?cur" "int (length ms) \<le> pl_history_max_exchanges c * 2"
    by (simp_all add: chars_of_def)
  have rev: "sum_list (map (length \<circ> snd) (rev ms)) = chars_of ms" by (simp add: chars_of_def rev_map [symmetric])
  have "int (length ?cur + chars_of ms) \<le> pl_history_max_chars c"
    using b(1) length_clip_text [of message "nat (pl_history_max_chars c)"] assms(2) by linarith
  with b(2) rev show ?thesis by (simp add: capsule_within_def capsule_chars_def cp)
qed

lemma capsule_fits:
  assumes "capsule_within c cp"
  shows "int (utf8_len (dumps_capsule cp)) \<le> capsule_byte_limit c"
    and "serialize_capsule cp c = (if scalar_text (dumps_capsule cp) then Some (dumps_capsule cp) else None)"
proof -
  show limit: "int (utf8_len (dumps_capsule cp)) \<le> capsule_byte_limit c"
    using utf8_len_capsule [of cp] assms
    by (simp add: capsule_within_def capsule_chars_def chars_of_def capsule_byte_limit_def CAPSULE_UTF8_EXPANSION_def
        CAPSULE_MESSAGE_OVERHEAD_BYTES_def CAPSULE_FIXED_OVERHEAD_BYTES_def)
  show "serialize_capsule cp c = (if scalar_text (dumps_capsule cp) then Some (dumps_capsule cp) else None)"
    using limit by (auto simp: serialize_capsule_def encode_utf8_def scalar_text_def utf8_len_def)
qed




section \<open>Publication\<close>

definition usable_rewrite :: "int \<Rightarrow> ustr \<Rightarrow> bool" where
  "usable_rewrite limit q \<longleftrightarrow>
     q \<noteq> [] \<and> int (length q) \<le> limit \<and> \<not> list_ex (\<lambda>c. c < 32 \<or> surrogate c) q"

lemma parse_rewrite_Some:
  assumes "parse_rewrite parsed limit = Some d"
  shows "\<exists>raw. parsed = PDict [(lit ''query'', PStr raw)] \<and> d = \<lparr>pd_action = RecallAction, pd_query = Some (strip raw)\<rparr> \<and>
    usable_rewrite limit (strip raw)"
  using assms
  by (auto simp: parse_rewrite_def usable_rewrite_def list_ex_iff Let_def split: py.splits list.splits if_splits)

text \<open>What a decision may be: the planner's answer and the model's query, each in time.\<close>

definition sound_decision :: "planner_env \<Rightarrow> plan_request \<Rightarrow> plan_decision \<Rightarrow> bool" where
  "sound_decision e pq d \<longleftrightarrow>
     (let c = planner_cfg (pq_config pq); deadline = pe_started e + pl_timeout_seconds c in
      pe_completed e < deadline \<and>
      (if pq_internal pq then d = \<lparr>pd_action = SkipAction, pd_query = None\<rparr>
       else (\<exists>document t. pe_decision e = Answered document t \<and> t < deadline \<and>
               parse_action document = Some (pd_action d)) \<and>
            (if pd_action d \<noteq> RecallAction then pd_query d = None
             else if pl_rewrite c \<noteq> ApplyRewrite then pd_query d = Some (pq_source pq)
             else \<exists>raw t. pe_rewritten e = Answered (PDict [(lit ''query'', PStr raw)]) t \<and> t < deadline \<and>
                    pd_query d = Some (strip raw) \<and> usable_rewrite (pl_query_max_chars c) (strip raw))))"

lemma jev_rewrite_sound:
  "jev_rewrite e c deadline = Some (Some d) \<Longrightarrow>
   \<exists>raw t. pe_rewritten e = Answered (PDict [(lit ''query'', PStr raw)]) t \<and> t < deadline \<and>
     d = \<lparr>pd_action = RecallAction, pd_query = Some (strip raw)\<rparr> \<and> usable_rewrite (pl_query_max_chars c) (strip raw)"
  by (auto simp: jev_rewrite_def split: if_splits answer.splits dest!: parse_rewrite_Some)

lemma decide_plan_sound:
  assumes "decide_plan word e pq cp = Some d"
  shows "sound_decision e pq d"
proof -
  let ?c = "planner_cfg (pq_config pq)"
  let ?deadline = "pe_started e + pl_timeout_seconds ?c"
  from assms have in_time: "pe_completed e < ?deadline" by (auto simp: decide_plan_def Let_def split: if_splits)
  show ?thesis
  proof (cases "pq_internal pq")
    case True
    with assms in_time show ?thesis
      by (auto simp: decide_plan_def sound_decision_def Let_def split: if_splits option.splits)
  next
    case False
    with assms have j: "jev_plan e (pq_source pq) ?c ?deadline = Some (Some d)"
      by (auto simp: decide_plan_def Let_def split: if_splits option.splits)
    then obtain document t action where a: "pe_decision e = Answered document t" "parse_action document = Some action"
      "t < ?deadline"
      by (auto simp: jev_plan_def split: if_splits answer.splits option.splits)
    show ?thesis
    proof (cases "action = RecallAction \<and> pl_rewrite ?c = ApplyRewrite")
      case True
      with j a have "jev_rewrite e ?c ?deadline = Some (Some d)"
        by (auto simp: jev_plan_def split: if_splits)
      from jev_rewrite_sound [OF this] a True in_time False show ?thesis
        by (auto simp: sound_decision_def Let_def)
    next
      case other: False
      with j a have "d = \<lparr>pd_action = action, pd_query = (if action = RecallAction then Some (pq_source pq) else None)\<rparr>"
        by (auto simp: jev_plan_def split: if_splits)
      with a other in_time False show ?thesis by (auto simp: sound_decision_def Let_def)
    qed
  qed
qed

lemma on_pre_llm_call_events:
  assumes "on_pre_llm_call sha word ho home call e others reg = (Inr events, reg')"
  obtains "events = []"
  | r where "events = [(BeginTurn (hk_session call) (hk_turn call)
        (if hk_subagent call then [] else hk_parent call) (pe_owner e) (pe_now e), r)]"
  | owner pq r where "events = [(BeginTurn (hk_session call) (hk_turn call)
        (if hk_subagent call then [] else hk_parent call) (pe_owner e) (pe_now e), Turn (Some owner)),
      (Reserve (plan_reservation call owner pq) (pe_reserve_now e), r)]"
  | owner pq cp op r reg1 where "events = [(BeginTurn (hk_session call) (hk_turn call)
        (if hk_subagent call then [] else hk_parent call) (pe_owner e) (pe_now e), Turn (Some owner)),
      (Reserve (plan_reservation call owner pq) (pe_reserve_now e), Answer True), (op, r)]"
      "plan_request_of ho call (pe_loaded e) = Some pq"
      "op = (case decide_plan word e pq cp of
           None \<Rightarrow> Cancel (hk_turn call) (Some owner)
         | Some d \<Rightarrow> Finalize (hk_turn call) (plan_mode_of (pl_mode (planner_cfg (pq_config pq))))
             (pd_action d) (pd_query d) (Some owner) (pe_finalize_now e))"
      "mail_step sha home op reg1 = (r, reg')" "hk_turn call \<noteq> []"
      "\<exists>reg0 reg2. mail_step sha home (Reserve (plan_reservation call owner pq) (pe_reserve_now e)) reg0 = (Answer True, reg2)"
proof (cases "hk_session call = [] \<or> hk_turn call = []")
  case True
  with assms that(1) show ?thesis by (auto simp: on_pre_llm_call_def)
next
  case False
  let ?op1 = "BeginTurn (hk_session call) (hk_turn call)
    (if hk_subagent call then [] else hk_parent call) (pe_owner e) (pe_now e)"
  obtain r1 reg1 where s1: "mail_step sha home ?op1 reg = (r1, reg1)" by force
  show ?thesis
  proof (cases "\<exists>owner. r1 = Turn (Some owner)")
    case True
    then obtain owner where r1: "r1 = Turn (Some owner)" ..
    show ?thesis
    proof (cases "plan_request_of ho call (pe_loaded e)")
      case None
      with assms False s1 r1 that(2) show ?thesis by (auto simp: on_pre_llm_call_def Let_def)
    next
      case (Some pq)
      let ?op2 = "Reserve (plan_reservation call owner pq) (pe_reserve_now e)"
      obtain r2 reg2 where s2: "mail_step sha home ?op2 (snd (mail_run sha (fst others) reg1)) = (r2, reg2)" by force
      show ?thesis
      proof (cases "r2 = Answer True")
        case True
        obtain cp where cp: "build_capsule (ho_extract ho) (pq_current pq) (hk_history call)
            (planner_cfg (pq_config pq)) = Inr cp"
          using assms False s1 r1 Some s2 True
          by (auto simp: on_pre_llm_call_def Let_def split: sum.splits)
        let ?op3 = "case decide_plan word e pq cp of
           None \<Rightarrow> Cancel (hk_turn call) (Some owner)
         | Some d \<Rightarrow> Finalize (hk_turn call) (plan_mode_of (pl_mode (planner_cfg (pq_config pq))))
             (pd_action d) (pd_query d) (Some owner) (pe_finalize_now e)"
        obtain r3 reg3 where s3: "mail_step sha home ?op3 (snd (mail_run sha (snd others) reg2)) = (r3, reg3)" by force
        have "events = [(?op1, Turn (Some owner)), (?op2, Answer True), (?op3, r3)]" "reg3 = reg'"
          using assms False s1 r1 Some s2 True cp s3 by (simp_all add: on_pre_llm_call_def Let_def)
        with Some s3 s2 True False show ?thesis by (intro that(4)) auto
      next
        case other: False
        have "events = [(?op1, Turn (Some owner)), (?op2, r2)]"
          using assms False s1 r1 Some s2 other
          by (auto simp: on_pre_llm_call_def Let_def split: mail_result.splits bool.splits)
        then show ?thesis by (rule that(3))
      qed
    qed
  next
    case no: False
    have "events = [(?op1, r1)]"
      using assms False s1 no
      by (auto simp: on_pre_llm_call_def Let_def split: mail_result.splits option.splits)
    then show ?thesis by (rule that(2))
  qed
qed


lemma sound_decision_action_ok:
  "sound_decision e pq d \<Longrightarrow> pq_source pq \<noteq> [] \<Longrightarrow> action_ok (pd_action d) (pd_query d)"
  by (auto simp: sound_decision_def action_ok_def usable_rewrite_def Let_def split: if_splits)

lemma finalize_not_failed:
  "turn \<noteq> [] \<Longrightarrow> action_ok action query \<Longrightarrow>
   \<exists>b. fst (mail_step sha home (Finalize turn mode action query owner now) reg) = Answer b"
  by (auto simp: finalize_def Let_def split: option.splits)

lemma reserve_source: "mail_step sha home (Reserve rv now) reg = (Answer True, reg') \<Longrightarrow> rv_query rv \<noteq> []"
  by (auto simp: reserve_def split: if_splits sum.splits)

text \<open>
  C30. What the planner publishes is sound: if the hook publishes for a turn, it began that turn and
  reserved its plan with the same owner token before, the hook finished before the planner's deadline,
  and the action is the explicit choice of the remote decision, or a skip for an internal message. A
  recall carries the user's source query, or, where rewriting is on, the model's query without surrounding
  blanks, with no control character and within its length. The mailbox never has to reject the
  publication as malformed.
\<close>

theorem planner_publishes_sound_decisions:
  assumes "on_pre_llm_call sha word ho home call e others reg = (Inr events, reg')"
    and "(Finalize turn mode action query owner now, answer) \<in> set events"
  shows "turn = hk_turn call \<and> (\<exists>b. answer = Answer b) \<and>
    (\<exists>pq token parent.
       plan_request_of ho call (pe_loaded e) = Some pq \<and> owner = Some token \<and>
       mode = plan_mode_of (pl_mode (planner_cfg (pq_config pq))) \<and> pl_mode (planner_cfg (pq_config pq)) \<noteq> Off \<and>
       (BeginTurn (hk_session call) turn parent (pe_owner e) (pe_now e), Turn (Some token)) \<in> set events \<and>
       (Reserve (plan_reservation call token pq) (pe_reserve_now e), Answer True) \<in> set events \<and>
       sound_decision e pq \<lparr>pd_action = action, pd_query = query\<rparr>)"
  using assms(1)
proof (cases rule: on_pre_llm_call_events)
  case (4 token pq cp op r reg1)
  from assms(2) 4(1) have op: "op = Finalize turn mode action query owner now" "r = answer" by auto
  with 4(3) obtain d where d: "decide_plan word e pq cp = Some d"
    "turn = hk_turn call" "mode = plan_mode_of (pl_mode (planner_cfg (pq_config pq)))" "action = pd_action d"
    "query = pd_query d" "owner = Some token"
    by (auto split: option.splits)
  note sound = decide_plan_sound [OF d(1)]
  have src: "pq_source pq \<noteq> []" using 4(6) reserve_source by (fastforce simp: plan_reservation_def)
  have "\<exists>b. answer = Answer b"
    using finalize_not_failed [OF 4(5) sound_decision_action_ok [OF sound src], of sha home mode owner now reg1]
      4(4) op d by simp
  moreover have "pl_mode (planner_cfg (pq_config pq)) \<noteq> Off"
    using 4(2) by (auto simp: plan_request_of_def Let_def split: py.splits if_splits option.splits)
  moreover have "sound_decision e pq \<lparr>pd_action = action, pd_query = query\<rparr>"
    using sound d by (cases d) simp
  ultimately show ?thesis using 4(1,2) d by auto
qed (use assms(2) in auto)

section \<open>A sample turn\<close>

definition sample_planner :: planner_config where
  "sample_planner = \<lparr>pl_mode = Active, pl_rewrite = NoRewrite, pl_timeout_seconds = 4,
     pl_history_max_exchanges = 2, pl_history_max_chars = 40, pl_query_max_chars = 20\<rparr>"

definition sample_history :: py where
  "sample_history = PList [PDict [(lit ''role'', PStr (lit ''user'')), (lit ''content'', PStr (lit ''hello''))]]"

lemma sample_capsule:
  "build_capsule id (lit ''hi'') sample_history sample_planner =
     Inr \<lparr>cp_current = lit ''hi'', cp_recent = [(User, lit ''hello'')]\<rparr>"
  by code_simp

definition sample_call :: hook_call where
  "sample_call = \<lparr>hk_message = PStr (lit ''hi''), hk_session = ''s'', hk_turn = ''t'', hk_parent = [],
     hk_subagent = False, hk_history = sample_history, hk_first_turn = False\<rparr>"

definition sample_host :: host where
  "sample_host = \<lparr>ho_extract = id, ho_trivial = (\<lambda>_. False), ho_scrub_text = None\<rparr>"

definition sample_choice :: py where
  "sample_choice = PDict [(lit ''answers'', PDict [(lit ''action'', PDict [(lit ''choice'', PStr (lit ''skip''))])])]"

definition sample_planner_env :: planner_env where
  "sample_planner_env = \<lparr>pe_now = 1, pe_owner = ''o'', pe_loaded = Some (sample_config\<lparr>planner_cfg := sample_planner\<rparr>),
     pe_reserve_now = 1, pe_scrub_capsule = Some Some, pe_started = 1, pe_checked = 2, pe_jev_timeout = 2,
     pe_decision = Answered sample_choice 3, pe_rewrite_started = 3, pe_rewritten = Raised, pe_completed = 3,
     pe_finalize_now = 3\<rparr>"

definition sample_registry :: registry where
  "sample_registry = [(''h'', new_home\<lparr>hs_activations := [(''k'', ''s'')]\<rparr>)]"

definition sample_request :: plan_request where
  "sample_request = \<lparr>pq_config = sample_config\<lparr>planner_cfg := sample_planner\<rparr>, pq_internal = False,
     pq_current = lit ''hi'', pq_source = lit ''hi''\<rparr>"

lemma sample_planner_facts:
  "pl_mode sample_planner = Active" "pl_history_max_chars sample_planner = 40" "rc_enabled (recall_cfg sample_config)"
  "pl_timeout_seconds sample_planner = 4"
  by (simp_all add: sample_planner_def sample_config_def)

lemma sample_plan_request: "plan_request_of sample_host sample_call (pe_loaded sample_planner_env) = Some sample_request"
proof -
  have "current_is_internal (lit ''hi'') sample_history = False" "length (lit ''hi'') = 2" "strip (lit ''hi'') \<noteq> []"
    "lit ''hi'' \<noteq> []" by code_simp+
  then show ?thesis
    using sample_planner_facts
    by (simp add: plan_request_of_def sample_host_def sample_call_def sample_planner_env_def sample_request_def
        MAX_PLANNER_QUERY_def Let_def)
qed




lemma sample_decision:
  "decide_plan word sample_planner_env sample_request \<lparr>cp_current = lit ''hi'', cp_recent = [(User, lit ''hello'')]\<rparr> =
     Some \<lparr>pd_action = SkipAction, pd_query = None\<rparr>"
proof -
  let ?cp = "\<lparr>cp_current = lit ''hi'', cp_recent = [(User, lit ''hello'')]\<rparr>"
  have "scrub_capsule word (Some Some) ?cp = Some ?cp"
    by (simp add: scrub_capsule_def remove_space_def)
  moreover have "serialize_capsule ?cp sample_planner = Some (dumps_capsule ?cp)"
  proof -
    have "scalar_text (dumps_capsule ?cp)" by code_simp
    with capsule_fits(2) [OF capsule_selected [OF sample_capsule]] show ?thesis by (simp add: sample_planner_def)
  qed
  moreover have "parse_action sample_choice = Some SkipAction" by code_simp
  ultimately show ?thesis
    using sample_planner_facts
    by (simp add: decide_plan_def sample_request_def sample_planner_env_def jev_plan_def Let_def)
qed

definition sample_begun :: registry where
  "sample_begun = [(''h'', new_home\<lparr>hs_activations := [(''k'', ''s'')], hs_current := [(''s'', ''t'', ''o'')]\<rparr>)]"

definition sample_reserved :: registry where
  "sample_reserved = [(''h'', new_home\<lparr>hs_activations := [(''k'', ''s'')], hs_current := [(''s'', ''t'', ''o'')],
     hs_sequence := 1, hs_plans := [(''t'', reserved_plan sample_digest (plan_reservation sample_call ''o'' sample_request) 1 1)]\<rparr>)]"

lemmas sample_mail_defs = sample_registry_def sample_begun_def sample_reserved_def new_home_def dict_get_def
  purge_expired_def session_active_def clear_session_def dict_set_def dict_pop_def

lemma sample_begin:
  "mail_step sample_digest ''h'' (BeginTurn ''s'' ''t'' [] ''o'' 1) sample_registry = (Turn (Some ''o''), sample_begun)"
  by (simp add: begin_turn_def sample_mail_defs Let_def)

lemma sample_reserve:
  "mail_step sample_digest ''h'' (Reserve (plan_reservation sample_call ''o'' sample_request) 1) sample_begun =
     (Answer True, sample_reserved)"
proof -
  have "lit ''hi'' \<noteq> []" by code_simp
  then have "rv_query (plan_reservation sample_call ''o'' sample_request) \<noteq> []"
    "rv_session (plan_reservation sample_call ''o'' sample_request) = ''s''"
    "rv_turn (plan_reservation sample_call ''o'' sample_request) = ''t''"
    "rv_owner (plan_reservation sample_call ''o'' sample_request) = Some ''o''"
    "rv_publish_timeout (plan_reservation sample_call ''o'' sample_request) = Some (Fin 4)"
    by (simp_all add: plan_reservation_def sample_request_def sample_call_def sample_planner_def)
  then show ?thesis by (simp add: reserve_def bad_timeout_def sample_mail_defs Let_def)
qed

lemma sample_hook:
  "\<exists>r reg'. on_pre_llm_call sample_digest word sample_host ''h'' sample_call sample_planner_env ([], []) sample_registry =
     (Inr [(BeginTurn ''s'' ''t'' [] ''o'' 1, Turn (Some ''o'')),
           (Reserve (plan_reservation sample_call ''o'' sample_request) 1, Answer True),
           (Finalize ''t'' ActivePlan SkipAction None (Some ''o'') 3, r)], reg')"
proof -
  have f: "hk_session sample_call = ''s''" "hk_turn sample_call = ''t''" "hk_subagent sample_call = False"
    "hk_parent sample_call = []" "hk_history sample_call = sample_history" "ho_extract sample_host = id"
    "pq_current sample_request = lit ''hi''" "planner_cfg (pq_config sample_request) = sample_planner"
    "pl_mode sample_planner = Active" "pe_owner sample_planner_env = ''o''" "pe_now sample_planner_env = 1"
    "pe_reserve_now sample_planner_env = 1" "pe_finalize_now sample_planner_env = 3"
    by (simp_all add: sample_call_def sample_host_def sample_request_def sample_planner_def sample_planner_env_def)
  obtain r reg' where "mail_step sample_digest ''h'' (Finalize ''t'' ActivePlan SkipAction None (Some ''o'') 3)
      sample_reserved = (r, reg')" by force
  then show ?thesis
    using sample_plan_request sample_decision sample_capsule sample_begin sample_reserve
    by (simp del: mail_step.simps add: on_pre_llm_call_def f mail_run_def plan_mode_of_def)
qed

theorem planner_publishes_sound_decisions_witness:
  "sound_decision sample_planner_env sample_request \<lparr>pd_action = SkipAction, pd_query = None\<rparr>"
proof -
  obtain r reg' where "on_pre_llm_call sample_digest ascii_word sample_host ''h'' sample_call sample_planner_env ([], [])
      sample_registry =
     (Inr [(BeginTurn ''s'' ''t'' [] ''o'' 1, Turn (Some ''o'')),
           (Reserve (plan_reservation sample_call ''o'' sample_request) 1, Answer True),
           (Finalize ''t'' ActivePlan SkipAction None (Some ''o'') 3, r)], reg')"
    using sample_hook by blast
  from planner_publishes_sound_decisions [OF this, of "''t''" ActivePlan SkipAction None "Some ''o''" 3 r]
  show ?thesis using sample_plan_request by simp
qed

end
