(* ===== verification/Runtime.thy ===== *)
theory Runtime
  imports Sender
begin

text \<open>
  The lifetime of the process runtime, \<open>runtime.py\<close>: the \<open>AsyncRunner\<close> that owns the event loop,
  the \<open>ProcessRuntime\<close> that owns client, outbox and sender, and the one active runtime of the process.

  Threads interleave: an operation of a provider thread (begin, body, finish), the sender thread, the
  event loop (a call completes, the loop ends) and the finalizing thread each contribute steps, and
  every step is one section under a lock or one wait. Each call of \<open>run\<close> has a token; the loop
  records how the call ended in \<open>rn_done\<close>, the caller's future.
\<close>

section \<open>The runner\<close>

datatype run_error = Reentrant | BadDeadline | RunnerIsClosed | RunnerIsUnsettled

record runner =
  rn_shutdown :: bool
  rn_ended :: bool
  rn_running :: "nat list"
  rn_unsettled :: "nat list"
  rn_done :: "(nat, bool) dict"
  rn_next :: nat

definition new_runner :: runner where
  "new_runner = \<lparr>rn_shutdown = False, rn_ended = False, rn_running = [], rn_unsettled = [], rn_done = [],
     rn_next = 0\<rparr>"

text \<open>The first half of \<open>run\<close>: the guards and the scheduling of the call.\<close>

definition run_enter :: "bool \<Rightarrow> real option \<Rightarrow> runner \<Rightarrow> run_error + nat \<times> runner" where
  "run_enter in_loop timeout rn =
     (if in_loop then Inl Reentrant
      else if (case timeout of None \<Rightarrow> False | Some t \<Rightarrow> t \<le> 0) then Inl BadDeadline
      else if rn_shutdown rn \<or> rn_ended rn then Inl RunnerIsClosed
      else if rn_unsettled rn \<noteq> [] then Inl RunnerIsUnsettled
      else Inr (rn_next rn, rn\<lparr>rn_running := rn_running rn @ [rn_next rn], rn_next := Suc (rn_next rn)\<rparr>))"

text \<open>\<open>_complete\<close>: the loop sets the result of a call, returned or raised, and settles its token.\<close>

definition call_done :: "nat \<Rightarrow> bool \<Rightarrow> runner \<Rightarrow> runner" where
  "call_done tok returned rn =
     (if tok \<in> set (rn_running rn) then
        rn\<lparr>rn_running := removeAll tok (rn_running rn), rn_unsettled := removeAll tok (rn_unsettled rn),
           rn_done := dict_set (rn_done rn) tok returned\<rparr>
      else rn)"

text \<open>
  The caller gives up, at its deadline or by an exception: the task is cancelled, waited for within the
  drain and published as unsettled when it still runs.
\<close>

definition publish_unsettled :: "nat \<Rightarrow> runner \<Rightarrow> runner" where
  "publish_unsettled tok rn =
     (if tok \<in> set (rn_running rn) then rn\<lparr>rn_unsettled := List.insert tok (rn_unsettled rn)\<rparr> else rn)"

definition runner_settled :: "runner \<Rightarrow> bool" where
  "runner_settled rn \<longleftrightarrow> rn_unsettled rn = []"

text \<open>\<open>shutdown\<close> up to the join: \<open>False\<close> when the loop is over already.\<close>

definition begin_shutdown :: "bool \<Rightarrow> runner \<Rightarrow> run_error + bool \<times> runner" where
  "begin_shutdown in_loop rn =
     (if in_loop then Inl Reentrant
      else if rn_shutdown rn \<and> rn_ended rn then Inr (False, rn)
      else if rn_unsettled rn \<noteq> [] then Inl RunnerIsUnsettled
      else Inr (True, rn\<lparr>rn_shutdown := True\<rparr>))"

text \<open>A stopped loop cancels its pending tasks, waits for all of them and ends.\<close>

definition loop_end :: "runner \<Rightarrow> runner" where
  "loop_end rn = (if rn_shutdown rn \<and> rn_running rn = [] then rn\<lparr>rn_ended := True\<rparr> else rn)"

section \<open>The process runtime\<close>

datatype fin_failure = OutboxCloseFailed | ClientCloseFailed | RunFailed run_error | Interrupted

datatype fin_result = FinReturned bool | FinReentrant | SenderStop | FinRaised fin_failure

text \<open>Where the thread in \<open>finalize\<close> is, with the failure it has recorded so far.\<close>

datatype fin_pc =
    FzRest
  | FzStop
  | FzDrain
  | FzJoin
  | FzSettle
  | FzCloseOutbox
  | FzCloseClient "fin_failure option"
  | FzAwaitClient nat "fin_failure option"
  | FzShutdown "fin_failure option"
  | FzJoinLoop "fin_failure option"
  | FzMark "fin_failure option"

record runtime =
  ru_config :: better_config
  ru_active :: nat
  ru_closed :: bool
  ru_finalizing :: bool
  ru_client_closed :: bool
  ru_close_calls :: "nat list"
  ru_outbox :: bool
  ru_world :: "world option"
  ru_runner :: runner
  ru_pc :: fin_pc

definition accepting_operations :: "runtime \<Rightarrow> bool" where
  "accepting_operations ru \<longleftrightarrow> \<not> ru_finalizing ru \<and> \<not> ru_closed ru"

definition sender_over :: "runtime \<Rightarrow> bool" where
  "sender_over ru = (case ru_world ru of None \<Rightarrow> True | Some wd \<Rightarrow> ended (sn_pc (wd_sender wd)))"

datatype runtime_event =
    Progress
  | Begun bool
  | TurnResult "admission_result option"
  | Entered "run_error + nat"
  | Abandoned bool
  | Sent "sent list"
  | OutboxClosed bool
  | Finalized fin_result

definition begin_operation :: "runtime \<Rightarrow> runtime_event \<times> runtime" where
  "begin_operation ru =
     (if accepting_operations ru then (Begun True, ru\<lparr>ru_active := Suc (ru_active ru)\<rparr>) else (Begun False, ru))"

definition finish_operation :: "runtime \<Rightarrow> runtime" where
  "finish_operation ru = ru\<lparr>ru_active := ru_active ru - 1\<rparr>"

text \<open>
  \<open>admit_turn\<close>: the segments of the turn under the configured tags and byte bound, their admission and
  a wake of the sender. \<open>None\<close> is a raised \<open>RetentionError\<close> other than the capacity one.
\<close>

definition admit_turn ::
    "sha_fun \<Rightarrow> (nat \<Rightarrow> bool) \<Rightarrow> (better_config \<Rightarrow> ustr \<Rightarrow> bool) \<Rightarrow> faults \<Rightarrow> real \<Rightarrow> string \<Rightarrow> ustr \<Rightarrow> turn_input
     \<Rightarrow> runtime \<Rightarrow> admission_result option \<times> runtime" where
  "admit_turn sha word decodes fs now event_id occurred_at t ru =
     (case (ru_outbox ru, ru_world ru) of
        (True, Some wd) \<Rightarrow>
          (case build_retained_segments sha word event_id occurred_at
                  (t\<lparr>ti_tags := rt_tags (retain_cfg (ru_config ru)),
                     ti_segment_max_bytes := PInt (rt_segment_max_bytes (retain_cfg (ru_config ru)))\<rparr>) of
             Inl CapacityExceeded \<Rightarrow> (Some (plain_result CapacityRefused), ru)
           | Inl Rejected \<Rightarrow> (None, ru)
           | Inr segments \<Rightarrow>
               (case admit sha decodes fs now segments (wd_outbox wd) of
                  (result, ob) \<Rightarrow>
                    (Some result,
                     ru\<lparr>ru_world := Some (wd\<lparr>wd_outbox := ob,
                          wd_sender := (if accepted result then wake (wd_sender wd) else wd_sender wd)\<rparr>)\<rparr>)))
      | _ \<Rightarrow> (Some (plain_result Invalid), ru))"

section \<open>Finalization\<close>

text \<open>
  \<open>fe_remaining\<close> is \<open>_remaining_until(deadline)\<close> read in the step, \<open>fe_interrupt\<close> a
  \<open>KeyboardInterrupt\<close> that arrives in a wait, \<open>fe_close_fault\<close> a raise of the SQLite close.
\<close>

record fin_env =
  fe_remaining :: real
  fe_interrupt :: bool
  fe_close_fault :: bool

definition fin_goto :: "fin_pc \<Rightarrow> runtime \<Rightarrow> runtime_event \<times> runtime" where
  "fin_goto pc ru = (Progress, ru\<lparr>ru_pc := pc\<rparr>)"

definition fin_end :: "fin_result \<Rightarrow> runtime \<Rightarrow> runtime_event \<times> runtime" where
  "fin_end result ru = (Finalized result, ru\<lparr>ru_pc := FzRest\<rparr>)"

text \<open>A wait that ends when \<open>ready\<close>, when its thread is interrupted or at the deadline.\<close>

definition fin_wait :: "fin_env \<Rightarrow> bool \<Rightarrow> fin_pc \<Rightarrow> runtime \<Rightarrow> runtime_event \<times> runtime" where
  "fin_wait e ready pc ru =
     (if ready then fin_goto pc ru
      else if fe_interrupt e then fin_end (FinRaised Interrupted) ru
      else if fe_remaining e \<le> 0 then fin_end SenderStop ru
      else (Progress, ru))"

definition first_failure :: "fin_failure option \<Rightarrow> fin_failure \<Rightarrow> fin_failure option" where
  "first_failure earlier failure = (case earlier of None \<Rightarrow> Some failure | Some f \<Rightarrow> Some f)"

definition close_world :: "world \<Rightarrow> world" where
  "close_world wd = wd\<lparr>wd_outbox := close_outbox (wd_outbox wd)\<rparr>"

definition outbox_open :: "runtime \<Rightarrow> bool" where
  "outbox_open ru = (case ru_world ru of None \<Rightarrow> False | Some wd \<Rightarrow> \<not> ob_closed (wd_outbox wd))"

definition fin_close_outbox :: "fin_env \<Rightarrow> runtime \<Rightarrow> runtime_event \<times> runtime" where
  "fin_close_outbox e ru =
     (if ru_outbox ru then
        (let failed = (fe_close_fault e \<and> outbox_open ru) in
         (OutboxClosed (\<not> failed),
          ru\<lparr>ru_world := map_option close_world (ru_world ru), ru_outbox := failed,
             ru_pc := FzCloseClient (if failed then Some OutboxCloseFailed else None)\<rparr>))
      else fin_goto (FzCloseClient None) ru)"

definition fin_close_client :: "fin_env \<Rightarrow> fin_failure option \<Rightarrow> runtime \<Rightarrow> runtime_event \<times> runtime" where
  "fin_close_client e failure ru =
     (if ru_client_closed ru then fin_goto (FzShutdown failure) ru
      else if fe_remaining e \<le> 0 then fin_end SenderStop ru
      else
        (case run_enter False (Some (fe_remaining e)) (ru_runner ru) of
           Inl RunnerIsUnsettled \<Rightarrow> fin_end SenderStop ru
         | Inl err \<Rightarrow> fin_goto (FzShutdown (first_failure failure (RunFailed err))) ru
         | Inr (tok, rn) \<Rightarrow>
             (Entered (Inr tok),
              ru\<lparr>ru_runner := rn, ru_close_calls := tok # ru_close_calls ru,
                 ru_pc := FzAwaitClient tok failure\<rparr>)))"

definition fin_await_client :: "fin_env \<Rightarrow> nat \<Rightarrow> fin_failure option \<Rightarrow> runtime \<Rightarrow> runtime_event \<times> runtime" where
  "fin_await_client e tok failure ru =
     (case dict_get (rn_done (ru_runner ru)) tok of
        Some True \<Rightarrow> fin_goto (FzShutdown failure) ru
      | Some False \<Rightarrow> fin_goto (FzShutdown (first_failure failure ClientCloseFailed)) ru
      | None \<Rightarrow>
          (let given_up = ru\<lparr>ru_runner := publish_unsettled tok (ru_runner ru)\<rparr> in
           if fe_interrupt e then fin_goto (FzShutdown (first_failure failure Interrupted)) given_up
           else if fe_remaining e \<le> 0 then fin_end SenderStop given_up
           else (Progress, ru)))"

definition fin_shutdown :: "fin_failure option \<Rightarrow> runtime \<Rightarrow> runtime_event \<times> runtime" where
  "fin_shutdown failure ru =
     (case begin_shutdown False (ru_runner ru) of
        Inl err \<Rightarrow> fin_goto (FzMark (first_failure failure (RunFailed err))) ru
      | Inr (False, _) \<Rightarrow> fin_goto (FzMark failure) ru
      | Inr (True, rn) \<Rightarrow> fin_goto (FzJoinLoop failure) (ru\<lparr>ru_runner := rn\<rparr>))"

definition fin_join_loop :: "fin_env \<Rightarrow> fin_failure option \<Rightarrow> runtime \<Rightarrow> runtime_event \<times> runtime" where
  "fin_join_loop e failure ru =
     (if rn_ended (ru_runner ru) then fin_goto (FzMark failure) ru
      else if fe_interrupt e then fin_goto (FzMark (first_failure failure Interrupted)) ru
      else if fe_remaining e \<le> 0 then fin_end SenderStop ru
      else (Progress, ru))"

definition fin_mark :: "fin_failure option \<Rightarrow> runtime \<Rightarrow> runtime_event \<times> runtime" where
  "fin_mark failure ru =
     fin_end (case failure of None \<Rightarrow> FinReturned True | Some f \<Rightarrow> FinRaised f) (ru\<lparr>ru_closed := True\<rparr>)"

definition stop_sender :: "runtime \<Rightarrow> runtime" where
  "stop_sender ru =
     ru\<lparr>ru_world := map_option (\<lambda>wd. wd\<lparr>wd_sender := wake (request_stop (wd_sender wd))\<rparr>) (ru_world ru)\<rparr>"

definition fin_call :: "bool \<Rightarrow> runtime \<Rightarrow> runtime_event \<times> runtime" where
  "fin_call in_loop ru =
     (if in_loop then (Finalized FinReentrant, ru)
      else if ru_closed ru then (Finalized (FinReturned False), ru)
      else if ru_pc ru \<noteq> FzRest then (Progress, ru)
      else (Progress, ru\<lparr>ru_finalizing := True, ru_pc := FzStop\<rparr>))"

definition fin_step :: "fin_env \<Rightarrow> runtime \<Rightarrow> runtime_event \<times> runtime" where
  "fin_step e ru =
     (case ru_pc ru of
        FzRest \<Rightarrow> (Progress, ru)
      | FzStop \<Rightarrow> fin_goto FzDrain (stop_sender ru)
      | FzDrain \<Rightarrow> fin_wait e (ru_active ru = 0) FzJoin ru
      | FzJoin \<Rightarrow> fin_wait e (sender_over ru) FzSettle ru
      | FzSettle \<Rightarrow> fin_wait e (runner_settled (ru_runner ru)) FzCloseOutbox ru
      | FzCloseOutbox \<Rightarrow> fin_close_outbox e ru
      | FzCloseClient failure \<Rightarrow> fin_close_client e failure ru
      | FzAwaitClient tok failure \<Rightarrow> fin_await_client e tok failure ru
      | FzShutdown failure \<Rightarrow> fin_shutdown failure ru
      | FzJoinLoop failure \<Rightarrow> fin_join_loop e failure ru
      | FzMark failure \<Rightarrow> fin_mark failure ru)"

section \<open>The threads together\<close>

text \<open>The sender's thread, the loop and the callers of operations interleave with the finalizing thread.\<close>

datatype runtime_op =
    BeginOperation
  | FinishOperation
  | TurnCall faults real string ustr turn_input
  | RunCall bool "real option"
  | CallDone nat bool
  | GiveUp nat
  | SenderThread sender_env
  | ForeignLocks os_state
  | LoopEnd
  | FinalizeCall bool
  | FinalizeStep fin_env

definition sender_thread :: "(ustr \<Rightarrow> ustr option) \<Rightarrow> sender_env \<Rightarrow> runtime \<Rightarrow> runtime_event \<times> runtime" where
  "sender_thread ts e ru =
     (case ru_world ru of
        None \<Rightarrow> (Progress, ru)
      | Some wd \<Rightarrow>
          (case pc_step ts e (sn_stop (wd_sender wd)) (sn_pc (wd_sender wd)) (sn_wake (wd_sender wd))
                  (wd_outbox wd) (wd_os wd) of
             (sent, pc, w, ob, os) \<Rightarrow>
               (Sent sent,
                ru\<lparr>ru_world := Some (wd\<lparr>wd_sender := (wd_sender wd)\<lparr>sn_pc := pc, sn_wake := w\<rparr>,
                     wd_outbox := ob, wd_os := os\<rparr>)\<rparr>)))"

definition runtime_step ::
    "sha_fun \<Rightarrow> (nat \<Rightarrow> bool) \<Rightarrow> (better_config \<Rightarrow> ustr \<Rightarrow> bool) \<Rightarrow> (ustr \<Rightarrow> ustr option) \<Rightarrow> runtime_op \<Rightarrow> runtime
     \<Rightarrow> runtime_event \<times> runtime" where
  "runtime_step sha word decodes ts op ru =
     (case op of
        BeginOperation \<Rightarrow> begin_operation ru
      | FinishOperation \<Rightarrow> (Progress, finish_operation ru)
      | TurnCall fs now event_id occurred_at t \<Rightarrow>
          (case admit_turn sha word decodes fs now event_id occurred_at t ru of
             (result, ru') \<Rightarrow> (TurnResult result, ru'))
      | RunCall in_loop timeout \<Rightarrow>
          (case run_enter in_loop timeout (ru_runner ru) of
             Inl err \<Rightarrow> (Entered (Inl err), ru)
           | Inr (tok, rn) \<Rightarrow> (Entered (Inr tok), ru\<lparr>ru_runner := rn\<rparr>))
      | CallDone tok returned \<Rightarrow>
          (Progress,
           ru\<lparr>ru_runner := call_done tok returned (ru_runner ru),
              ru_client_closed := ru_client_closed ru \<or>
                (returned \<and> tok \<in> set (rn_running (ru_runner ru)) \<and> tok \<in> set (ru_close_calls ru))\<rparr>)
      | GiveUp tok \<Rightarrow>
          (Abandoned (tok \<in> set (rn_running (ru_runner ru))),
           ru\<lparr>ru_runner := publish_unsettled tok (ru_runner ru)\<rparr>)
      | SenderThread e \<Rightarrow> sender_thread ts e ru
      | ForeignLocks os \<Rightarrow> (Progress, ru\<lparr>ru_world := map_option (\<lambda>wd. wd\<lparr>wd_os := os\<rparr>) (ru_world ru)\<rparr>)
      | LoopEnd \<Rightarrow> (Progress, ru\<lparr>ru_runner := loop_end (ru_runner ru)\<rparr>)
      | FinalizeCall in_loop \<Rightarrow> fin_call in_loop ru
      | FinalizeStep e \<Rightarrow> fin_step e ru)"

definition runtime_run ::
    "sha_fun \<Rightarrow> (nat \<Rightarrow> bool) \<Rightarrow> (better_config \<Rightarrow> ustr \<Rightarrow> bool) \<Rightarrow> (ustr \<Rightarrow> ustr option) \<Rightarrow> runtime_op list \<Rightarrow> runtime
     \<Rightarrow> (runtime_op \<times> runtime_event) list \<times> runtime" where
  "runtime_run sha word decodes ts = trace_run (runtime_step sha word decodes ts)"

section \<open>Construction\<close>

text \<open>
  What the parts of a constructor answer: whether the loop's thread starts and the client is built,
  the opened outbox with the locks of the system (\<open>None\<close> when opening raises), and whether the sender
  is created and started.
\<close>

record construction =
  cs_runner :: bool
  cs_client :: bool
  cs_outbox :: "(sqlite_outbox \<times> os_state) option"
  cs_sender :: bool

definition bare_runtime :: "better_config \<Rightarrow> runtime" where
  "bare_runtime config =
     \<lparr>ru_config = config, ru_active = 0, ru_closed = False, ru_finalizing = False, ru_client_closed = False,
      ru_close_calls = [], ru_outbox = False, ru_world = None, ru_runner = new_runner, ru_pc = FzRest\<rparr>"

definition attach_outbox :: "sqlite_outbox \<times> os_state \<Rightarrow> runtime \<Rightarrow> runtime" where
  "attach_outbox opened ru =
     ru\<lparr>ru_outbox := True,
        ru_world := Some \<lparr>wd_sender = new_sender, wd_outbox = fst opened, wd_os = snd opened\<rparr>\<rparr>"

text \<open>
  \<open>_cleanup_failed_construction\<close>. The sender's thread never ran here, so its join returns at once; the
  runner is shut down without a bound, that is, until its loop has ended.
\<close>

definition cleanup_failed_construction :: "runtime \<Rightarrow> runtime" where
  "cleanup_failed_construction ru =
     ru\<lparr>ru_world := map_option (\<lambda>wd. close_world (wd\<lparr>wd_sender := (wd_sender wd)\<lparr>sn_pc := Finished\<rparr>\<rparr>)) (ru_world ru),
        ru_runner := (ru_runner ru)\<lparr>rn_shutdown := True, rn_ended := True\<rparr>\<rparr>"

text \<open>\<open>Inl\<close> carries what a failed constructor leaves behind.\<close>

definition construct :: "bool \<Rightarrow> better_config \<Rightarrow> construction \<Rightarrow> runtime option + runtime" where
  "construct sender_enabled config c =
     (if \<not> cs_runner c then Inl None
      else if \<not> cs_client c then Inl (Some (cleanup_failed_construction (bare_runtime config)))
      else if sender_enabled \<and> rt_enabled (retain_cfg config) then
        (case cs_outbox c of
           None \<Rightarrow> Inl (Some (cleanup_failed_construction (bare_runtime config)))
         | Some opened \<Rightarrow>
             (let ru = attach_outbox opened (bare_runtime config) in
              if cs_sender c then Inr ru else Inl (Some (cleanup_failed_construction ru))))
      else Inr (bare_runtime config))"

definition create_operator_runtime :: "better_config \<Rightarrow> construction \<Rightarrow> runtime option + runtime" where
  "create_operator_runtime = construct False"

section \<open>The one runtime of the process\<close>

text \<open>
  \<open>ps_heap\<close> holds every runtime ever constructed; \<open>ps_active\<close>, \<open>ps_config\<close> and \<open>ps_finalizing\<close> are
  the module's globals.
\<close>

record process =
  ps_heap :: "runtime list"
  ps_config :: "better_config option"
  ps_active :: "nat option"
  ps_finalizing :: bool

definition new_process :: process where
  "new_process = \<lparr>ps_heap = [], ps_config = None, ps_active = None, ps_finalizing = False\<rparr>"

datatype acquire_error = IsFinalizing | ConfigurationConflict | ConstructionFailed

definition acquire_process_runtime ::
    "better_config \<Rightarrow> construction \<Rightarrow> process \<Rightarrow> (acquire_error + nat) \<times> process" where
  "acquire_process_runtime config c ps =
     (if ps_finalizing ps then (Inl IsFinalizing, ps)
      else
        (case ps_active ps of
           Some i \<Rightarrow>
             (if \<not> accepting_operations (ps_heap ps ! i) then (Inl IsFinalizing, ps)
              else if Some config \<noteq> ps_config ps then (Inl ConfigurationConflict, ps)
              else (Inr i, ps))
         | None \<Rightarrow>
             (case construct True config c of
                Inl _ \<Rightarrow> (Inl ConstructionFailed, ps)
              | Inr ru \<Rightarrow>
                  (Inr (length (ps_heap ps)),
                   ps\<lparr>ps_heap := ps_heap ps @ [ru], ps_config := Some config,
                      ps_active := Some (length (ps_heap ps))\<rparr>))))"

text \<open>
  How \<open>finalize_process_runtime\<close> leaves the globals: a sender that did not stop and a reentrant call keep
  the runtime active; every other end, raised or returned, clears it.
\<close>

definition settle_globals :: "runtime_event \<Rightarrow> process \<Rightarrow> process" where
  "settle_globals event ps =
     (case event of
        Finalized FinReentrant \<Rightarrow> ps\<lparr>ps_finalizing := False\<rparr>
      | Finalized SenderStop \<Rightarrow> ps\<lparr>ps_finalizing := False\<rparr>
      | Finalized _ \<Rightarrow> ps\<lparr>ps_config := None, ps_active := None, ps_finalizing := False\<rparr>
      | _ \<Rightarrow> ps)"

definition finalize_process_runtime :: "bool \<Rightarrow> process \<Rightarrow> runtime_event \<times> process" where
  "finalize_process_runtime in_loop ps =
     (case ps_active ps of
        None \<Rightarrow> (Finalized (FinReturned False), ps)
      | Some i \<Rightarrow>
          (if ps_finalizing ps then (Finalized (FinReturned False), ps)
           else
             (case fin_call in_loop (ps_heap ps ! i) of
                (event, ru) \<Rightarrow>
                  (event, settle_globals event (ps\<lparr>ps_heap := (ps_heap ps)[i := ru], ps_finalizing := True\<rparr>)))))"

datatype process_op =
    Acquire better_config construction
  | FinalizeProcess bool
  | FinalizeGoesOn fin_env
  | OnRuntime nat runtime_op

datatype process_event =
    AcquireResult "acquire_error + nat"
  | FinalizeEvent runtime_event
  | RuntimeEvent nat runtime_event

definition process_step ::
    "sha_fun \<Rightarrow> (nat \<Rightarrow> bool) \<Rightarrow> (better_config \<Rightarrow> ustr \<Rightarrow> bool) \<Rightarrow> (ustr \<Rightarrow> ustr option) \<Rightarrow> process_op \<Rightarrow> process
     \<Rightarrow> process_event \<times> process" where
  "process_step sha word decodes ts op ps =
     (case op of
        Acquire config c \<Rightarrow>
          (case acquire_process_runtime config c ps of (result, ps') \<Rightarrow> (AcquireResult result, ps'))
      | FinalizeProcess in_loop \<Rightarrow>
          (case finalize_process_runtime in_loop ps of (event, ps') \<Rightarrow> (FinalizeEvent event, ps'))
      | FinalizeGoesOn e \<Rightarrow>
          (case ps_active ps of
             Some i \<Rightarrow>
               (if ps_finalizing ps then
                  (case fin_step e (ps_heap ps ! i) of
                     (event, ru) \<Rightarrow>
                       (FinalizeEvent event, settle_globals event (ps\<lparr>ps_heap := (ps_heap ps)[i := ru]\<rparr>)))
                else (FinalizeEvent Progress, ps))
           | None \<Rightarrow> (FinalizeEvent Progress, ps))
      | OnRuntime i rop \<Rightarrow>
          (case runtime_step sha word decodes ts rop (ps_heap ps ! i) of
             (event, ru) \<Rightarrow> (RuntimeEvent i event, ps\<lparr>ps_heap := (ps_heap ps)[i := ru]\<rparr>)))"

definition process_run ::
    "sha_fun \<Rightarrow> (nat \<Rightarrow> bool) \<Rightarrow> (better_config \<Rightarrow> ustr \<Rightarrow> bool) \<Rightarrow> (ustr \<Rightarrow> ustr option) \<Rightarrow> process_op list \<Rightarrow> process
     \<Rightarrow> (process_op \<times> process_event) list \<times> process" where
  "process_run sha word decodes ts = trace_run (process_step sha word decodes ts)"

section \<open>Handles\<close>

text \<open>\<open>ProcessRuntimeHandle\<close>: a provider's reference, which closes without touching the runtime.\<close>

record runtime_handle =
  hd_runtime :: nat
  hd_closed :: bool

definition close_handle :: "runtime_handle \<Rightarrow> runtime_handle" where
  "close_handle h = h\<lparr>hd_closed := True\<rparr>"

definition require_runtime :: "runtime_handle \<Rightarrow> nat option" where
  "require_runtime h = (if hd_closed h then None else Some (hd_runtime h))"

end
