(* ===== verification/RuntimeTheorems.thy ===== *)
theory RuntimeTheorems
  imports Runtime Samples
begin

text \<open>
  The lifetime of the process runtime: what finalization waits for before it closes anything, the one
  live runtime of a process, and the runner's refusal of new calls beside an abandoned one.

  The invariant \<open>runtime_ok\<close> relates the point of the finalizing thread to what has come to rest. Its
  parameter \<open>calm\<close> adds what holds as long as no wait of the finalizing thread is interrupted.
\<close>

section \<open>The outbox stays closed\<close>

lemma transitions_ob_closed:
  "recover_sending v fs owner now ob = Inr (r1, ob') \<Longrightarrow> ob_closed ob' = ob_closed ob"
  "claim_due v fs owner now ob = Inr (r2, ob') \<Longrightarrow> ob_closed ob' = ob_closed ob"
  "complete_claim v fs owner doc attempt ob = (r1, ob') \<Longrightarrow> ob_closed ob' = ob_closed ob"
  "reschedule_claim v fs owner doc attempt category now ob = Inr (r1, ob') \<Longrightarrow> ob_closed ob' = ob_closed ob"
  "admit sha decodes fs t segments ob = (r3, ob') \<Longrightarrow> ob_closed ob' = ob_closed ob"
  by (auto simp: recover_sending_def claim_due_def complete_claim_def reschedule_claim_def admit_def Let_def
      split: sum.splits option.splits prod.splits if_splits)

lemma pc_step_ob_closed:
  assumes "pc_step ts e stop pc w ob os = (sent, pc', w', ob', os')"
  shows "ob_closed ob' = ob_closed ob"
  using assms
  by (cases pc) (auto dest: transitions_ob_closed split: sum.splits prod.splits option.splits profile_lock_status.splits if_splits)

lemma pc_step_ended:
  assumes "pc_step ts e stop pc w ob os = (sent, pc', w', ob', os')" and "ended pc"
  shows "pc' = pc \<and> ob' = ob \<and> sent = [] \<and> os' = os"
  using assms by (auto simp: ended_def)

section \<open>The invariant of a runtime\<close>

primrec fin_phase :: "fin_pc \<Rightarrow> nat" where
  "fin_phase FzRest = 0"
| "fin_phase FzStop = 1"
| "fin_phase FzDrain = 2"
| "fin_phase FzJoin = 3"
| "fin_phase FzSettle = 4"
| "fin_phase FzCloseOutbox = 5"
| "fin_phase (FzCloseClient failure) = 6"
| "fin_phase (FzAwaitClient tok failure) = 7"
| "fin_phase (FzShutdown failure) = 8"
| "fin_phase (FzJoinLoop failure) = 9"
| "fin_phase (FzMark failure) = 10"

definition runner_ok :: "runner \<Rightarrow> bool" where
  "runner_ok rn \<longleftrightarrow>
     set (rn_unsettled rn) \<subseteq> set (rn_running rn) \<and> (rn_ended rn \<longrightarrow> rn_shutdown rn \<and> rn_running rn = [])"

text \<open>No operation is begun, none can begin, and the sender's thread is over.\<close>

definition at_rest :: "runtime \<Rightarrow> bool" where
  "at_rest ru \<longleftrightarrow> ru_finalizing ru \<and> ru_active ru = 0 \<and> sender_over ru"

definition runtime_ok :: "bool \<Rightarrow> runtime \<Rightarrow> bool" where
  "runtime_ok calm ru \<longleftrightarrow>
     runner_ok (ru_runner ru) \<and>
     (1 \<le> fin_phase (ru_pc ru) \<longrightarrow> ru_finalizing ru \<and> \<not> ru_closed ru) \<and>
     (3 \<le> fin_phase (ru_pc ru) \<longrightarrow> ru_active ru = 0) \<and>
     (4 \<le> fin_phase (ru_pc ru) \<longrightarrow> sender_over ru) \<and>
     (6 \<le> fin_phase (ru_pc ru) \<or> ru_closed ru \<longrightarrow> \<not> outbox_open ru) \<and>
     (ru_outbox ru \<longrightarrow> ru_world ru \<noteq> None) \<and> (outbox_open ru \<longrightarrow> ru_outbox ru) \<and>
     (ru_world ru \<noteq> None \<and> \<not> outbox_open ru \<or> ru_closed ru \<longrightarrow> at_rest ru) \<and>
     (calm \<and> 5 \<le> fin_phase (ru_pc ru) \<longrightarrow> rn_unsettled (ru_runner ru) = []) \<and>
     (calm \<and> (fin_phase (ru_pc ru) = 10 \<or> ru_closed ru) \<longrightarrow> rn_ended (ru_runner ru))"

definition runtime_allowed :: "bool \<Rightarrow> runtime \<Rightarrow> runtime_op \<Rightarrow> bool" where
  "runtime_allowed calm ru op =
     (case op of
        FinishOperation \<Rightarrow> 0 < ru_active ru
      | TurnCall _ _ _ _ _ \<Rightarrow> 0 < ru_active ru
      | RunCall _ _ \<Rightarrow> 0 < ru_active ru \<or> \<not> sender_over ru
      | GiveUp _ \<Rightarrow> 0 < ru_active ru \<or> \<not> sender_over ru
      | FinalizeStep e \<Rightarrow> \<not> (calm \<and> fe_interrupt e)
      | _ \<Rightarrow> True)"

lemma runner_ok_ops:
  assumes "runner_ok rn"
  shows "run_enter b t rn = Inr (tok, rn') \<Longrightarrow> runner_ok rn'"
    and "runner_ok (call_done tok r rn)" and "runner_ok (publish_unsettled tok rn)" and "runner_ok (loop_end rn)"
    and "begin_shutdown b rn = Inr (x, rn') \<Longrightarrow> runner_ok rn'"
  using assms
  by (auto simp: runner_ok_def run_enter_def call_done_def publish_unsettled_def loop_end_def begin_shutdown_def
      split: if_splits)

lemmas fin_defs = fin_goto_def fin_end_def fin_wait_def fin_close_outbox_def fin_close_client_def
  fin_await_client_def fin_shutdown_def fin_join_loop_def fin_mark_def stop_sender_def

lemma frame_updates [simp]:
  "sender_over (ru\<lparr>ru_pc := pc\<rparr>) = sender_over ru" "outbox_open (ru\<lparr>ru_pc := pc\<rparr>) = outbox_open ru"
  "sender_over (ru\<lparr>ru_active := n\<rparr>) = sender_over ru" "outbox_open (ru\<lparr>ru_active := n\<rparr>) = outbox_open ru"
  "sender_over (ru\<lparr>ru_closed := b\<rparr>) = sender_over ru" "outbox_open (ru\<lparr>ru_closed := b\<rparr>) = outbox_open ru"
  "sender_over (ru\<lparr>ru_finalizing := b\<rparr>) = sender_over ru" "outbox_open (ru\<lparr>ru_finalizing := b\<rparr>) = outbox_open ru"
  "sender_over (ru\<lparr>ru_runner := rn\<rparr>) = sender_over ru" "outbox_open (ru\<lparr>ru_runner := rn\<rparr>) = outbox_open ru"
  "sender_over (ru\<lparr>ru_close_calls := cs\<rparr>) = sender_over ru"
  "outbox_open (ru\<lparr>ru_close_calls := cs\<rparr>) = outbox_open ru"
  "sender_over (ru\<lparr>ru_client_closed := b\<rparr>) = sender_over ru"
  "outbox_open (ru\<lparr>ru_client_closed := b\<rparr>) = outbox_open ru"
  "sender_over (ru\<lparr>ru_outbox := b\<rparr>) = sender_over ru" "outbox_open (ru\<lparr>ru_outbox := b\<rparr>) = outbox_open ru"
  by (simp_all add: sender_over_def outbox_open_def)

lemma world_updates [simp]:
  "ru_world (stop_sender ru) = None \<longleftrightarrow> ru_world ru = None"
  "sender_over (stop_sender ru) = sender_over ru" "outbox_open (stop_sender ru) = outbox_open ru"
  by (simp_all add: sender_over_def outbox_open_def stop_sender_def wake_def request_stop_def split: option.splits)

lemma stop_sender_simps [simp]:
  "ru_pc (stop_sender ru) = ru_pc ru" "ru_active (stop_sender ru) = ru_active ru"
  "ru_closed (stop_sender ru) = ru_closed ru" "ru_finalizing (stop_sender ru) = ru_finalizing ru"
  "ru_outbox (stop_sender ru) = ru_outbox ru" "ru_runner (stop_sender ru) = ru_runner ru"
  "ru_config (stop_sender ru) = ru_config ru"
  by (simp_all add: stop_sender_def)

lemma close_world_simps [simp]:
  "wd_sender (close_world wd) = wd_sender wd" "ob_closed (wd_outbox (close_world wd))"
  by (simp_all add: close_world_def close_outbox_def)

lemma rn_ended_ops:
  "rn_ended rn \<Longrightarrow> \<exists>e. run_enter b t rn = Inl e"
  "rn_ended (call_done tok r rn) = rn_ended rn" "rn_ended (publish_unsettled tok rn) = rn_ended rn"
  "rn_ended rn \<Longrightarrow> rn_ended (loop_end rn)"
  "rn_unsettled rn = [] \<Longrightarrow> rn_unsettled (call_done tok r rn) = []"
  "rn_unsettled (loop_end rn) = rn_unsettled rn"
  by (simp_all add: run_enter_def call_done_def publish_unsettled_def loop_end_def)

lemma closed_world [simp]:
  "sender_over (ru\<lparr>ru_world := map_option close_world w\<rparr>) = sender_over (ru\<lparr>ru_world := w\<rparr>)"
  "\<not> outbox_open (ru\<lparr>ru_world := map_option close_world w\<rparr>)"
  by (simp_all add: sender_over_def outbox_open_def option.case_eq_if option.map_sel)

lemmas phase_simps = runtime_ok_def fin_step_def fin_goto_def fin_end_def fin_wait_def at_rest_def

text \<open>From the close of the outbox on, the invariant says the same at every point.\<close>

definition closing :: "runtime \<Rightarrow> bool" where
  "closing ru \<longleftrightarrow> runner_ok (ru_runner ru) \<and> at_rest ru \<and> \<not> ru_closed ru \<and> \<not> outbox_open ru \<and>
     (ru_outbox ru \<longrightarrow> ru_world ru \<noteq> None)"

lemma closing_updates [simp]:
  "closing (ru\<lparr>ru_pc := pc\<rparr>) = closing ru" "closing (ru\<lparr>ru_close_calls := cs\<rparr>) = closing ru"
  "runner_ok rn \<Longrightarrow> closing ru \<Longrightarrow> closing (ru\<lparr>ru_runner := rn\<rparr>)"
  by (simp_all add: closing_def at_rest_def)

lemma runtime_ok_closing:
  assumes "6 \<le> fin_phase (ru_pc ru)"
  shows "runtime_ok calm ru \<longleftrightarrow> closing ru \<and> (calm \<longrightarrow> rn_unsettled (ru_runner ru) = []) \<and>
    (calm \<and> fin_phase (ru_pc ru) = 10 \<longrightarrow> rn_ended (ru_runner ru))"
  using assms by (auto simp: runtime_ok_def closing_def at_rest_def)

lemma runtime_ok_resting: "closing ru \<Longrightarrow> ru_pc ru = FzRest \<Longrightarrow> runtime_ok calm ru"
  by (auto simp: runtime_ok_def closing_def at_rest_def)

lemma runtime_ok_closed:
  "closing ru \<Longrightarrow> (calm \<longrightarrow> rn_ended (ru_runner ru)) \<Longrightarrow> runtime_ok calm (ru\<lparr>ru_closed := True, ru_pc := FzRest\<rparr>)"
  by (auto simp: runtime_ok_def closing_def at_rest_def)

lemma closing_fin_step:
  assumes "closing ru" and "6 \<le> fin_phase (ru_pc ru)" and "fin_step e ru = (event, ru')"
    and "calm \<longrightarrow> \<not> fe_interrupt e \<and> rn_unsettled (ru_runner ru) = []"
    and "calm \<and> fin_phase (ru_pc ru) = 10 \<longrightarrow> rn_ended (ru_runner ru)"
  shows "runtime_ok calm ru'"
proof (cases "ru_pc ru")
  case (FzCloseClient failure)
  note step = assms(3) [unfolded fin_step_def FzCloseClient fin_pc.case fin_close_client_def fin_goto_def fin_end_def]
  show ?thesis
  proof (cases "run_enter False (Some (fe_remaining e)) (ru_runner ru)")
    case (Inl err)
    with step assms(1,4) FzCloseClient show ?thesis
      by (cases err) (auto simp: runtime_ok_closing runtime_ok_resting split: if_splits)
  next
    case (Inr entered)
    obtain tok rn where entered: "entered = (tok, rn)" by force
    have "runner_ok rn" "rn_unsettled rn = rn_unsettled (ru_runner ru)"
      using Inr entered assms(1) by (auto simp: closing_def run_enter_def runner_ok_def split: if_splits)
    with step Inr entered assms(1,4) FzCloseClient show ?thesis
      by (auto simp: runtime_ok_closing runtime_ok_resting split: if_splits)
  qed
next
  case (FzAwaitClient tok failure)
  have "runner_ok (publish_unsettled tok (ru_runner ru))"
    using assms(1) by (simp add: closing_def runner_ok_ops(3))
  with FzAwaitClient assms show ?thesis
    by (auto simp: fin_step_def fin_await_client_def fin_goto_def fin_end_def Let_def runtime_ok_closing runtime_ok_resting
        split: option.splits bool.splits if_splits)
next
  case (FzShutdown failure)
  note step = assms(3) [unfolded fin_step_def FzShutdown fin_pc.case fin_shutdown_def fin_goto_def]
  show ?thesis
  proof (cases "begin_shutdown False (ru_runner ru)")
    case (Inl err)
    with step assms(1,4) FzShutdown show ?thesis
      by (auto simp: runtime_ok_closing begin_shutdown_def split: if_splits)
  next
    case (Inr begun)
    obtain b rn where begun: "begun = (b, rn)" by force
    have "runner_ok rn" "rn_unsettled rn = rn_unsettled (ru_runner ru)" "\<not> b \<longrightarrow> rn_ended (ru_runner ru)"
      using Inr begun assms(1) by (auto simp: closing_def begin_shutdown_def runner_ok_def split: if_splits)
    with step Inr begun assms(1,4) FzShutdown show ?thesis
      by (cases b) (auto simp: runtime_ok_closing)
  qed
next
  case (FzJoinLoop failure)
  with assms show ?thesis
    by (auto simp: fin_step_def fin_join_loop_def fin_goto_def fin_end_def runtime_ok_closing runtime_ok_resting
        split: if_splits)
next
  case (FzMark failure)
  with assms(3) have "ru' = ru\<lparr>ru_closed := True, ru_pc := FzRest\<rparr>"
    by (auto simp: fin_step_def fin_mark_def fin_end_def)
  with FzMark assms(1,5) show ?thesis by (simp add: runtime_ok_closed)
qed (use assms(2) in simp_all)

lemma runtime_ok_fin_step:
  assumes "runtime_ok calm ru" and "\<not> (calm \<and> fe_interrupt e)" and "fin_step e ru = (event, ru')"
  shows "runtime_ok calm ru'"
proof (cases "ru_pc ru")
  case FzRest
  then show ?thesis using assms by (simp add: fin_step_def)
next
  case FzStop
  then have "ru' = (stop_sender ru)\<lparr>ru_pc := FzDrain\<rparr>" using assms(3) by (simp add: fin_step_def fin_goto_def)
  with FzStop assms(1) show ?thesis by (simp add: runtime_ok_def at_rest_def)
next
  case FzDrain
  then show ?thesis using assms by (simp add: phase_simps split: if_splits) auto
next
  case FzJoin
  have waits: "ru' = (if sender_over ru then ru\<lparr>ru_pc := FzSettle\<rparr> else if fe_interrupt e \<or> fe_remaining e \<le> 0
      then ru\<lparr>ru_pc := FzRest\<rparr> else ru)"
    using FzJoin assms(3) by (cases "sender_over ru") (auto simp: fin_step_def fin_wait_def fin_goto_def fin_end_def split: if_splits)
  show ?thesis unfolding waits using FzJoin assms(1,2) by (simp add: runtime_ok_def at_rest_def) auto
next
  case FzSettle
  then show ?thesis using assms by (simp add: phase_simps runner_settled_def split: if_splits) auto
next
  case FzCloseOutbox
  with assms(1) have ok: "runner_ok (ru_runner ru)" "ru_finalizing ru" "\<not> ru_closed ru" "ru_active ru = 0"
    "sender_over ru" "ru_outbox ru \<longrightarrow> ru_world ru \<noteq> None" "outbox_open ru \<longrightarrow> ru_outbox ru"
    "calm \<longrightarrow> rn_unsettled (ru_runner ru) = []"
    by (simp_all add: runtime_ok_def)
  show ?thesis
  proof (cases "ru_outbox ru")
    case True
    obtain failed failure where ru': "ru' = ru\<lparr>ru_world := map_option close_world (ru_world ru), ru_outbox := failed,
        ru_pc := FzCloseClient failure\<rparr>"
      using True FzCloseOutbox assms(3) by (auto simp: fin_step_def fin_close_outbox_def Let_def)
    show ?thesis unfolding ru' using True ok by (simp add: runtime_ok_def at_rest_def)
  next
    case False
    then have ru': "ru' = ru\<lparr>ru_pc := FzCloseClient None\<rparr>"
      using FzCloseOutbox assms(3) by (simp add: fin_step_def fin_close_outbox_def fin_goto_def)
    show ?thesis unfolding ru' using False ok by (simp add: runtime_ok_def at_rest_def)
  qed
qed (use assms(1,2) in \<open>auto simp: runtime_ok_closing intro!: closing_fin_step [OF _ _ assms(3)]\<close>)

lemma sender_thread_frame:
  assumes "sender_thread ts e ru = (event, ru')"
  shows "\<exists>w. ru' = ru\<lparr>ru_world := w\<rparr> \<and> (w = None \<longleftrightarrow> ru_world ru = None) \<and>
      outbox_open ru' = outbox_open ru \<and> (sender_over ru \<longrightarrow> sender_over ru' \<and> (event = Progress \<or> event = Sent []))"
proof (cases "ru_world ru")
  case None
  with assms show ?thesis by (intro exI [of _ None]) (simp add: sender_thread_def)
next
  case (Some wd)
  obtain sent pc' w' ob' os' where step: "pc_step ts e (sn_stop (wd_sender wd)) (sn_pc (wd_sender wd))
      (sn_wake (wd_sender wd)) (wd_outbox wd) (wd_os wd) = (sent, pc', w', ob', os')"
    by (metis prod_cases5)
  have "ob_closed ob' = ob_closed (wd_outbox wd)" using step by (rule pc_step_ob_closed)
  with assms Some step pc_step_ended [OF step] show ?thesis
    by (auto simp: sender_thread_def outbox_open_def sender_over_def)
qed

lemma admit_turn_frame:
  assumes "admit_turn sha word decodes fs now ev occurred t ru = (result, ru')"
  shows "\<exists>w. ru' = ru\<lparr>ru_world := w\<rparr> \<and> (w = None \<longleftrightarrow> ru_world ru = None) \<and>
      outbox_open ru' = outbox_open ru \<and> sender_over ru' = sender_over ru"
proof (cases "ru_world ru")
  case None
  with assms show ?thesis
    by (intro exI [of _ None]) (simp add: admit_turn_def split: bool.splits)
next
  case (Some wd)
  have same: "\<exists>w. ru = ru\<lparr>ru_world := w\<rparr> \<and> (w = None \<longleftrightarrow> ru_world ru = None)"
    using Some by (intro exI [of _ "ru_world ru"]) simp
  show ?thesis
  proof (cases "ru' = ru")
    case True
    with same show ?thesis by simp
  next
    case False
    then obtain segs r ob where a: "admit sha decodes fs now segs (wd_outbox wd) = (r, ob)"
      and ru': "ru' = ru\<lparr>ru_world := Some (wd\<lparr>wd_outbox := ob,
        wd_sender := (if accepted r then wake (wd_sender wd) else wd_sender wd)\<rparr>)\<rparr>"
      using assms Some
      by (auto simp: admit_turn_def split: bool.splits sum.splits retention_error.splits prod.splits)
    have "ob_closed ob = ob_closed (wd_outbox wd)" using a by (rule transitions_ob_closed)
    with ru' Some show ?thesis by (auto simp: outbox_open_def sender_over_def wake_def)
  qed
qed

lemma runtime_ok_frame:
  assumes "runtime_ok calm ru" and "ru' = ru\<lparr>ru_world := w\<rparr>" and "w = None \<longleftrightarrow> ru_world ru = None"
    and "outbox_open ru' = outbox_open ru" and "sender_over ru \<longrightarrow> sender_over ru'"
  shows "runtime_ok calm ru'"
  using assms(1,3-5) unfolding assms(2)
  by (simp add: runtime_ok_def at_rest_def)

lemma runtime_ok_runner:
  assumes "runtime_ok calm ru" and "runner_ok rn"
    and "rn_unsettled (ru_runner ru) = [] \<Longrightarrow> 4 \<le> fin_phase (ru_pc ru) \<Longrightarrow> rn_unsettled rn = []"
    and "rn_ended (ru_runner ru) \<longrightarrow> rn_ended rn"
  shows "runtime_ok calm (ru\<lparr>ru_runner := rn\<rparr>)"
  using assms by (simp add: runtime_ok_def at_rest_def)

lemma runtime_ok_client: "runtime_ok calm (ru\<lparr>ru_client_closed := b\<rparr>) = runtime_ok calm ru"
  by (simp add: runtime_ok_def at_rest_def)

lemma runtime_ok_step:
  assumes "runtime_ok calm ru" and "runtime_allowed calm ru op"
    and "runtime_step sha word decodes ts op ru = (event, ru')"
  shows "runtime_ok calm ru'"
proof -
  have rn: "runner_ok (ru_runner ru)" using assms(1) by (simp add: runtime_ok_def)
  have busy: "\<not> 4 \<le> fin_phase (ru_pc ru)" if "0 < ru_active ru \<or> \<not> sender_over ru"
  proof -
    have "3 \<le> fin_phase (ru_pc ru) \<longrightarrow> ru_active ru = 0" "4 \<le> fin_phase (ru_pc ru) \<longrightarrow> sender_over ru"
      using assms(1) unfolding runtime_ok_def by blast+
    with that show ?thesis by auto
  qed
  show ?thesis
  proof (cases op)
    case BeginOperation
    with assms(3) consider "ru' = ru" | "accepting_operations ru" "ru' = ru\<lparr>ru_active := Suc (ru_active ru)\<rparr>"
      by (auto simp: runtime_step_def begin_operation_def split: if_splits)
    then show ?thesis
    proof cases
      case 2
      then have idle: "\<not> ru_finalizing ru" by (simp add: accepting_operations_def)
      moreover have "1 \<le> fin_phase (ru_pc ru) \<longrightarrow> ru_finalizing ru"
        using assms(1) unfolding runtime_ok_def by blast
      ultimately have "fin_phase (ru_pc ru) = 0" by simp
      with idle 2 assms(1) show ?thesis by (simp add: runtime_ok_def at_rest_def)
    qed (use assms(1) in simp)
  next
    case FinishOperation
    with assms(3) have ru': "ru' = ru\<lparr>ru_active := ru_active ru - 1\<rparr>"
      by (simp add: runtime_step_def finish_operation_def)
    from assms(1) show ?thesis unfolding ru' by (simp add: runtime_ok_def at_rest_def)
  next
    case (TurnCall fs now event_id occurred_at t)
    with assms(3) obtain result where "admit_turn sha word decodes fs now event_id occurred_at t ru = (result, ru')"
      by (auto simp: runtime_step_def split: prod.splits)
    from admit_turn_frame [OF this] show ?thesis using runtime_ok_frame [OF assms(1)] by metis
  next
    case (RunCall in_loop timeout)
    show ?thesis
    proof (cases "run_enter in_loop timeout (ru_runner ru)")
      case (Inl err)
      with RunCall assms show ?thesis by (simp add: runtime_step_def)
    next
      case (Inr entered)
      then obtain tok rn' where e: "run_enter in_loop timeout (ru_runner ru) = Inr (tok, rn')" by (cases entered) auto
      with RunCall assms(3) have "ru' = ru\<lparr>ru_runner := rn'\<rparr>" by (simp add: runtime_step_def)
      moreover have "rn_unsettled rn' = []" "\<not> rn_ended (ru_runner ru)"
        using e by (auto simp: run_enter_def split: if_splits)
      ultimately show ?thesis using runtime_ok_runner [OF assms(1) runner_ok_ops(1) [OF rn e]] by simp
    qed
  next
    case (CallDone tok returned)
    have "runtime_ok calm (ru\<lparr>ru_runner := call_done tok returned (ru_runner ru)\<rparr>)"
      using assms(1) runner_ok_ops(2) [OF rn] by (rule runtime_ok_runner) (simp_all add: rn_ended_ops)
    then have "runtime_ok calm (ru\<lparr>ru_runner := call_done tok returned (ru_runner ru)\<rparr>\<lparr>ru_client_closed := b\<rparr>)" for b
      by (simp only: runtime_ok_client)
    with CallDone assms(3) show ?thesis by (auto simp: runtime_step_def)
  next
    case (GiveUp tok)
    have "runtime_ok calm (ru\<lparr>ru_runner := publish_unsettled tok (ru_runner ru)\<rparr>)"
      using assms(1) runner_ok_ops(3) [OF rn]
      by (rule runtime_ok_runner) (use GiveUp assms(2) busy in \<open>auto simp: runtime_allowed_def rn_ended_ops\<close>)
    with GiveUp assms(3) show ?thesis by (auto simp: runtime_step_def)
  next
    case (SenderThread e)
    with assms(3) have "sender_thread ts e ru = (event, ru')" by (simp add: runtime_step_def)
    from sender_thread_frame [OF this] show ?thesis using runtime_ok_frame [OF assms(1)] by metis
  next
    case (ForeignLocks os)
    with assms(3) have ru': "ru' = ru\<lparr>ru_world := map_option (\<lambda>wd. wd\<lparr>wd_os := os\<rparr>) (ru_world ru)\<rparr>"
      by (simp add: runtime_step_def)
    then have "outbox_open ru' = outbox_open ru" "sender_over ru' = sender_over ru"
      by (simp_all add: outbox_open_def sender_over_def option.case_eq_if option.map_sel)
    then show ?thesis using runtime_ok_frame [OF assms(1) ru'] by simp
  next
    case LoopEnd
    have "runtime_ok calm (ru\<lparr>ru_runner := loop_end (ru_runner ru)\<rparr>)"
      using assms(1) runner_ok_ops(4) [OF rn] by (rule runtime_ok_runner) (simp_all add: rn_ended_ops)
    with LoopEnd assms(3) show ?thesis by (auto simp: runtime_step_def)
  next
    case (FinalizeCall in_loop)
    then have call: "fin_call in_loop ru = (event, ru')" using assms(3) by (simp add: runtime_step_def)
    show ?thesis
    proof (cases "in_loop \<or> ru_closed ru \<or> ru_pc ru \<noteq> FzRest")
      case True
      with call have "ru' = ru" by (simp add: fin_call_def split: if_splits)
      with assms(1) show ?thesis by simp
    next
      case False
      with call have ru': "ru' = ru\<lparr>ru_finalizing := True, ru_pc := FzStop\<rparr>" by (simp add: fin_call_def)
      from False assms(1) show ?thesis unfolding ru' by (simp add: runtime_ok_def at_rest_def)
    qed
  next
    case (FinalizeStep e)
    with assms show ?thesis by (auto simp: runtime_step_def runtime_allowed_def intro: runtime_ok_fin_step)
  qed
qed

interpretation lifetime: guarded "runtime_step sha word decodes ts" "runtime_ok calm" "runtime_allowed calm"
  for sha word decodes ts calm
  by unfold_locales (rule runtime_ok_step)

section \<open>Nothing uses a closed outbox\<close>

text \<open>Events of operations that reach the outbox, and their absence.\<close>

definition quiet :: "runtime_op \<times> runtime_event \<Rightarrow> bool" where
  "quiet entry =
     (case snd entry of
        Begun ok \<Rightarrow> \<not> ok
      | TurnResult _ \<Rightarrow> False
      | Sent sent \<Rightarrow> sent = []
      | _ \<Rightarrow> True)"

definition begun_operations :: "(runtime_op \<times> runtime_event) list \<Rightarrow> nat" where
  "begun_operations trace = length (filter (\<lambda>entry. snd entry = Begun True) trace)"

definition finished_operations :: "(runtime_op \<times> runtime_event) list \<Rightarrow> nat" where
  "finished_operations trace = length (filter (\<lambda>entry. fst entry = FinishOperation) trace)"

lemma fin_step_event:
  assumes "fin_step e ru = (event, ru')"
  shows "event \<noteq> Begun True" and "ru_active ru' = ru_active ru" and "ru_config ru' = ru_config ru"
    and "ru_finalizing ru' = ru_finalizing ru" and "quiet (op, event)"
    and "sender_over ru \<Longrightarrow> sender_over ru'"
    and "event = OutboxClosed ok \<Longrightarrow> ru_pc ru = FzCloseOutbox"
proof -
  have "event \<noteq> Begun True \<and> ru_active ru' = ru_active ru \<and> ru_config ru' = ru_config ru \<and>
      ru_finalizing ru' = ru_finalizing ru \<and> quiet (op, event) \<and> (sender_over ru \<longrightarrow> sender_over ru') \<and>
      (event = OutboxClosed ok \<longrightarrow> ru_pc ru = FzCloseOutbox)"
  proof (cases "ru_pc ru")
    case (FzCloseClient failure)
    with assms show ?thesis
      by (cases "run_enter False (Some (fe_remaining e)) (ru_runner ru)")
        (auto simp: fin_step_def fin_close_client_def fin_goto_def fin_end_def quiet_def
          split: if_splits run_error.splits)
  next
    case (FzShutdown failure)
    with assms show ?thesis
      by (auto simp: fin_step_def fin_shutdown_def fin_goto_def quiet_def split: sum.splits prod.splits bool.splits)
  next
    case FzStop
    with assms show ?thesis by (auto simp: fin_step_def fin_goto_def quiet_def)
  next
    case FzCloseOutbox
    with assms show ?thesis
      by (auto simp: fin_step_def fin_close_outbox_def fin_goto_def quiet_def Let_def split: if_splits)
  next
    case (FzAwaitClient tok failure)
    with assms show ?thesis
      by (auto simp: fin_step_def fin_await_client_def fin_goto_def fin_end_def quiet_def Let_def
          split: option.splits bool.splits if_splits)
  qed (use assms in \<open>auto simp: fin_step_def fin_goto_def fin_end_def fin_wait_def fin_join_loop_def fin_mark_def quiet_def
        split: if_splits\<close>)
  then show "event \<noteq> Begun True" and "ru_active ru' = ru_active ru" and "ru_config ru' = ru_config ru"
    and "ru_finalizing ru' = ru_finalizing ru" and "quiet (op, event)"
    and "sender_over ru \<Longrightarrow> sender_over ru'"
    and "event = OutboxClosed ok \<Longrightarrow> ru_pc ru = FzCloseOutbox" by simp_all
qed

lemma runtime_step_config:
  assumes "runtime_step sha word decodes ts op ru = (event, ru')"
  shows "ru_config ru' = ru_config ru"
proof (cases op)
  case (FinalizeStep e)
  with assms show ?thesis using fin_step_event(3) by (simp add: runtime_step_def)
next
  case (SenderThread e)
  then have "sender_thread ts e ru = (event, ru')" using assms by (simp add: runtime_step_def)
  from sender_thread_frame [OF this] show ?thesis by auto
next
  case (TurnCall fs now event_id occurred_at t)
  then obtain result where "admit_turn sha word decodes fs now event_id occurred_at t ru = (result, ru')"
    using assms by (auto simp: runtime_step_def split: prod.splits)
  from admit_turn_frame [OF this] show ?thesis by auto
qed (use assms in \<open>auto simp: runtime_step_def begin_operation_def finish_operation_def fin_call_def
      split: if_splits sum.splits\<close>)

lemma runtime_step_active:
  assumes "runtime_step sha word decodes ts op ru = (event, ru')" and "runtime_allowed calm ru op"
  shows "ru_active ru' + (if op = FinishOperation then 1 else 0) =
    ru_active ru + (if event = Begun True then 1 else 0)"
proof (cases op)
  case (FinalizeStep e)
  with assms(1) have "fin_step e ru = (event, ru')" by (simp add: runtime_step_def)
  from fin_step_event(1,2) [OF this] FinalizeStep show ?thesis by simp
next
  case (SenderThread e)
  then have s: "sender_thread ts e ru = (event, ru')" using assms by (simp add: runtime_step_def)
  then have "event \<noteq> Begun True" by (auto simp: sender_thread_def split: option.splits prod.splits)
  with SenderThread sender_thread_frame [OF s] show ?thesis by auto
next
  case (TurnCall fs now event_id occurred_at t)
  then obtain result where "admit_turn sha word decodes fs now event_id occurred_at t ru = (result, ru')"
    "event = TurnResult result"
    using assms by (auto simp: runtime_step_def split: prod.splits)
  with admit_turn_frame [OF this(1)] TurnCall show ?thesis by auto
qed (use assms in \<open>auto simp: runtime_step_def begin_operation_def finish_operation_def fin_call_def
      runtime_allowed_def split: if_splits sum.splits\<close>)

lemma at_rest_step:
  assumes "at_rest ru" and "runtime_allowed calm ru op" and "runtime_step sha word decodes ts op ru = (event, ru')"
  shows "at_rest ru' \<and> quiet (op, event)"
proof (cases op)
  case (FinalizeStep e)
  with assms(3) have "fin_step e ru = (event, ru')" by (simp add: runtime_step_def)
  from fin_step_event [OF this] assms(1) show ?thesis by (auto simp: at_rest_def)
next
  case (SenderThread e)
  then have s: "sender_thread ts e ru = (event, ru')" using assms by (simp add: runtime_step_def)
  with assms(1) sender_thread_frame [OF s] show ?thesis by (auto simp: at_rest_def quiet_def)
next
  case (ForeignLocks os)
  with assms(1,3) show ?thesis
    by (auto simp: runtime_step_def at_rest_def quiet_def sender_over_def split: option.splits)
next
  case BeginOperation
  with assms show ?thesis
    by (auto simp: runtime_step_def begin_operation_def accepting_operations_def at_rest_def quiet_def)
next
  case (FinalizeCall in_loop)
  with assms show ?thesis
    by (auto simp: runtime_step_def fin_call_def at_rest_def quiet_def split: if_splits)
qed (use assms in \<open>auto simp: runtime_step_def runtime_allowed_def at_rest_def quiet_def split: sum.splits prod.splits\<close>)

lemma at_rest_run:
  assumes "at_rest ru" and "trace_allowed (runtime_allowed calm) (runtime_step sha word decodes ts) ops ru"
  shows "list_all quiet (fst (trace_run (runtime_step sha word decodes ts) ops ru))"
  using assms
proof (induction ops arbitrary: ru)
  case (Cons op ops)
  obtain event ru' where s: "runtime_step sha word decodes ts op ru = (event, ru')" by force
  with Cons.prems at_rest_step [of ru calm op sha word decodes ts event ru'] have "at_rest ru'" "quiet (op, event)"
    by auto
  with Cons s show ?case by (simp del: trace_run.simps(2))
qed simp

lemma at_rest_kept:
  assumes "at_rest ru" and "trace_allowed (runtime_allowed calm) (runtime_step sha word decodes ts) ops ru"
  shows "at_rest (snd (trace_run (runtime_step sha word decodes ts) ops ru))"
  using assms
proof (induction ops arbitrary: ru)
  case (Cons op ops)
  obtain event ru' where s: "runtime_step sha word decodes ts op ru = (event, ru')" by force
  with Cons.prems at_rest_step [of ru calm op sha word decodes ts event ru'] have "at_rest ru'" by auto
  with Cons s show ?case by (simp del: trace_run.simps(2))
qed simp

lemma runtime_ok_constructed:
  assumes "construct sender_enabled config c = Inr ru" and "pred_option (\<lambda>opened. \<not> ob_closed (fst opened)) (cs_outbox c)"
  shows "runtime_ok calm ru \<and> ru_active ru = 0 \<and> ru_config ru = config \<and> ru_pc ru = FzRest \<and> accepting_operations ru"
  using assms
  by (auto simp: construct_def bare_runtime_def attach_outbox_def new_runner_def runtime_ok_def runner_ok_def
      outbox_open_def accepting_operations_def Let_def split: if_splits option.splits)

lemma operations_counted:
  assumes "runtime_ok calm ru" and "ru_active ru = 0"
    and "trace_allowed (runtime_allowed calm) (runtime_step sha word decodes ts) ops ru"
    and "trace_run (runtime_step sha word decodes ts) ops ru = (trace, ru')"
  shows "ru_active ru' + finished_operations trace = begun_operations trace"
proof -
  have "ru_active (snd (trace_run (runtime_step sha word decodes ts) ops ru)) +
      finished_operations (fst (trace_run (runtime_step sha word decodes ts) ops ru)) =
      begun_operations (fst (trace_run (runtime_step sha word decodes ts) ops ru))"
  proof (rule lifetime.trace_invariant [OF _ _ assms(1,3)])
    fix evs st op r st'
    assume "ru_active st + finished_operations evs = begun_operations evs" "runtime_allowed calm st op"
      "runtime_step sha word decodes ts op st = (r, st')"
    with runtime_step_active [OF this(3,2)]
    show "ru_active st' + finished_operations (evs @ [(op, r)]) = begun_operations (evs @ [(op, r)])"
      by (auto simp: begun_operations_def finished_operations_def split: if_splits)
  qed (simp add: assms(2) begun_operations_def finished_operations_def)
  with assms(4) show ?thesis by simp
qed

text \<open>
  C2. However threads interleave, and whether or not its waits are interrupted, finalization closes
  the outbox only once every operation that was begun has finished, none is active, no operation is
  accepted any more, and the sender's thread, where the runtime has one, is at its end or has crashed;
  from then on the sender's thread stays there, no operation begins, no turn is admitted and nothing is
  sent.
\<close>

theorem outbox_closed_at_rest:
  assumes "construct sender_enabled config c = Inr ru" and "pred_option (\<lambda>opened. \<not> ob_closed (fst opened)) (cs_outbox c)"
    and "trace_allowed (runtime_allowed False) (runtime_step sha word decodes ts) (ops1 @ op # ops2) ru"
    and "runtime_run sha word decodes ts ops1 ru = (before, at_close)"
    and "runtime_step sha word decodes ts op at_close = (OutboxClosed ok, closed_ru)"
    and "runtime_run sha word decodes ts ops2 closed_ru = (later, ru')"
  shows "finished_operations before = begun_operations before \<and> ru_active at_close = 0 \<and>
    ru_finalizing at_close \<and>
    pred_option (\<lambda>wd. sn_pc (wd_sender wd) = Finished \<or> sn_pc (wd_sender wd) = Crashed) (ru_world at_close) \<and>
    pred_option (\<lambda>wd. sn_pc (wd_sender wd) = Finished \<or> sn_pc (wd_sender wd) = Crashed) (ru_world ru') \<and>
    ru_active ru' = 0 \<and> list_all quiet later"
proof -
  note runs = assms(4,6) [unfolded runtime_run_def]
  from assms(3) runs(1) assms(5) have allowed: "trace_allowed (runtime_allowed False) (runtime_step sha word decodes ts) ops1 ru"
    "runtime_allowed False at_close op" "trace_allowed (runtime_allowed False) (runtime_step sha word decodes ts) ops2 closed_ru"
    by (simp_all add: trace_allowed_append)
  note fresh = runtime_ok_constructed [OF assms(1,2)]
  have ok: "runtime_ok False at_close" using lifetime.run_good [OF _ allowed(1)] fresh runs(1) by simp
  obtain e where op: "op = FinalizeStep e" and "fin_step e at_close = (OutboxClosed ok, closed_ru)"
    using assms(5)
    by (cases op) (auto simp: runtime_step_def begin_operation_def fin_call_def sender_thread_def
        split: if_splits sum.splits prod.splits option.splits)
  with fin_step_event(7) have "ru_pc at_close = FzCloseOutbox" by blast
  with ok have rest: "at_rest at_close" by (simp add: runtime_ok_def at_rest_def)
  have counted: "finished_operations before = begun_operations before"
    using operations_counted [OF _ _ allowed(1) runs(1)] fresh rest by (simp add: at_rest_def)
  have closed: "at_rest closed_ru" using at_rest_step [OF rest allowed(2) assms(5)] by simp
  with at_rest_run [OF this allowed(3)] at_rest_kept [OF this allowed(3)] runs(2)
  have later: "list_all quiet later" "at_rest ru'" by simp_all
  with counted rest show ?thesis
    by (auto simp: at_rest_def sender_over_def ended_def pred_option_def split: option.splits)
qed

section \<open>An abandoned call holds the runner\<close>

lemma runner_unsettled_step:
  assumes "runtime_step sha word decodes ts op ru = (event, ru')" and "tok \<in> set (rn_unsettled (ru_runner ru))"
    and "\<And>returned. op \<noteq> CallDone tok returned"
  shows "tok \<in> set (rn_unsettled (ru_runner ru'))" and "event \<noteq> Entered (Inr n)"
proof -
  have nonempty: "rn_unsettled (ru_runner ru) \<noteq> []" using assms(2) by auto
  have enter: "run_enter b t (ru_runner ru) \<noteq> Inr entered" for b t entered
    using nonempty by (auto simp: run_enter_def)
  have keep: "tok \<in> set (rn_unsettled (publish_unsettled t (ru_runner ru)))" for t
    using assms(2) by (simp add: publish_unsettled_def)
  have "tok \<in> set (rn_unsettled (ru_runner ru')) \<and> event \<noteq> Entered (Inr n)"
  proof (cases op)
    case (CallDone other returned)
    with assms(1,2) assms(3) [of returned] show ?thesis
      by (auto simp: runtime_step_def call_done_def)
  next
    case (FinalizeStep e)
    with assms(1) have s: "fin_step e ru = (event, ru')" by (simp add: runtime_step_def)
    show ?thesis
    proof (cases "ru_pc ru")
      case (FzCloseClient failure)
      with s assms(2) enter show ?thesis
        by (cases "run_enter False (Some (fe_remaining e)) (ru_runner ru)")
          (auto simp: fin_step_def fin_close_client_def fin_goto_def fin_end_def split: if_splits run_error.splits)
    next
      case (FzAwaitClient t failure)
      with s assms(2) keep show ?thesis
        by (auto simp: fin_step_def fin_await_client_def fin_goto_def fin_end_def Let_def
            split: option.splits bool.splits if_splits)
    next
      case (FzShutdown failure)
      with s assms(2) nonempty show ?thesis
        by (auto simp: fin_step_def fin_shutdown_def begin_shutdown_def fin_goto_def split: if_splits)
    qed (use s assms(2) in \<open>auto simp: fin_step_def fin_defs Let_def split: if_splits\<close>)
  next
    case (SenderThread e)
    then have s: "sender_thread ts e ru = (event, ru')" using assms by (simp add: runtime_step_def)
    then have "event \<noteq> Entered (Inr n)" by (auto simp: sender_thread_def split: option.splits prod.splits)
    with sender_thread_frame [OF s] assms(2) show ?thesis by auto
  next
    case (TurnCall fs now event_id occurred_at t)
    then obtain result where "admit_turn sha word decodes fs now event_id occurred_at t ru = (result, ru')"
      "event = TurnResult result"
      using assms by (auto simp: runtime_step_def split: prod.splits)
    with admit_turn_frame [OF this(1)] assms(2) show ?thesis by auto
  qed (use assms(1,2) enter keep in \<open>auto simp: runtime_step_def begin_operation_def finish_operation_def fin_call_def
        loop_end_def split: if_splits sum.splits prod.splits\<close>)
  then show "tok \<in> set (rn_unsettled (ru_runner ru'))" and "event \<noteq> Entered (Inr n)" by auto
qed

definition refuses_calls :: "runtime_op \<times> runtime_event \<Rightarrow> bool" where
  "refuses_calls entry = (case snd entry of Entered (Inr _) \<Rightarrow> False | _ \<Rightarrow> True)"

text \<open>
  C20. A call that its caller gave up while it still ran (cancelled at the deadline, or the caller
  interrupted) holds the shared client: until that call completes, the runner starts no other call, of
  any thread, the finalizing one included.
\<close>

theorem abandoned_call_blocks:
  assumes "runtime_step sha word decodes ts (GiveUp tok) ru = (Abandoned True, ru1)"
    and "runtime_run sha word decodes ts ops ru1 = (trace, ru2)"
    and "CallDone tok True \<notin> set ops" and "CallDone tok False \<notin> set ops"
  shows "list_all refuses_calls trace \<and> \<not> runner_settled (ru_runner ru2)"
proof -
  have "tok \<in> set (rn_unsettled (ru_runner ru1))"
    using assms(1) by (auto simp: runtime_step_def publish_unsettled_def)
  with assms(2-4) show ?thesis
  proof (induction ops arbitrary: ru1 trace)
    case (Cons op ops)
    obtain event ru' where s: "runtime_step sha word decodes ts op ru1 = (event, ru')" by force
    obtain later where r: "runtime_run sha word decodes ts ops ru' = (later, ru2)" and trace: "trace = (op, event) # later"
      using Cons.prems(1) s by (auto simp: runtime_run_def split: prod.splits)
    have "op \<noteq> CallDone tok returned" for returned using Cons.prems(2,3) by (cases returned) auto
    note step = runner_unsettled_step [OF s Cons.prems(4) this]
    have "list_all refuses_calls later \<and> \<not> runner_settled (ru_runner ru2)"
      using Cons.IH [OF r _ _ step(1)] Cons.prems(2,3) by simp
    moreover have "refuses_calls (op, event)" using step(2) by (auto simp: refuses_calls_def split: runtime_event.splits sum.splits)
    ultimately show ?case by (simp add: trace)
  qed (auto simp: runtime_run_def runner_settled_def)
qed

section \<open>One live runtime\<close>

text \<open>Closed for good: its sender and its loop have ended, its outbox is closed, nothing runs on it.\<close>

definition runtime_over :: "runtime \<Rightarrow> bool" where
  "runtime_over ru \<longleftrightarrow>
     ru_closed ru \<and> ru_finalizing ru \<and> ru_active ru = 0 \<and>
     pred_option (\<lambda>wd. (sn_pc (wd_sender wd) = Finished \<or> sn_pc (wd_sender wd) = Crashed) \<and> ob_closed (wd_outbox wd))
       (ru_world ru) \<and>
     rn_ended (ru_runner ru) \<and> rn_running (ru_runner ru) = []"

lemma runtime_over_closed: "runtime_ok True ru \<Longrightarrow> ru_closed ru \<Longrightarrow> runtime_over ru"
  by (auto simp: runtime_ok_def runtime_over_def runner_ok_def at_rest_def sender_over_def ended_def outbox_open_def
      pred_option_def split: option.splits)

lemma closed_step:
  assumes "runtime_step sha word decodes ts op ru = (event, ru')" and "ru_closed ru"
  shows "ru_closed ru'"
proof (cases op)
  case (FinalizeStep e)
  with assms(1) have s: "fin_step e ru = (event, ru')" by (simp add: runtime_step_def)
  show ?thesis
  proof (cases "ru_pc ru")
    case (FzCloseClient failure)
    with s assms(2) show ?thesis
      by (cases "run_enter False (Some (fe_remaining e)) (ru_runner ru)")
        (auto simp: fin_step_def fin_close_client_def fin_goto_def fin_end_def split: if_splits run_error.splits)
  next
    case (FzShutdown failure)
    with s assms(2) show ?thesis
      by (auto simp: fin_step_def fin_shutdown_def fin_goto_def split: sum.splits prod.splits bool.splits)
  next
    case (FzAwaitClient tok failure)
    with s assms(2) show ?thesis
      by (auto simp: fin_step_def fin_await_client_def fin_goto_def fin_end_def Let_def
          split: option.splits bool.splits if_splits)
  qed (use s assms(2) in \<open>auto simp: fin_step_def fin_defs Let_def split: if_splits\<close>)
next
  case (SenderThread e)
  then have "sender_thread ts e ru = (event, ru')" using assms by (simp add: runtime_step_def)
  from sender_thread_frame [OF this] assms(2) show ?thesis by auto
next
  case (TurnCall fs now event_id occurred_at t)
  then obtain result where "admit_turn sha word decodes fs now event_id occurred_at t ru = (result, ru')"
    using assms by (auto simp: runtime_step_def split: prod.splits)
  from admit_turn_frame [OF this] assms(2) show ?thesis by auto
qed (use assms in \<open>auto simp: runtime_step_def begin_operation_def finish_operation_def fin_call_def
      split: if_splits sum.splits\<close>)

lemma finalized_closed:
  assumes "fin_step e ru = (Finalized result, ru')" and "\<not> fe_interrupt e" and "result \<noteq> SenderStop"
  shows "ru_closed ru'"
proof (cases "ru_pc ru")
  case (FzCloseClient failure)
  with assms show ?thesis
    by (cases "run_enter False (Some (fe_remaining e)) (ru_runner ru)")
      (auto simp: fin_step_def fin_close_client_def fin_goto_def fin_end_def split: if_splits run_error.splits)
next
  case (FzShutdown failure)
  with assms show ?thesis
    by (auto simp: fin_step_def fin_shutdown_def fin_goto_def split: sum.splits prod.splits bool.splits)
next
  case (FzAwaitClient tok failure)
  with assms show ?thesis
    by (auto simp: fin_step_def fin_await_client_def fin_goto_def fin_end_def Let_def
        split: option.splits bool.splits if_splits)
qed (use assms in \<open>auto simp: fin_step_def fin_defs Let_def split: if_splits\<close>)

definition process_ok :: "process \<Rightarrow> bool" where
  "process_ok ps \<longleftrightarrow>
     list_all (runtime_ok True) (ps_heap ps) \<and>
     (case ps_active ps of
        None \<Rightarrow> \<not> ps_finalizing ps
      | Some i \<Rightarrow> i < length (ps_heap ps) \<and> ps_config ps = Some (ru_config (ps_heap ps ! i))) \<and>
     (\<forall>i < length (ps_heap ps). ps_active ps = Some i \<or> ru_closed (ps_heap ps ! i))"

definition process_allowed :: "process \<Rightarrow> process_op \<Rightarrow> bool" where
  "process_allowed ps op =
     (case op of
        Acquire config c \<Rightarrow> pred_option (\<lambda>opened. \<not> ob_closed (fst opened)) (cs_outbox c)
      | FinalizeProcess in_loop \<Rightarrow> True
      | FinalizeGoesOn e \<Rightarrow> \<not> fe_interrupt e
      | OnRuntime i rop \<Rightarrow>
          i < length (ps_heap ps) \<and> runtime_allowed True (ps_heap ps ! i) rop \<and>
          (case rop of FinalizeCall _ \<Rightarrow> False | FinalizeStep _ \<Rightarrow> False | _ \<Rightarrow> True))"

lemma process_ok_update:
  assumes "process_ok ps" and "i < length (ps_heap ps)" and "runtime_ok True ru"
    and "ru_config ru = ru_config (ps_heap ps ! i)" and "ru_closed (ps_heap ps ! i) \<longrightarrow> ru_closed ru"
  shows "process_ok (ps\<lparr>ps_heap := (ps_heap ps)[i := ru]\<rparr>)"
  using assms by (auto simp: process_ok_def list_all_length nth_list_update split: option.splits)

lemma process_ok_finalizing: "process_ok ps \<Longrightarrow> ps_active ps \<noteq> None \<Longrightarrow> process_ok (ps\<lparr>ps_finalizing := b\<rparr>)"
  by (auto simp: process_ok_def split: option.splits)

lemma process_ok_settle:
  assumes "process_ok ps" and "ps_active ps = Some i"
    and "\<And>result. event = Finalized result \<Longrightarrow> result \<noteq> SenderStop \<Longrightarrow> result \<noteq> FinReentrant \<Longrightarrow> ru_closed (ps_heap ps ! i)"
  shows "process_ok (settle_globals event ps)"
proof (cases event)
  case (Finalized result)
  show ?thesis
  proof (cases "result = SenderStop \<or> result = FinReentrant")
    case True
    with Finalized assms(1,2) process_ok_finalizing [of ps False] show ?thesis by (auto simp: settle_globals_def)
  next
    case False
    with Finalized assms(3) have "ru_closed (ps_heap ps ! i)" by simp
    with False Finalized assms(1,2) show ?thesis
      by (cases result) (auto simp: settle_globals_def process_ok_def)
  qed
qed (use assms(1) in \<open>simp_all add: settle_globals_def\<close>)

lemma process_ok_step:
  assumes "process_ok ps" and "process_allowed ps op" and "process_step sha word decodes ts op ps = (event, ps')"
  shows "process_ok ps'"
proof (cases op)
  case (Acquire config c)
  show ?thesis
  proof (cases "ps' = ps")
    case False
    then obtain ru where none: "ps_active ps = None" and built: "construct True config c = Inr ru"
      and ps': "ps' = ps\<lparr>ps_heap := ps_heap ps @ [ru], ps_config := Some config, ps_active := Some (length (ps_heap ps))\<rparr>"
      using assms(3) Acquire
      by (auto simp: process_step_def acquire_process_runtime_def split: if_splits option.splits sum.splits)
    from assms(2) Acquire have "pred_option (\<lambda>opened. \<not> ob_closed (fst opened)) (cs_outbox c)"
      by (simp add: process_allowed_def)
    with built have "runtime_ok True ru" "ru_config ru = config" by (simp_all add: runtime_ok_constructed)
    with assms(1) none show ?thesis unfolding ps'
      by (auto simp: process_ok_def nth_append list_all_length less_Suc_eq)
  qed (use assms(1) in simp)
next
  case (FinalizeProcess in_loop)
  show ?thesis
  proof (cases "ps_active ps")
    case (Some i)
    show ?thesis
    proof (cases "ps_finalizing ps")
      case False
      obtain e ru where call: "fin_call in_loop (ps_heap ps ! i) = (e, ru)" by force
      let ?ps = "(ps\<lparr>ps_heap := (ps_heap ps)[i := ru]\<rparr>)\<lparr>ps_finalizing := True\<rparr>"
      from assms(1) Some have i: "i < length (ps_heap ps)" and ok: "runtime_ok True (ps_heap ps ! i)"
        by (auto simp: process_ok_def list_all_length)
      from call have step: "runtime_step sha word decodes ts (FinalizeCall in_loop) (ps_heap ps ! i) = (e, ru)"
        by (simp add: runtime_step_def)
      have "runtime_ok True ru" using runtime_ok_step [OF ok _ step] by (simp add: runtime_allowed_def)
      with assms(1) i have "process_ok (ps\<lparr>ps_heap := (ps_heap ps)[i := ru]\<rparr>)"
        by (rule process_ok_update) (use runtime_step_config [OF step] closed_step [OF step] in simp_all)
      then have "process_ok ?ps" by (rule process_ok_finalizing) (simp add: Some)
      then have "process_ok (settle_globals e ?ps)"
        by (rule process_ok_settle [where i = i]) (use Some i call in \<open>auto simp: fin_call_def split: if_splits\<close>)
      moreover have "ps' = settle_globals e ?ps"
        using assms(3) FinalizeProcess Some False call
        by (simp add: process_step_def finalize_process_runtime_def)
      ultimately show ?thesis by simp
    qed (use FinalizeProcess Some assms in \<open>simp add: process_step_def finalize_process_runtime_def\<close>)
  qed (use FinalizeProcess assms in \<open>simp add: process_step_def finalize_process_runtime_def\<close>)
next
  case (FinalizeGoesOn e)
  show ?thesis
  proof (cases "ps_active ps")
    case (Some i)
    show ?thesis
    proof (cases "ps_finalizing ps")
      case True
      obtain ev ru where fin: "fin_step e (ps_heap ps ! i) = (ev, ru)" by force
      let ?ps = "ps\<lparr>ps_heap := (ps_heap ps)[i := ru]\<rparr>"
      from assms(1) Some have i: "i < length (ps_heap ps)" and ok: "runtime_ok True (ps_heap ps ! i)"
        by (auto simp: process_ok_def list_all_length)
      from fin have step: "runtime_step sha word decodes ts (FinalizeStep e) (ps_heap ps ! i) = (ev, ru)"
        by (simp add: runtime_step_def)
      have calm: "\<not> fe_interrupt e" using assms(2) FinalizeGoesOn by (simp add: process_allowed_def)
      with fin ok have "runtime_ok True ru" by (auto intro: runtime_ok_fin_step)
      with assms(1) i have "process_ok ?ps"
        by (rule process_ok_update) (use runtime_step_config [OF step] closed_step [OF step] in simp_all)
      then have "process_ok (settle_globals ev ?ps)"
        by (rule process_ok_settle [where i = i]) (use Some i fin calm finalized_closed in auto)
      moreover have "ps' = settle_globals ev ?ps"
        using assms(3) FinalizeGoesOn Some True fin by (simp add: process_step_def)
      ultimately show ?thesis by simp
    qed (use FinalizeGoesOn Some assms in \<open>simp add: process_step_def\<close>)
  qed (use FinalizeGoesOn assms in \<open>simp add: process_step_def\<close>)
next
  case (OnRuntime i rop)
  obtain ev ru where step: "runtime_step sha word decodes ts rop (ps_heap ps ! i) = (ev, ru)" by force
  from assms(2) OnRuntime have i: "i < length (ps_heap ps)" and allowed: "runtime_allowed True (ps_heap ps ! i) rop"
    by (simp_all add: process_allowed_def)
  with assms(1) have "runtime_ok True (ps_heap ps ! i)" by (simp add: process_ok_def list_all_length)
  from runtime_ok_step [OF this allowed step] have "runtime_ok True ru" .
  with assms(1) i have "process_ok (ps\<lparr>ps_heap := (ps_heap ps)[i := ru]\<rparr>)"
    by (rule process_ok_update) (use runtime_step_config [OF step] closed_step [OF step] in simp_all)
  with assms(3) OnRuntime step show ?thesis by (simp add: process_step_def)
qed

interpretation singleton: guarded "process_step sha word decodes ts" process_ok process_allowed
  for sha word decodes ts
  by unfold_locales (rule process_ok_step)

lemma process_ok_new: "process_ok new_process"
  by (simp add: process_ok_def new_process_def)

text \<open>
  C18. As long as no wait of a finalizing thread is interrupted, across any interleaving of acquisitions,
  finalizations and the threads of every runtime built so far, a runtime of the process is the active
  one, and then it has the configuration recorded for it, or it is over: no operation and no call runs on
  it, its sender and its loop have ended and its outbox is closed. So two runtimes do not work side by
  side. An interrupted wait is excluded by \<open>process_allowed\<close>; the lemma
  \<open>interrupted_finalization_forgets_runtime\<close> below shows that the claim fails without that.
\<close>

theorem one_live_runtime:
  assumes "trace_allowed process_allowed (process_step sha word decodes ts) ops new_process"
    and "process_run sha word decodes ts ops new_process = (trace, ps)" and "i < length (ps_heap ps)"
  shows "ps_active ps = Some i \<and> ps_config ps = Some (ru_config (ps_heap ps ! i)) \<or> runtime_over (ps_heap ps ! i)"
proof -
  have ok: "process_ok ps"
    using singleton.run_good [OF process_ok_new assms(1)] assms(2) by (simp add: process_run_def)
  then have "runtime_ok True (ps_heap ps ! i)" using assms(3) by (simp add: process_ok_def list_all_length)
  with ok assms(3) runtime_over_closed show ?thesis by (auto simp: process_ok_def)
qed

section \<open>Sample runs\<close>

definition sample_construction :: construction where
  "sample_construction =
     \<lparr>cs_runner = True, cs_client = True, cs_outbox = Some (sample_outbox [], booted), cs_sender = True\<rparr>"

definition sample_runtime :: runtime where
  "sample_runtime = attach_outbox (sample_outbox [], booted) (bare_runtime sample_config)"

definition sample_fin :: fin_env where
  "sample_fin = \<lparr>fe_remaining = 1, fe_interrupt = False, fe_close_fault = False\<rparr>"

definition sample_sender_env :: sender_env where
  "sample_sender_env =
     \<lparr>se_fs_open = sample_fs, se_fs_check = sample_fs, se_fs_recheck = sample_fs, se_flock_broken = False,
      se_settled = True, se_view = sample_view, se_faults = [], se_now = PInt 6, se_outcome = Confirmed\<rparr>"

lemma sample_constructed:
  "construct True sample_config sample_construction = Inr sample_runtime"
  "pred_option (\<lambda>opened. \<not> ob_closed (fst opened)) (cs_outbox sample_construction)"
  by (simp_all add: construct_def sample_construction_def sample_runtime_def sample_config_def Let_def)

lemmas runtime_defs = runtime_step_def begin_operation_def finish_operation_def accepting_operations_def
  sender_thread_def fin_call_def fin_step_def fin_defs runner_settled_def run_enter_def call_done_def
  begin_shutdown_def loop_end_def first_failure_def outbox_open_def sender_over_def ended_def

text \<open>An operation is begun, a call abandoned at its deadline; then the runtime is finalized.\<close>

definition sample_close :: "runtime_op list" where
  "sample_close =
     [BeginOperation, FinalizeCall False, FinalizeStep sample_fin, FinalizeStep sample_fin, FinishOperation,
      SenderThread sample_sender_env, FinalizeStep sample_fin, FinalizeStep sample_fin, FinalizeStep sample_fin]"

definition sample_closed_events :: "(runtime_op \<times> runtime_event) list" where
  "sample_closed_events = zip sample_close [Begun True, Progress, Progress, Progress, Progress, Sent [], Progress, Progress, Progress]"

lemma sample_close_run:
  "\<exists>at_close closed_ru later_ru.
     runtime_run sha word decodes ts sample_close sample_runtime = (sample_closed_events, at_close) \<and>
     runtime_step sha word decodes ts (FinalizeStep sample_fin) at_close = (OutboxClosed True, closed_ru) \<and>
     runtime_run sha word decodes ts [BeginOperation] closed_ru = ([(BeginOperation, Begun False)], later_ru)"
  "trace_allowed (runtime_allowed False) (runtime_step sha word decodes ts)
     (sample_close @ FinalizeStep sample_fin # [BeginOperation]) sample_runtime"
  by (simp_all add: runtime_run_def sample_close_def sample_closed_events_def sample_runtime_def attach_outbox_def
      bare_runtime_def new_runner_def new_sender_def runtime_defs sample_fin_def runtime_allowed_def wake_def
      request_stop_def Let_def)

theorem outbox_closed_at_rest_witness:
  "\<exists>at_close closed_ru later_ru.
     runtime_step sample_digest (\<lambda>_. False) no_decoder (\<lambda>_. None) (FinalizeStep sample_fin) at_close =
       (OutboxClosed True, closed_ru) \<and>
     runtime_run sample_digest (\<lambda>_. False) no_decoder (\<lambda>_. None) [BeginOperation] closed_ru =
       ([(BeginOperation, Begun False)], later_ru) \<and>
     finished_operations sample_closed_events = begun_operations sample_closed_events \<and> ru_active later_ru = 0"
proof -
  obtain at_close closed_ru later_ru where
    r: "runtime_run sample_digest (\<lambda>_. False) no_decoder (\<lambda>_. None) sample_close sample_runtime = (sample_closed_events, at_close)"
    and s: "runtime_step sample_digest (\<lambda>_. False) no_decoder (\<lambda>_. None) (FinalizeStep sample_fin) at_close = (OutboxClosed True, closed_ru)"
    and l: "runtime_run sample_digest (\<lambda>_. False) no_decoder (\<lambda>_. None) [BeginOperation] closed_ru = ([(BeginOperation, Begun False)], later_ru)"
    using sample_close_run(1) by blast
  from outbox_closed_at_rest [OF sample_constructed sample_close_run(2) r s l] s l show ?thesis by blast
qed

theorem abandoned_call_blocks_witness:
  "list_all refuses_calls [(RunCall False (Some 5), Entered (Inl RunnerIsUnsettled)), (BeginOperation, Begun True)]"
proof -
  let ?rn = "new_runner\<lparr>rn_running := [0], rn_next := 1\<rparr>"
  let ?ru = "sample_runtime\<lparr>ru_runner := ?rn\<rparr>"
  let ?ru1 = "sample_runtime\<lparr>ru_runner := ?rn\<lparr>rn_unsettled := [0]\<rparr>\<rparr>"
  have "runtime_step sample_digest (\<lambda>_. False) no_decoder (\<lambda>_. None) (GiveUp 0) ?ru = (Abandoned True, ?ru1)"
    by (simp add: runtime_step_def publish_unsettled_def new_runner_def)
  moreover have "runtime_run sample_digest (\<lambda>_. False) no_decoder (\<lambda>_. None) [RunCall False (Some 5), BeginOperation] ?ru1 =
      ([(RunCall False (Some 5), Entered (Inl RunnerIsUnsettled)), (BeginOperation, Begun True)],
       ?ru1\<lparr>ru_active := 1\<rparr>)"
    by (simp add: runtime_run_def runtime_defs sample_runtime_def attach_outbox_def bare_runtime_def new_runner_def)
  ultimately have "list_all refuses_calls
      [(RunCall False (Some 5), Entered (Inl RunnerIsUnsettled)), (BeginOperation, Begun True)] \<and>
      \<not> runner_settled (ru_runner (?ru1\<lparr>ru_active := 1\<rparr>))"
    by (rule abandoned_call_blocks) simp_all
  then show ?thesis ..
qed

text \<open>One full finalization, then a second acquisition.\<close>

definition sample_lifetime :: "process_op list" where
  "sample_lifetime =
     [Acquire sample_config sample_construction, FinalizeProcess False, FinalizeGoesOn sample_fin,
      FinalizeGoesOn sample_fin, OnRuntime 0 (SenderThread sample_sender_env), FinalizeGoesOn sample_fin,
      FinalizeGoesOn sample_fin, FinalizeGoesOn sample_fin, FinalizeGoesOn sample_fin, OnRuntime 0 (CallDone 0 True),
      FinalizeGoesOn sample_fin, FinalizeGoesOn sample_fin, OnRuntime 0 LoopEnd, FinalizeGoesOn sample_fin,
      FinalizeGoesOn sample_fin, Acquire sample_config sample_construction]"

lemmas process_defs = process_run_def process_step_def acquire_process_runtime_def finalize_process_runtime_def
  settle_globals_def new_process_def sample_constructed(1)

lemmas sample_runtime_defs = sample_runtime_def attach_outbox_def bare_runtime_def new_runner_def new_sender_def
  sample_fin_def wake_def request_stop_def Let_def

lemma sample_lifetime_run:
  "trace_allowed process_allowed (process_step sha word decodes ts) sample_lifetime new_process"
  "ps_active (snd (process_run sha word decodes ts sample_lifetime new_process)) = Some 1"
  "length (ps_heap (snd (process_run sha word decodes ts sample_lifetime new_process))) = 2"
  using sample_constructed(2)
  by (simp_all add: sample_lifetime_def process_defs runtime_defs sample_runtime_defs process_allowed_def runtime_allowed_def)

theorem one_live_runtime_witness:
  "runtime_over (ps_heap (snd (process_run sample_digest (\<lambda>_. False) no_decoder (\<lambda>_. None) sample_lifetime new_process)) ! 0)"
proof -
  let ?run = "process_run sample_digest (\<lambda>_. False) no_decoder (\<lambda>_. None) sample_lifetime new_process"
  obtain trace ps where run: "?run = (trace, ps)" by force
  then have "ps_active ps = Some 1" "length (ps_heap ps) = 2"
    using sample_lifetime_run(2,3) [of sample_digest "\<lambda>_. False" no_decoder "\<lambda>_. None"] by simp_all
  moreover from calculation have "0 < length (ps_heap ps)" by linarith
  from one_live_runtime [OF sample_lifetime_run(1) run this] have "runtime_over (ps_heap ps ! 0)"
    using calculation by simp
  with run show ?thesis by simp
qed

text \<open>
  Without that hypothesis the claim fails. \<open>finalize_process_runtime\<close> clears the globals on every
  exception but a sender that did not stop, also when a \<open>KeyboardInterrupt\<close> ends the wait for the begun
  operations: the next acquisition builds a second runtime while the first still has an operation, a
  sender thread and an open outbox.
\<close>

lemma interrupted_finalization_forgets_runtime:
  "\<exists>ps. snd (process_run sha word decodes ts
      [Acquire sample_config sample_construction, OnRuntime 0 BeginOperation, FinalizeProcess False,
       FinalizeGoesOn sample_fin, FinalizeGoesOn (sample_fin\<lparr>fe_interrupt := True\<rparr>),
       Acquire sample_config sample_construction] new_process) = ps \<and>
     ps_active ps = Some 1 \<and> ru_active (ps_heap ps ! 0) = 1 \<and> outbox_open (ps_heap ps ! 0) \<and>
     \<not> sender_over (ps_heap ps ! 0) \<and> \<not> sender_over (ps_heap ps ! 1)"
  unfolding sample_fin_def by (simp add: process_defs runtime_defs sample_runtime_defs)

end
