(* ===== verification/Sessions.thy ===== *)
theory Sessions
  imports MailboxRuns Runtime
begin

text \<open>
  The provider's identity and session, \<open>provider.py\<close>: initialization against the authorization of the
  configuration, deactivation, and the callbacks with which the host rotates the live session. The
  callbacks may arrive in any order; one whose parent has not been seen waits in \<open>pv_pending\<close>.

  Every callback holds the session lock, so it is one step. A value of a callback that is not a string
  is treated like the empty string, as the code's tests do. The process runtime and the mailbox are
  those of \<open>Runtime\<close> and \<open>Mailbox\<close>.
\<close>

section \<open>State\<close>

record provider =
  pv_config :: "better_config option"
  pv_recall :: bool
  pv_reflect :: bool
  pv_mental_models :: bool
  pv_retain :: bool
  pv_runtime :: "runtime_handle option"
  pv_session :: string
  pv_seen :: "(string, unit) dict"
  pv_pending :: "(string, string \<times> bool \<times> bool) dict"
  pv_mailbox :: "string option"
  pv_activation :: "string option"
  pv_last_count :: nat
  pv_registrar :: bool
  pv_legacy_block :: bool

definition new_provider :: "bool \<Rightarrow> provider" where
  "new_provider registrar =
     \<lparr>pv_config = None, pv_recall = False, pv_reflect = False, pv_mental_models = False, pv_retain = False,
      pv_runtime = None, pv_session = [], pv_seen = [], pv_pending = [], pv_mailbox = None,
      pv_activation = None, pv_last_count = 0, pv_registrar = registrar, pv_legacy_block = True\<rparr>"

definition MAX_PENDING_SESSION_SWITCHES :: nat where
  "MAX_PENDING_SESSION_SWITCHES = 32"

definition MAX_SEEN_SESSION_IDS :: nat where
  "MAX_SEEN_SESSION_IDS = 128"

text \<open>\<open>while len(d) > n: del d[next(iter(d))]\<close>.\<close>

definition keep_newest :: "nat \<Rightarrow> ('k, 'v) dict \<Rightarrow> ('k, 'v) dict" where
  "keep_newest n d = drop (length d - n) d"

section \<open>Deactivation and initialization\<close>

definition deactivate_provider :: "real \<Rightarrow> provider \<Rightarrow> registry \<Rightarrow> provider \<times> registry" where
  "deactivate_provider now pv reg =
     (pv\<lparr>pv_config := None, pv_last_count := 0, pv_mailbox := None, pv_activation := None, pv_recall := False,
         pv_reflect := False, pv_mental_models := False, pv_retain := False, pv_runtime := None,
         pv_session := [], pv_pending := [], pv_seen := []\<rparr>,
      (case (pv_mailbox pv, pv_activation pv) of
         (Some home, Some token) \<Rightarrow>
           (case deactivate home token now reg of Inl _ \<Rightarrow> reg | Inr reg' \<Rightarrow> reg')
       | _ \<Rightarrow> reg))"

text \<open>
  The host's arguments. \<open>ic_loaded\<close> is the result of \<open>load_config\<close>; \<open>ic_prompt_section\<close> is whether
  the registration of the prompt section succeeds.
\<close>

record init_call =
  ic_session :: string
  ic_home :: string
  ic_loaded :: "better_config option"
  ic_platform :: "ustr option"
  ic_user_id :: "ustr option"
  ic_user_id_alt :: "ustr option"
  ic_agent_context :: "ustr option"
  ic_construction :: construction
  ic_token :: string
  ic_prompt_section :: bool
  ic_now :: real

definition authorize_call :: "better_config \<Rightarrow> init_call \<Rightarrow> memory_authorization" where
  "authorize_call config call =
     (if truthy (ic_platform call) = Some (lit ''cli'') then authorize_cli config (truthy (ic_agent_context call))
      else authorize_gateway config (truthy (ic_platform call)) (truthy (ic_user_id call))
             (truthy (ic_user_id_alt call)) (truthy (ic_agent_context call)))"

definition initialize ::
    "init_call \<Rightarrow> provider \<Rightarrow> process \<times> registry \<Rightarrow> provider \<times> process \<times> registry" where
  "initialize call pv0 w =
     (case deactivate_provider (ic_now call) pv0 (snd w) of
        (cleared, reg) \<Rightarrow>
          (let pv = cleared\<lparr>pv_session := ic_session call,
                            pv_seen := (if ic_session call = [] then [] else [(ic_session call, ())])\<rparr>;
               inactive = (pv, fst w, reg)
           in
             if ic_home call = [] then inactive
             else
               (case ic_loaded call of
                  None \<Rightarrow> inactive
                | Some config \<Rightarrow>
                    (let auth = authorize_call config call;
                         planner = ic_session call \<noteq> [] \<and> recall_enabled auth \<and> pl_mode (planner_cfg config) \<noteq> Off
                     in
                       if \<not> memory_enabled auth then inactive
                       else
                         (case acquire_process_runtime config (ic_construction call) (fst w) of
                            (Inl _, ps) \<Rightarrow> (pv, ps, reg)
                          | (Inr i, ps) \<Rightarrow>
                              (let bound = (if planner then activate (ic_home call) (ic_session call) (ic_token call)
                                                              (ic_now call) reg
                                            else Inl mail_error.Unavailable);
                                   prompt = ((recall_enabled auth \<or> reflect_enabled auth \<or> mental_models_enabled auth) \<and>
                                             pv_registrar pv)
                               in
                                 (pv\<lparr>pv_config := Some config, pv_recall := recall_enabled auth,
                                     pv_reflect := reflect_enabled auth,
                                     pv_mental_models := mental_models_enabled auth,
                                     pv_retain := retain_enabled auth,
                                     pv_runtime := Some \<lparr>hd_runtime = i, hd_closed = False\<rparr>,
                                     pv_mailbox := (case bound of Inl _ \<Rightarrow> None | Inr _ \<Rightarrow> Some (ic_home call)),
                                     pv_activation := (case bound of Inl _ \<Rightarrow> None | Inr (token, _) \<Rightarrow> Some token),
                                     pv_registrar := pv_registrar pv \<and> \<not> prompt,
                                     pv_legacy_block := pv_legacy_block pv \<and> \<not> (prompt \<and> ic_prompt_section call)\<rparr>,
                                  ps, (case bound of Inl _ \<Rightarrow> reg | Inr (_, reg') \<Rightarrow> reg'))))))))"

section \<open>Session switches\<close>

definition remember_session :: "string \<Rightarrow> provider \<Rightarrow> provider" where
  "remember_session s pv =
     pv\<lparr>pv_seen := keep_newest MAX_SEEN_SESSION_IDS (dict_set (dict_pop (pv_seen pv) s) s ())\<rparr>"

text \<open>\<open>clock\<close> gives the reading of the mailbox's clock at the rebinding to a session.\<close>

definition switch_session ::
    "(string \<Rightarrow> real) \<Rightarrow> string \<Rightarrow> string \<Rightarrow> bool \<Rightarrow> bool \<Rightarrow> provider \<times> registry \<Rightarrow> bool \<times> provider \<times> registry" where
  "switch_session clock new parent reset rewound pr =
     (case pr of
        (pv, reg) \<Rightarrow>
          (if new = [] then (False, pv, reg)
           else if new = pv_session pv then
             (True, pv,
              (case pv_mailbox pv of
                 Some home \<Rightarrow>
                   (if reset \<or> rewound then
                      (case clear_session_plans home new reg of Inl _ \<Rightarrow> reg | Inr reg' \<Rightarrow> reg')
                    else reg)
               | None \<Rightarrow> reg))
           else
             (let by_parent = (parent = [] \<or> pv_session pv = parent) in
              case (pv_mailbox pv, pv_activation pv) of
                (Some home, Some token) \<Rightarrow>
                  (case rebind home token new parent (clock new) reg of
                     Inl _ \<Rightarrow>
                       (by_parent,
                        pv\<lparr>pv_mailbox := None, pv_activation := None,
                           pv_session := (if by_parent then new else pv_session pv)\<rparr>, reg)
                   | Inr (bound, reg') \<Rightarrow>
                       (bound, pv\<lparr>pv_session := (if bound then new else pv_session pv)\<rparr>, reg'))
              | _ \<Rightarrow> (by_parent, pv\<lparr>pv_session := (if by_parent then new else pv_session pv)\<rparr>, reg))))"

lemma switch_session_pending:
  "pv_pending (fst (snd (switch_session clock new parent reset rewound pr))) = pv_pending (fst pr)"
  by (auto simp: switch_session_def Let_def split: if_splits option.splits sum.splits prod.splits)

lemma remember_session_pending [simp]: "pv_pending (remember_session s pv) = pv_pending pv"
  by (simp add: remember_session_def)

lemma length_dict_pop: "dict_get d k = Some v \<Longrightarrow> length (dict_pop d k) < length d"
  unfolding dict_pop_def using dict_get_in_set [of d k v] by (auto intro!: length_filter_less)

text \<open>The queued descendants of the session, one after the other.\<close>

function drain_switches :: "(string \<Rightarrow> real) \<Rightarrow> provider \<times> registry \<Rightarrow> provider \<times> registry" where
  "drain_switches clock (pv, reg) =
     (case dict_get (pv_pending pv) (pv_session pv) of
        None \<Rightarrow> (pv, reg)
      | Some (new, reset, rewound) \<Rightarrow>
          (case switch_session clock new (pv_session pv) reset rewound
                  (pv\<lparr>pv_pending := dict_pop (pv_pending pv) (pv_session pv)\<rparr>, reg) of
             (ok, pv', reg') \<Rightarrow> if ok then drain_switches clock (remember_session new pv', reg') else (pv', reg')))"
  by pat_completeness auto

termination
proof (relation "measure (\<lambda>(clock, pv, reg). length (pv_pending pv))", simp, clarsimp)
  fix clock pv reg new reset rewound pv' reg'
  assume "dict_get (pv_pending pv) (pv_session pv) = Some (new, reset, rewound)"
    and "(True, pv', reg') = switch_session clock new (pv_session pv) reset rewound
      (pv\<lparr>pv_pending := dict_pop (pv_pending pv) (pv_session pv)\<rparr>, reg)"
  then show "length (pv_pending pv') < length (pv_pending pv)"
    using switch_session_pending [of clock new "pv_session pv" reset rewound
      "(pv\<lparr>pv_pending := dict_pop (pv_pending pv) (pv_session pv)\<rparr>, reg)"]
    by (metis fst_conv snd_conv length_dict_pop provider.select_convs(9) provider.surjective provider.update_convs(9))
qed

declare drain_switches.simps [simp del]

definition drop_stale_switches :: "provider \<Rightarrow> provider" where
  "drop_stale_switches pv =
     pv\<lparr>pv_pending := filter (\<lambda>(parent, _). dict_get (pv_seen pv) parent = None \<or> parent = pv_session pv)
          (pv_pending pv)\<rparr>"

definition on_session_switch ::
    "(string \<Rightarrow> real) \<Rightarrow> string \<Rightarrow> string \<Rightarrow> bool \<Rightarrow> bool \<Rightarrow> provider \<times> registry \<Rightarrow> provider \<times> registry" where
  "on_session_switch clock new parent reset rewound pr =
     (if pv_config (fst pr) = None \<and> pv_runtime (fst pr) = None then pr
      else
        (case switch_session clock new parent reset rewound pr of
           (applied, pv, reg) \<Rightarrow>
             (if applied then
                (case drain_switches clock (remember_session new pv, reg) of
                   (pv', reg') \<Rightarrow> (drop_stale_switches pv', reg'))
              else if parent \<noteq> [] \<and> dict_get (pv_seen pv) parent = None then
                (pv\<lparr>pv_pending :=
                      keep_newest MAX_PENDING_SESSION_SWITCHES
                        (dict_set (pv_pending pv) parent (new, reset, rewound))\<rparr>, reg)
              else (pv, reg))))"

end
