(* ===== verification/Recall.thy ===== *)
theory Recall
  imports Sessions Evidence
begin

text \<open>
  What the provider does with its session and its runtime, \<open>provider.py\<close>: the automatic recall before
  each model call, the local admission after each turn, and the model's tools.

  The clock enters as the readings the code takes (\<open>re_before\<close>, \<open>re_after\<close> and so on), the remote
  service as the outcome of the call. What is sent is part of the result: a list of requests, each a
  query with its timeout. Log events, diagnostic captures and evaluation stages are not modelled.
\<close>

section \<open>A recall under a deadline\<close>

text \<open>\<open>Recalled None\<close> is a response without a sequence of results.\<close>

datatype recall_outcome =
    RecallTimedOut
  | RecallClientFailed
  | RecallRaised
  | Recalled "recall_result list option"

record recall_env =
  re_before :: real
  re_outcome :: recall_outcome
  re_ticks :: "bool list"
  re_after :: real

type_synonym requests = "(ustr \<times> real) list"

definition recall_projected ::
    "(nat \<Rightarrow> bool) \<Rightarrow> (ustr \<Rightarrow> ustr) \<Rightarrow> provider \<Rightarrow> bool \<Rightarrow> ustr \<Rightarrow> real \<Rightarrow> recall_env
     \<Rightarrow> (ustr \<times> evidence list) option \<times> requests" where
  "recall_projected word nfkc pv include_type projected deadline e =
     (case (pv_recall pv, pv_config pv, pv_runtime pv) of
        (True, Some config, Some _) \<Rightarrow>
          (let remaining = deadline - re_before e in
           if remaining \<le> 0 then (None, [])
           else
             ((case re_outcome e of
                 Recalled (Some results) \<Rightarrow>
                   (if results = [] then (if deadline \<le> re_after e then None else Some ([], []))
                    else
                      (case format_recall_context_with_records word nfkc (Some results)
                              (PInt (rc_context_max_bytes (recall_cfg config))) (re_ticks e) include_type of
                         (evidence_text, records) \<Rightarrow>
                           if deadline \<le> re_after e \<or> evidence_text = [] then None
                           else Some (evidence_text, records)))
               | _ \<Rightarrow> None),
              [(projected, remaining)]))
      | _ \<Rightarrow> (None, []))"

section \<open>Automatic recall\<close>

record prefetch_env =
  pf_started :: real
  pf_consume_now :: real
  pf_after_consume :: real
  pf_after_project :: real
  pf_recall :: recall_env

definition same_mode :: "plan_mode \<Rightarrow> planner_mode \<Rightarrow> bool" where
  "same_mode p c \<longleftrightarrow> p = ShadowPlan \<and> c = Shadow \<or> p = ActivePlan \<and> c = Active"

text \<open>
  The plan of the turn, taken from the mailbox: nothing without a mailbox or for a query the planner
  could not have read. A failed consumption is no plan. The session is never empty while there is a
  mailbox, so the mailbox raises no \<open>ValueError\<close> here.
\<close>

definition consume_plan ::
    "(bytes \<Rightarrow> string) \<Rightarrow> better_config \<Rightarrow> string \<Rightarrow> ustr \<Rightarrow> real \<Rightarrow> provider \<Rightarrow> registry
     \<Rightarrow> recall_plan option option \<times> registry" where
  "consume_plan sha config session query now pv reg =
     (case pv_mailbox pv of
        Some home \<Rightarrow>
          (if int (length query) \<le> pl_history_max_chars (planner_cfg config) \<and> strip query \<noteq> [] then
             (case consume sha home query (if session = [] then pv_session pv else session) now reg of
                Inl _ \<Rightarrow> (Some None, reg)
              | Inr ((plan, _), reg') \<Rightarrow> (Some plan, reg'))
           else (None, reg))
      | None \<Rightarrow> (None, reg))"

text \<open>The query that is recalled under a plan: \<open>None\<close> when an active plan skips or reuses.\<close>

definition planned_query :: "better_config \<Rightarrow> recall_plan option \<Rightarrow> ustr \<Rightarrow> ustr option" where
  "planned_query config plan query =
     (case plan of
        Some p \<Rightarrow>
          (if same_mode (rp_mode p) (pl_mode (planner_cfg config)) \<and> rp_mode p = ActivePlan then
             (if rp_action p = SkipAction \<or> rp_action p = ReuseAction then None
              else (case rp_query p of None \<Rightarrow> Some query | Some rewritten \<Rightarrow> Some rewritten))
           else Some query)
      | None \<Rightarrow> Some query)"

definition project_for_recall :: "tokenizer \<Rightarrow> better_config \<Rightarrow> ustr \<Rightarrow> ustr option" where
  "project_for_recall tk config query =
     (case project_query tk (PStr query) (PInt (rc_input_max_chars (recall_cfg config)))
             (PInt (rc_input_max_tokens (recall_cfg config))) of
        Inl _ \<Rightarrow> None
      | Inr projected \<Rightarrow> if strip projected = [] then None else Some projected)"

definition prefetch ::
    "(bytes \<Rightarrow> string) \<Rightarrow> tokenizer \<Rightarrow> (nat \<Rightarrow> bool) \<Rightarrow> (ustr \<Rightarrow> ustr) \<Rightarrow> py \<Rightarrow> string \<Rightarrow> prefetch_env
     \<Rightarrow> provider \<times> registry \<Rightarrow> ustr \<times> requests \<times> provider \<times> registry" where
  "prefetch sha tk word nfkc query session e pr =
     (let pv = (fst pr)\<lparr>pv_last_count := 0\<rparr>; reg = snd pr in
      case (pv_recall pv, pv_config pv, pv_runtime pv, query) of
        (True, Some config, Some _, PStr text) \<Rightarrow>
          (if text = [] then ([], [], pv, reg)
           else
             (let deadline = pf_started e + rc_timeout_seconds (recall_cfg config) in
              case consume_plan sha config session text (pf_consume_now e) pv reg of
                (consumed, reg') \<Rightarrow>
                  (if consumed \<noteq> None \<and> deadline \<le> pf_after_consume e then ([], [], pv, reg')
                   else
                     (case planned_query config (Option.bind consumed id) text of
                        None \<Rightarrow> ([], [], pv, reg')
                      | Some effective \<Rightarrow>
                          (case project_for_recall tk config effective of
                             None \<Rightarrow> ([], [], pv, reg')
                           | Some projected \<Rightarrow>
                               if deadline \<le> pf_after_project e then ([], [], pv, reg')
                               else
                                 (case recall_projected word nfkc pv False projected deadline (pf_recall e) of
                                    (None, sent) \<Rightarrow> ([], sent, pv, reg')
                                  | (Some (evidence_text, records), sent) \<Rightarrow>
                                      (evidence_text, sent, pv\<lparr>pv_last_count := length records\<rparr>, reg')))))))
      | _ \<Rightarrow> ([], [], pv, reg))"

text \<open>\<open>recall_status\<close>: how many memories the latest prefetch injected, when any.\<close>

definition recall_status :: "provider \<Rightarrow> nat option" where
  "recall_status pv = (if pv_last_count pv \<le> 0 then None else Some (pv_last_count pv))"

section \<open>Admission after a turn\<close>

text \<open>The turn handed to \<open>admit_turn\<close>; tags and byte bound are filled in by the runtime.\<close>

definition turn_call :: "py \<Rightarrow> py \<Rightarrow> py \<Rightarrow> int \<Rightarrow> py \<Rightarrow> bool \<Rightarrow> turn_input" where
  "turn_call session user_text assistant_text limit assistant_context selected =
     \<lparr>ti_session_id = session, ti_user_content = user_text, ti_assistant_content = assistant_text, ti_tags = [],
      ti_segment_max_bytes = PNone, ti_segment_count_limit = PInt limit, ti_assistant_context = assistant_context,
      ti_model_selected = PBool selected\<rparr>"

definition sync_turn :: "py \<Rightarrow> py \<Rightarrow> py \<Rightarrow> provider \<Rightarrow> turn_input option" where
  "sync_turn user_text assistant_text session pv =
     (case (pv_retain pv, pv_config pv, pv_runtime pv) of
        (True, Some config, Some _) \<Rightarrow>
          (if nonblank_text user_text = None \<or> nonblank_text assistant_text = None then None
           else Some (turn_call session user_text assistant_text (oc_max_pending_rows (outbox_cfg config)) PNone False))
      | _ \<Rightarrow> None)"

section \<open>Tools\<close>

definition tool_json :: "(string \<times> json) list \<Rightarrow> ustr" where
  "tool_json payload = dumps (JObj payload)"

definition tool_error :: "string \<Rightarrow> ustr" where
  "tool_error message = tool_json [(''error'', JStr (lit message))]"

definition RECALL_TRUST_LABEL :: ustr where
  "RECALL_TRUST_LABEL = lit ''untrusted_historical_evidence''"

definition RECALL_TOOL_INVALID_QUERY :: string where
  "RECALL_TOOL_INVALID_QUERY = ''Better Hindsight recall requires one non-empty text query.''"

definition RECALL_TOOL_UNAVAILABLE :: string where
  "RECALL_TOOL_UNAVAILABLE = ''Better Hindsight recall is unavailable.''"

definition REFLECT_TOOL_INVALID_QUERY :: string where
  "REFLECT_TOOL_INVALID_QUERY = ''Better Hindsight reflection requires one non-empty text query.''"

definition REFLECT_TOOL_UNAVAILABLE :: string where
  "REFLECT_TOOL_UNAVAILABLE = ''Better Hindsight reflection is unavailable.''"

definition RETAIN_TOOL_INVALID_CONTENT :: string where
  "RETAIN_TOOL_INVALID_CONTENT =
     ''Better Hindsight retention requires non-empty text content and an optional non-empty text context.''"

definition RETAIN_TOOL_UNAVAILABLE :: string where
  "RETAIN_TOOL_UNAVAILABLE = ''Better Hindsight retention is unavailable for this handle.''"

definition RETAIN_TOOL_REJECTED :: string where
  "RETAIN_TOOL_REJECTED = ''Better Hindsight retention was not admitted.''"

text \<open>The one argument \<open>query\<close>, a text that is not blank.\<close>

definition query_argument :: "py \<Rightarrow> ustr option" where
  "query_argument args =
     (case args of PDict [(key, PStr text)] \<Rightarrow> if key = lit ''query'' \<and> strip text \<noteq> [] then Some text else None
      | _ \<Rightarrow> None)"

record tool_env =
  te_started :: real
  te_after_project :: real
  te_recall :: recall_env

definition handle_recall_tool ::
    "tokenizer \<Rightarrow> (nat \<Rightarrow> bool) \<Rightarrow> (ustr \<Rightarrow> ustr) \<Rightarrow> py \<Rightarrow> tool_env \<Rightarrow> provider \<Rightarrow> ustr \<times> requests" where
  "handle_recall_tool tk word nfkc args e pv =
     (case query_argument args of
        None \<Rightarrow> (tool_error RECALL_TOOL_INVALID_QUERY, [])
      | Some query \<Rightarrow>
          (case (pv_recall pv, pv_config pv, pv_runtime pv) of
             (True, Some config, Some _) \<Rightarrow>
               (let deadline = te_started e + rc_timeout_seconds (recall_cfg config) in
                case project_for_recall tk config query of
                  None \<Rightarrow> (tool_error RECALL_TOOL_INVALID_QUERY, [])
                | Some projected \<Rightarrow>
                    if deadline \<le> te_after_project e then (tool_error RECALL_TOOL_UNAVAILABLE, [])
                    else
                      (case recall_projected word nfkc pv True projected deadline (te_recall e) of
                         (None, sent) \<Rightarrow> (tool_error RECALL_TOOL_UNAVAILABLE, sent)
                       | (Some (_, records), sent) \<Rightarrow>
                           (tool_json
                              [(''memories'', JList (map evidence_json records)),
                               (''result'', JStr (if records = [] then lit ''empty'' else lit ''ok'')),
                               (''trust'', JStr RECALL_TRUST_LABEL)], sent)))
           | _ \<Rightarrow> (tool_error RECALL_TOOL_UNAVAILABLE, [])))"

subsection \<open>Reflection\<close>

definition reflection_json :: "ustr \<Rightarrow> ustr" where
  "reflection_json evidence_text =
     tool_json [(''context'', JStr evidence_text), (''result'', JStr (lit ''ok'')), (''trust'', JStr RECALL_TRUST_LABEL)]"

text \<open>The search for a context bound whose envelope fits the bound on the serialized response.\<close>

function fit_reflection ::
    "(nat \<Rightarrow> bool) \<Rightarrow> ustr \<Rightarrow> int \<Rightarrow> json list \<Rightarrow> int \<Rightarrow> int \<Rightarrow> ustr option \<Rightarrow> ustr option" where
  "fit_reflection word text max_bytes atts low high best =
     (if high < low then best
      else
        (let middle = (low + high) div 2;
             evidence_text = format_reflection_context word (PStr text) (PInt middle) atts
         in
           if evidence_text = [] then fit_reflection word text max_bytes atts (middle + 1) high best
           else if int (utf8_len (reflection_json evidence_text)) \<le> max_bytes
           then fit_reflection word text max_bytes atts (middle + 1) high (Some (reflection_json evidence_text))
           else fit_reflection word text max_bytes atts low (middle - 1) best))"
  by pat_completeness auto
termination
  by (relation "measure (\<lambda>(word, text, max_bytes, atts, low, high, best). nat (high - low + 1))") auto

declare fit_reflection.simps [simp del]

definition bounded_reflection_tool_json :: "(nat \<Rightarrow> bool) \<Rightarrow> ustr \<Rightarrow> int \<Rightarrow> json list \<Rightarrow> ustr option" where
  "bounded_reflection_tool_json word text max_bytes atts =
     (let evidence_text = format_reflection_context word (PStr text) (PInt max_bytes) atts in
      if evidence_text = [] then None
      else if int (utf8_len (reflection_json evidence_text)) \<le> max_bytes then Some (reflection_json evidence_text)
      else fit_reflection word text max_bytes atts 1 (min max_bytes (int (utf8_len evidence_text) - 1)) None)"

text \<open>\<open>Reflected None\<close> is a response that is not a \<open>ReflectResponse\<close>.\<close>

datatype reflect_outcome =
    ReflectTimedOut
  | ReflectClientFailed
  | ReflectRaised
  | Reflected "(ustr \<times> json list) option"

record reflect_env =
  fl_started :: real
  fl_before_call :: real
  fl_outcome :: reflect_outcome
  fl_after :: real

definition handle_reflect_tool ::
    "tokenizer \<Rightarrow> (nat \<Rightarrow> bool) \<Rightarrow> py \<Rightarrow> reflect_env \<Rightarrow> provider \<Rightarrow> ustr \<times> requests" where
  "handle_reflect_tool tk word args e pv =
     (let unavailable = tool_error REFLECT_TOOL_UNAVAILABLE in
      case query_argument args of
        None \<Rightarrow> (tool_error REFLECT_TOOL_INVALID_QUERY, [])
      | Some query \<Rightarrow>
          (case (pv_reflect pv, pv_config pv, pv_runtime pv) of
             (True, Some config, Some _) \<Rightarrow>
               (let deadline = fl_started e + rf_timeout_seconds (reflect_cfg config);
                    remaining = deadline - fl_before_call e
                in
                  case project_query tk (PStr query) (PInt (rf_input_max_chars (reflect_cfg config)))
                         (PInt (rf_input_max_tokens (reflect_cfg config))) of
                    Inl _ \<Rightarrow> (tool_error REFLECT_TOOL_INVALID_QUERY, [])
                  | Inr projected \<Rightarrow>
                      if strip projected = [] then (tool_error REFLECT_TOOL_INVALID_QUERY, [])
                      else if remaining \<le> 0 then (unavailable, [])
                      else
                        ((case fl_outcome e of
                            Reflected (Some (text, atts)) \<Rightarrow>
                              (case bounded_reflection_tool_json word text (rf_output_max_bytes (reflect_cfg config)) atts of
                                 None \<Rightarrow> unavailable
                               | Some rendered \<Rightarrow> if deadline \<le> fl_after e then unavailable else rendered)
                          | _ \<Rightarrow> unavailable),
                         [(projected, remaining)]))
           | _ \<Rightarrow> (unavailable, [])))"

subsection \<open>Retention\<close>

definition RETAIN_TOOL_MAX_CONTENT_CHARS :: nat where
  "RETAIN_TOOL_MAX_CONTENT_CHARS = 8192"

definition RETAIN_TOOL_MAX_CONTEXT_CHARS :: nat where
  "RETAIN_TOOL_MAX_CONTEXT_CHARS = 256"

definition RETAIN_TOOL_MAX_SEGMENTS :: int where
  "RETAIN_TOOL_MAX_SEGMENTS = 2000"

definition RETAIN_TOOL_SESSION_ID :: ustr where
  "RETAIN_TOOL_SESSION_ID = lit ''better-hindsight-model-retain-v1''"

definition RETAIN_TOOL_SOURCE_MARKER :: ustr where
  "RETAIN_TOOL_SOURCE_MARKER = lit ''This is an agent-selected durable memory record, not a direct user quotation.''"

text \<open>What the tool asks of the runtime, or its answer without asking.\<close>

datatype retain_action =
    RetainReply ustr
  | RetainTurn turn_input
  | RetainAttachments ustr "ustr option" py

definition retain_arguments :: "py \<Rightarrow> (ustr \<times> ustr option \<times> py option) option" where
  "retain_arguments args =
     (case args of
        PDict kvs \<Rightarrow>
          (if \<not> list_all (\<lambda>(k, _). k \<in> {lit ''content'', lit ''context'', lit ''attachments''}) kvs then None
           else
             (case map_of kvs (lit ''content'') of
                Some (PStr body) \<Rightarrow>
                  (if strip body = [] \<or> length body > RETAIN_TOOL_MAX_CONTENT_CHARS then None
                   else
                     (case map_of kvs (lit ''context'') of
                        None \<Rightarrow> Some (body, None, map_of kvs (lit ''attachments''))
                      | Some PNone \<Rightarrow> Some (body, None, map_of kvs (lit ''attachments''))
                      | Some (PStr c) \<Rightarrow>
                          (if strip c = [] \<or> length c > RETAIN_TOOL_MAX_CONTEXT_CHARS then None
                           else Some (body, Some c, map_of kvs (lit ''attachments'')))
                      | Some _ \<Rightarrow> None))
              | _ \<Rightarrow> None))
      | _ \<Rightarrow> None)"

definition handle_retain_tool :: "py \<Rightarrow> provider \<Rightarrow> retain_action" where
  "handle_retain_tool args pv =
     (case retain_arguments args of
        None \<Rightarrow> RetainReply (tool_error RETAIN_TOOL_INVALID_CONTENT)
      | Some (body, label, attachments) \<Rightarrow>
          (case (pv_retain pv, pv_config pv, pv_runtime pv) of
             (True, Some config, Some _) \<Rightarrow>
               (case attachments of
                  Some files \<Rightarrow>
                    if mu_enabled (multimodal_cfg config) then RetainAttachments body label files
                    else RetainReply (tool_error RETAIN_TOOL_UNAVAILABLE)
                | None \<Rightarrow>
                    RetainTurn (turn_call (PStr RETAIN_TOOL_SESSION_ID) (PStr RETAIN_TOOL_SOURCE_MARKER) (PStr body)
                      RETAIN_TOOL_MAX_SEGMENTS (case label of None \<Rightarrow> PNone | Some c \<Rightarrow> PStr c) True))
           | _ \<Rightarrow> RetainReply (tool_error RETAIN_TOOL_UNAVAILABLE)))"

definition admission_status_value :: "admission_status \<Rightarrow> string" where
  "admission_status_value st =
     (case st of
        Admitted \<Rightarrow> ''admitted''
      | Duplicate \<Rightarrow> ''duplicate''
      | CapacityRefused \<Rightarrow> ''capacity_exceeded''
      | Conflict \<Rightarrow> ''conflict''
      | Contended \<Rightarrow> ''contended''
      | AdmissionLocalFailure \<Rightarrow> ''local_failure''
      | Invalid \<Rightarrow> ''invalid'')"

text \<open>\<open>None\<close> is an admission that raised.\<close>

definition retain_reply :: "admission_result option \<Rightarrow> ustr" where
  "retain_reply result =
     (let rejected = (\<lambda>reason. tool_json [(''error'', JStr (lit RETAIN_TOOL_REJECTED)), (''reason'', JStr (lit reason))]) in
      case result of
        None \<Rightarrow> rejected ''local_failure''
      | Some r \<Rightarrow>
          if \<not> accepted r then rejected (admission_status_value (ar_status r))
          else tool_json [(''result'', JStr (if ar_status r = Duplicate then lit ''already_queued'' else lit ''queued_locally''))])"

subsection \<open>Status\<close>

text \<open>
  \<open>payload\<close> is the operator status of the queue, a dictionary whose labels are strings.
  \<open>None\<close> is the unavailable answer.
\<close>

definition queue_count :: "(ustr \<times> py) list \<Rightarrow> string \<Rightarrow> int option" where
  "queue_count counts key = (case map_of counts (lit key) of Some (PInt i) \<Rightarrow> if i < 0 then None else Some i | _ \<Rightarrow> None)"

definition compact_status_payload :: "py \<Rightarrow> (string \<times> json) list option" where
  "compact_status_payload payload =
     (case payload of
        PDict kvs \<Rightarrow>
          (case (map_of kvs (lit ''result''), map_of kvs (lit ''outbox''), map_of kvs (lit ''counts'')) of
             (Some (PStr outcome), Some (PStr outbox), Some (PDict counts)) \<Rightarrow>
               (if outcome \<notin> {lit ''ok'', lit ''degraded''} \<or> outbox = [] then None
                else
                  (case (queue_count counts ''mismatch'', queue_count counts ''pending'', queue_count counts ''retry'',
                         queue_count counts ''sending'') of
                     (Some mismatch, Some pending, Some retry, Some sending) \<Rightarrow>
                       (let base = [(''queued'', JInt (mismatch + pending + retry + sending)), (''result'', JStr outcome),
                                       (''retention_queue'', JStr outbox)];
                            positive = (\<lambda>key n. if 0 < n then [(key, JInt n)] else []);
                            label = (\<lambda>key. case map_of kvs (lit key) of
                                       Some (PStr s) \<Rightarrow> if s \<noteq> [] \<and> s \<noteq> lit ''none'' then [(key, JStr s)] else []
                                     | _ \<Rightarrow> []);
                            age = (case map_of kvs (lit ''age_bucket'') of
                                     Some (PStr s) \<Rightarrow>
                                       if s \<in> {lit ''1h_to_lt_24h'', lit ''gte_24h''} then [(''age_bucket'', JStr s)] else []
                                   | _ \<Rightarrow> []);
                            ownership = (if map_of kvs (lit ''sender_ownership'') = Some (PStr (lit ''unavailable''))
                                         then [(''sender_ownership'', JStr (lit ''unavailable''))] else [])
                        in
                          if outcome = lit ''ok'' then Some base
                          else Some (base @ positive ''mismatched'' mismatch @ positive ''pending'' pending @
                            positive ''retrying'' retry @ positive ''sending'' sending @ age @
                            label ''next_retry_bucket'' @ label ''last_error_category'' @ ownership))
                   | _ \<Rightarrow> None))
           | _ \<Rightarrow> None)
      | _ \<Rightarrow> None)"

definition handle_status_tool :: "py \<Rightarrow> py option \<Rightarrow> provider \<Rightarrow> ustr" where
  "handle_status_tool args status_payload pv =
     (case args of
        PDict [] \<Rightarrow>
          (if pv_config pv = None \<or> pv_runtime pv = None
           then tool_error ''Better Hindsight status is unavailable for this handle.''
           else
             (case Option.bind status_payload compact_status_payload of
                None \<Rightarrow> tool_error ''Better Hindsight status is unavailable for this handle.''
              | Some reply \<Rightarrow> tool_json reply))
      | _ \<Rightarrow> tool_error ''Better Hindsight status does not accept arguments.'')"

end
