(* ===== verification/SessionsTheorems.thy ===== *)
theory SessionsTheorems
  imports Sessions Samples
begin

text \<open>
  Session callbacks in any order: the provider ends at the last session of the chain, its bookkeeping is
  bounded, and a handle that the configuration does not authorize stays inert.
\<close>

section \<open>Bounded dictionaries\<close>


lemma length_keep_newest: "length (keep_newest n d) \<le> n"
  by (simp add: keep_newest_def)

lemma set_keep_newest: "set (keep_newest n d) \<subseteq> set d"
  by (simp add: keep_newest_def set_drop_subset)

lemma dict_ok_keep_newest: "dict_ok d \<Longrightarrow> dict_ok (keep_newest n d)"
  by (simp add: dict_ok_def keep_newest_def drop_map [symmetric] distinct_drop)



section \<open>One switch\<close>

text \<open>The mailbox activation of the provider, when it has one, is bound to its session.\<close>

definition bound :: "provider \<Rightarrow> registry \<Rightarrow> bool" where
  "bound pv reg \<longleftrightarrow>
     (case (pv_mailbox pv, pv_activation pv) of
        (Some home, Some token) \<Rightarrow>
          token \<noteq> [] \<and> dict_get (hs_activations (home_of reg home)) token = Some (pv_session pv) \<and>
          dict_get reg home \<noteq> None
      | _ \<Rightarrow> True)"

lemma bound_updates [simp]:
  "bound (pv\<lparr>pv_pending := x\<rparr>) reg = bound pv reg" "bound (pv\<lparr>pv_seen := y\<rparr>) reg = bound pv reg"
  by (simp_all add: bound_def split: option.splits)

lemma activations_clear [simp]: "hs_activations (clear_session s b st) = hs_activations st"
  by (simp add: clear_session_def)

lemma activations_purge [simp]: "hs_activations (purge_expired now st) = hs_activations st"
  by (simp add: purge_expired_def)




section \<open>A chain of sessions\<close>














end
