(* ===== verification/MailboxTheorems.thy ===== *)
theory MailboxTheorems
  imports MailboxRuns Samples
begin

text \<open>
  What the plan mailbox promises its two clients, the planner that reserves and publishes a plan for
  a turn and the provider that consumes it.
\<close>

section \<open>Provenance\<close>

definition published_in_time :: "real option \<Rightarrow> real \<Rightarrow> bool" where
  "published_in_time deadline now \<longleftrightarrow> (case deadline of None \<Rightarrow> True | Some d \<Rightarrow> now < d \<or> now < 0)"

text \<open>
  \<open>justified\<close>: the events hold the reservation of the plan and, after it, the publication of
  its action. A withdrawn reservation has the deadline 0.
\<close>

definition reservation_of :: "(bytes \<Rightarrow> string) \<Rightarrow> reservation \<Rightarrow> real \<Rightarrow> string \<Rightarrow> stored_plan \<Rightarrow> bool" where
  "reservation_of sha rv now t p \<longleftrightarrow>
     rv_turn rv = t \<and> pn_digest p = query_digest sha (rv_query rv) \<and> pn_length p = length (rv_query rv) \<and>
     pn_mode p = rv_mode rv \<and> pn_owner p = rv_owner rv \<and> pn_expires p = now + PLAN_MAX_AGE_SECONDS \<and>
     (pn_publish_before p = publish_deadline now (rv_publish_timeout rv) \<or> pn_publish_before p = Some 0)"

definition publication_of :: "string \<Rightarrow> string \<Rightarrow> real option \<Rightarrow> stored_plan \<Rightarrow> mail_event \<Rightarrow> bool" where
  "publication_of h t deadline p ev \<longleftrightarrow>
     (\<exists>action now. pn_action p = Some action \<and> published_in_time deadline now \<and>
        ev = ((h, Finalize t (pn_mode p) action (pn_query p) (pn_owner p) now), Answer True))"

definition justified :: "(bytes \<Rightarrow> string) \<Rightarrow> string \<Rightarrow> string \<Rightarrow> stored_plan \<Rightarrow> mail_event list \<Rightarrow> bool" where
  "justified sha h t p evs \<longleftrightarrow>
     (\<exists>pre rv now post. evs = pre @ ((h, Reserve rv now), Answer True) # post \<and> reservation_of sha rv now t p \<and>
        (pn_action p = None \<or>
         (\<exists>ev \<in> set post. publication_of h t (publish_deadline now (rv_publish_timeout rv)) p ev)))"

lemma justifiedI:
  "evs = pre @ ((h, Reserve rv now), Answer True) # post \<Longrightarrow> reservation_of sha rv now t p \<Longrightarrow>
   (pn_action p \<noteq> None \<Longrightarrow> \<exists>ev \<in> set post. publication_of h t (publish_deadline now (rv_publish_timeout rv)) p ev) \<Longrightarrow>
   justified sha h t p evs"
  unfolding justified_def
  by (rule exI [of _ pre], rule exI [of _ rv], rule exI [of _ now], rule exI [of _ post], cases "pn_action p") auto

lemma justifiedE:
  assumes "justified sha h t p evs"
  obtains pre rv now post where "evs = pre @ ((h, Reserve rv now), Answer True) # post"
    "reservation_of sha rv now t p"
    "pn_action p \<noteq> None \<Longrightarrow> \<exists>ev \<in> set post. publication_of h t (publish_deadline now (rv_publish_timeout rv)) p ev"
proof -
  from assms obtain pre rv now post where "evs = pre @ ((h, Reserve rv now), Answer True) # post"
    "reservation_of sha rv now t p"
    "pn_action p = None \<or> (\<exists>ev \<in> set post. publication_of h t (publish_deadline now (rv_publish_timeout rv)) p ev)"
    unfolding justified_def by (elim exE conjE) (rule that)
  then show ?thesis by (intro that [of pre rv now post]) simp_all
qed

lemma justified_more:
  assumes "justified sha h t p evs"
  shows "justified sha h t p (evs @ [ev])"
  using assms
proof (rule justifiedE)
  fix pre rv now post
  assume j: "evs = pre @ ((h, Reserve rv now), Answer True) # post" "reservation_of sha rv now t p"
    "pn_action p \<noteq> None \<Longrightarrow> \<exists>ev \<in> set post. publication_of h t (publish_deadline now (rv_publish_timeout rv)) p ev"
  show ?thesis
    by (rule justifiedI [of _ pre h rv now "post @ [ev]"]) (use j in auto)
qed

lemma justified_step:
  assumes "slot_step sha ev h t x (Some p')" and "\<And>p. x = Some p \<Longrightarrow> justified sha h t p evs"
  shows "justified sha h t p' (evs @ [ev])"
  using assms
proof (cases rule: slot_step.cases)
  case keep
  then show ?thesis using assms(2) justified_more by auto
next
  case (reserved rv now n)
  have "reservation_of sha rv now t p'" "pn_action p' = None"
    using reserved by (auto simp: reservation_of_def reserved_plan_def)
  with reserved show ?thesis unfolding justified_def by blast
next
  case (published p mode owner action query now)
  have "justified sha h t p evs" using assms(2) published by simp
  then show ?thesis
  proof (rule justifiedE)
    fix pre rv now1 post
    assume j: "evs = pre @ ((h, Reserve rv now1), Answer True) # post" "reservation_of sha rv now1 t p"
    have "published_in_time (publish_deadline now1 (rv_publish_timeout rv)) now"
      using j(2) published by (auto simp: reservation_of_def published_in_time_def split: option.splits)
    then have "publication_of h t (publish_deadline now1 (rv_publish_timeout rv)) p' ev"
      using published by (auto simp: publication_of_def)
    moreover have "reservation_of sha rv now1 t p'"
      using j(2) published by (simp add: reservation_of_def)
    ultimately show ?thesis using j(1) by (intro justifiedI [of _ pre h rv now1 "post @ [ev]"]) auto
  qed
next
  case (withdrawn p owner)
  have "justified sha h t p evs" using assms(2) withdrawn by simp
  then show ?thesis
  proof (rule justifiedE)
    fix pre rv now1 post
    assume j: "evs = pre @ ((h, Reserve rv now1), Answer True) # post" "reservation_of sha rv now1 t p"
    then have "reservation_of sha rv now1 t p'" "pn_action p' = None"
      using withdrawn by (simp_all add: reservation_of_def)
    with j show ?thesis by (intro justifiedI [of _ pre h rv now1 "post @ [ev]"]) auto
  qed
qed

lemma run_justified:
  assumes "fresh_tokens sha ops []" and "mail_run sha ops [] = (evs, reg)"
  shows "\<forall>h t p. slot reg h t = Some p \<longrightarrow> justified sha h t p evs"
proof -
  have "(\<lambda>evs reg. \<forall>h t p. slot reg h t = Some p \<longrightarrow> justified sha h t p evs)
    (fst (trace_run (mail_op_step sha) ops [])) (snd (trace_run (mail_op_step sha) ops []))"
  proof (rule mailbox.trace_invariant)
    show "\<forall>h t p. slot [] h t = Some p \<longrightarrow> justified sha h t p []"
      by (simp add: slot_absent)
    show "registry_ok []" by (simp add: registry_ok_def)
    show "trace_allowed fresh_token (mail_op_step sha) ops []"
      using assms(1) by (simp add: fresh_tokens_def)
    fix evs st op r st'
    assume inv: "\<forall>h t p. slot st h t = Some p \<longrightarrow> justified sha h t p evs" and ok: "registry_ok st"
      and step: "mail_op_step sha op st = (r, st')"
    from step have "mail_step sha (fst op) (snd op) st = (r, st')" by (simp add: mail_op_step_def)
    note slot = mail_step_slot [OF ok this]
    show "\<forall>h t p. slot st' h t = Some p \<longrightarrow> justified sha h t p (evs @ [(op, r)])"
    proof (intro allI impI)
      fix h t p
      assume "slot st' h t = Some p"
      with slot [of h t] inv show "justified sha h t p (evs @ [(op, r)])"
        by (auto intro: justified_step [of _ _ _ _ "slot st h t"])
    qed
  qed
  with assms(2) show ?thesis by (simp add: mail_run_def)
qed

section \<open>A sample run\<close>

definition sample_reservation :: reservation where
  "sample_reservation =
     \<lparr>rv_query = lit ''coffee'', rv_session = ''s'', rv_turn = ''t'', rv_mode = ActivePlan,
      rv_evaluation = None, rv_publish_timeout = Some (Fin 5), rv_owner = Some ''own''\<rparr>"

definition sample_ops :: "(string \<times> mail_op) list" where
  "sample_ops =
     [(''h'', Activate ''s'' ''tok'' 0), (''h'', BeginTurn ''s'' ''t'' [] ''own'' 1),
      (''h'', Reserve sample_reservation 2),
      (''h'', Finalize ''t'' ActivePlan RecallAction (Some (lit ''tea'')) (Some ''own'') 3)]"

definition sample_registry :: registry where
  "sample_registry = snd (mail_run sample_digest sample_ops [])"

definition sample_recall_plan :: recall_plan where
  "sample_recall_plan =
     \<lparr>rp_mode = ActivePlan, rp_action = RecallAction, rp_query = Some (lit ''tea''), rp_turn = ''t''\<rparr>"

lemma sample_fresh: "fresh_tokens sample_digest sample_ops []"
  by code_simp

lemma sample_registry_ok: "registry_ok sample_registry"
proof -
  have "registry_ok []" by (simp add: registry_ok_def)
  from mailbox.run_good [OF this] sample_fresh show ?thesis
    by (simp add: sample_registry_def mail_run_def fresh_tokens_def)
qed

definition consumed_registry :: registry where
  "consumed_registry = snd (mail_step sample_digest ''h'' (Consume (lit ''coffee'') ''s'' 4) sample_registry)"

lemma sample_consumed:
  "mail_step sample_digest ''h'' (Consume (lit ''coffee'') ''s'' 4) sample_registry =
     (Delivered (Some sample_recall_plan) None, consumed_registry)"
  by code_simp

section \<open>Properties\<close>

text \<open>
  C17. Every operation of the mailbox, in any order and at any clock readings, keeps the registry
  well-formed as long as the activation tokens are fresh: unique keys and sequence numbers, a query
  exactly on a recall action, every plan belongs to an active session, and a plan of a session with a
  current turn belongs to that turn and carries its owner token.
\<close>

theorem mailbox_run_sound:
  assumes "registry_ok reg" and "fresh_tokens sha ops reg"
  shows "registry_ok (snd (mail_run sha ops reg))"
  using mailbox.run_good assms by (simp add: mail_run_def fresh_tokens_def)

theorem mailbox_run_sound_witness:
  "registry_ok [] \<and> fresh_tokens sample_digest sample_ops [] \<and>
   registry_ok (snd (mail_run sample_digest sample_ops []))"
  using mailbox_run_sound [OF _ sample_fresh] sample_fresh by (simp add: registry_ok_def)

text \<open>
  C9. A plan that a consumer receives was reserved and then published for it: before the consumption
  the mailbox accepted a reservation of the same turn and mode, for a source query of the same length
  and digest, less than ten seconds old, and after it the publication of exactly this action and
  rewritten query for that turn and mode, under the reservation's owner token and before its deadline.
\<close>

theorem plan_provenance:
  assumes "fresh_tokens sha ops []"
    and "mail_run sha ops [] = (pre @ ((home, Consume query session now), Delivered (Some rp) evaluation) # post, reg)"
  shows "\<exists>a b c rv reserved published.
    pre = a @ ((home, Reserve rv reserved), Answer True) # b @
      ((home, Finalize (rp_turn rp) (rp_mode rp) (rp_action rp) (rp_query rp) (rv_owner rv) published), Answer True) # c \<and>
    rv_turn rv = rp_turn rp \<and> rv_mode rv = rp_mode rp \<and> length (rv_query rv) = length query \<and>
    query_digest sha (rv_query rv) = query_digest sha query \<and> now < reserved + PLAN_MAX_AGE_SECONDS \<and>
    published_in_time (publish_deadline reserved (rv_publish_timeout rv)) published"
proof -
  from assms(2) obtain ops1 ops2 st1 st2 where ops: "ops = ops1 @ (home, Consume query session now) # ops2"
    and run1: "mail_run sha ops1 [] = (pre, st1)"
    and step: "mail_op_step sha (home, Consume query session now) st1 = (Delivered (Some rp) evaluation, st2)"
    unfolding mail_run_def by (rule trace_run_split)
  from assms(1) ops have fresh1: "fresh_tokens sha ops1 []" by (simp add: fresh_tokens_def trace_allowed_append)
  have "registry_ok []" by (simp add: registry_ok_def)
  from mailbox.run_good [OF this, of sha ops1] fresh1 run1 have "registry_ok st1"
    by (simp add: fresh_tokens_def mail_run_def)
  moreover from step have "consume sha home query session now st1 = Inr ((Some rp, evaluation), st2)"
    by (auto simp: mail_op_step_def split: sum.splits prod.splits)
  ultimately obtain p where p: "slot st1 home (rp_turn rp) = Some p" "pn_action p = Some (rp_action rp)"
    "pn_query p = rp_query rp" "pn_mode p = rp_mode rp" "pn_digest p = query_digest sha query"
    "pn_length p = length query" "now < pn_expires p"
    by (rule consume_delivers)
  from run_justified [OF fresh1 run1] p(1) have "justified sha home (rp_turn rp) p pre" by blast
  then show ?thesis
  proof (rule justifiedE)
    fix a rv reserved post1
    assume pre: "pre = a @ ((home, Reserve rv reserved), Answer True) # post1"
      and rv: "reservation_of sha rv reserved (rp_turn rp) p"
      and "pn_action p \<noteq> None \<Longrightarrow>
        \<exists>ev \<in> set post1. publication_of home (rp_turn rp) (publish_deadline reserved (rv_publish_timeout rv)) p ev"
    with p(2) obtain published where
      "((home, Finalize (rp_turn rp) (pn_mode p) (rp_action rp) (pn_query p) (pn_owner p) published), Answer True) \<in> set post1"
      and t: "published_in_time (publish_deadline reserved (rv_publish_timeout rv)) published"
      by (auto simp: publication_of_def)
    then obtain b c where "post1 = b @ ((home, Finalize (rp_turn rp) (pn_mode p) (rp_action rp) (pn_query p)
        (pn_owner p) published), Answer True) # c"
      by (meson split_list)
    with pre p rv t show ?thesis
      by (intro exI [of _ a] exI [of _ b] exI [of _ c]) (auto simp: reservation_of_def)
  qed
qed

theorem plan_provenance_witness:
  "\<exists>pre rp evaluation post reg.
     fresh_tokens sample_digest (sample_ops @ [(''h'', Consume (lit ''coffee'') ''s'' 4)]) [] \<and>
     mail_run sample_digest (sample_ops @ [(''h'', Consume (lit ''coffee'') ''s'' 4)]) [] =
       (pre @ ((''h'', Consume (lit ''coffee'') ''s'' 4), Delivered (Some rp) evaluation) # post, reg) \<and>
     (\<exists>a b c rv reserved published. pre = a @ ((''h'', Reserve rv reserved), Answer True) # b @
        ((''h'', Finalize (rp_turn rp) (rp_mode rp) (rp_action rp) (rp_query rp) (rv_owner rv) published), Answer True) # c)"
proof -
  let ?ops = "sample_ops @ [(''h'', Consume (lit ''coffee'') ''s'' 4)]"
  have fresh: "fresh_tokens sample_digest ?ops []" by code_simp
  have run: "mail_run sample_digest ?ops [] =
    (fst (mail_run sample_digest sample_ops []) @
       ((''h'', Consume (lit ''coffee'') ''s'' 4), Delivered (Some sample_recall_plan) None) # [], consumed_registry)"
  proof -
    obtain evs st where r: "trace_run (mail_op_step sample_digest) sample_ops [] = (evs, st)" by force
    then have "st = sample_registry" by (simp add: sample_registry_def mail_run_def)
    with r sample_consumed show ?thesis
      by (simp add: mail_run_def trace_run_append mail_op_step_def del: mail_step.simps)
  qed
  from plan_provenance [OF fresh run] fresh run show ?thesis by blast
qed

text \<open>
  C15. A plan is delivered once. After a consumption has delivered the plan of a turn, no operation
  delivers a plan of that turn and no late publication for it is accepted, in any run of operations
  that does not successfully reserve the turn again.
\<close>

theorem plan_delivered_once:
  assumes "registry_ok reg"
    and "mail_step sha home (Consume query session now) reg = (Delivered (Some rp) evaluation, reg')"
    and "fresh_tokens sha ops reg'"
    and "\<not> list_ex (fills_slot (home, rp_turn rp)) (fst (mail_run sha ops reg'))"
  shows "\<not> list_ex (takes_slot (home, rp_turn rp)) (fst (mail_run sha ops reg')) \<and>
    \<not> list_ex (publishes_slot (home, rp_turn rp)) (fst (mail_run sha ops reg'))"
proof -
  have "\<not> list_ex (uses_slot (home, rp_turn rp)) (fst (trace_run (mail_op_step sha) ops reg'))"
    by (rule plan_slots.taken_once [OF assms(1), where op = "(home, Consume query session now)"
      and r = "Delivered (Some rp) evaluation"])
      (use assms(2-) in \<open>simp_all add: fresh_token_def mail_op_step_def fresh_tokens_def mail_run_def
        del: mail_step.simps\<close>)
  then show ?thesis by (auto simp: mail_run_def list_ex_iff uses_slot_def)
qed

theorem plan_delivered_once_witness:
  "registry_ok sample_registry \<and>
   mail_step sample_digest ''h'' (Consume (lit ''coffee'') ''s'' 4) sample_registry =
     (Delivered (Some sample_recall_plan) None, consumed_registry) \<and>
   \<not> list_ex (takes_slot (''h'', ''t'')) (fst (mail_run sample_digest
       [(''h'', Finalize ''t'' ActivePlan ReuseAction None (Some ''own'') 5), (''h'', Consume (lit ''coffee'') ''s'' 6)]
       consumed_registry))"
proof -
  let ?ops = "[(''h'', Finalize ''t'' ActivePlan ReuseAction None (Some ''own'') 5), (''h'', Consume (lit ''coffee'') ''s'' 6)]"
  have fresh: "fresh_tokens sample_digest ?ops consumed_registry" by code_simp
  have "\<not> list_ex (fills_slot (''h'', rp_turn sample_recall_plan)) (fst (mail_run sample_digest ?ops consumed_registry))"
    by code_simp
  from plan_delivered_once [OF sample_registry_ok sample_consumed fresh this] sample_registry_ok sample_consumed
  show ?thesis by (simp add: sample_recall_plan_def)
qed

text \<open>
  Consuming closes the session's current turn. From then on, and for the ten seconds that the
  fence lasts, the same turn cannot be begun again; whatever the clock says, a late publication for it is
  refused, and so is a reservation of it under any owner token.
\<close>

theorem closed_turn_fenced:
  assumes "registry_ok reg" and "dict_get reg home = Some st" and "session_active st session"
    and "dict_get (hs_current st) session = Some (turn, owner)"
    and "mail_step sha home (Consume query session now) reg = (Delivered r evaluation, reg')"
    and "turn \<noteq> []" and "now' < now + PLAN_MAX_AGE_SECONDS" and "action_ok action rewritten"
    and "rv_query rv \<noteq> []" and "rv_session rv = session" and "rv_turn rv = turn"
    and "rv_owner rv = Some token" and "\<not> bad_timeout (rv_publish_timeout rv)"
  shows "fst (mail_step sha home (BeginTurn session turn parent token now') reg') = Turn None \<and>
    fst (mail_step sha home (Finalize turn mode action rewritten owner' later) reg') = Answer False \<and>
    fst (mail_step sha home (Reserve rv later) reg') = Answer False"
proof -
  let ?st = "purge_expired now st"
  have act: "session_active ?st session" using assms(3) by (simp add: purge_expired_def session_active_def)
  have cur: "dict_get (hs_current ?st) session = Some (turn, owner)" using assms(4) by (simp add: purge_expired_def)
  have nonempty: "session \<noteq> []" using assms(5) by (auto simp: consume_def split: sum.splits)
  from assms(5) have "\<exists>st'. dict_get reg' home = Some st' \<and>
      hs_current st' = dict_pop (hs_current ?st) session \<and>
      dict_get (hs_closed st') (session, turn) = Some (now + PLAN_MAX_AGE_SECONDS) \<and>
      (hs_plans st' = dict_pop (hs_plans ?st) turn \<or> (\<exists>P. hs_plans st' = filter P (dict_pop (hs_plans ?st) turn)))"
    using assms(2) act cur
    by (auto simp: consume_def resolve_active_session_def close_current_def Let_def
        split: sum.splits if_splits option.splits)
  then obtain st' where st': "dict_get reg' home = Some st'"
    "hs_current st' = dict_pop (hs_current ?st) session"
    "dict_get (hs_closed st') (session, turn) = Some (now + PLAN_MAX_AGE_SECONDS)"
    "hs_plans st' = dict_pop (hs_plans ?st) turn \<or> (\<exists>P. hs_plans st' = filter P (dict_pop (hs_plans ?st) turn))"
    by blast
  have fresh: "fresh_token reg (home, Consume query session now)" by (simp add: fresh_token_def)
  have ok': "home_ok st'" by (rule registry_ok_get [OF mail_step_ok [OF assms(1) fresh assms(5)] st'(1)])
  have none: "turn \<notin> dict_keys (hs_plans st')" using st'(4) by (auto simp: set_dict_pop)
  then have "dict_get (hs_plans (purge_expired later st')) turn = None"
    by (auto simp: dict_get_None_iff purge_expired_def)
  moreover have "dict_get (hs_closed (purge_expired now' st')) (session, turn) \<noteq> None"
    using st'(3) assms(7) ok' dict_get_filter [of "hs_closed st'" "\<lambda>_ e. \<not> e \<le> now'" "(session, turn)"]
    by (simp add: purge_expired_def home_ok_but_def)
  moreover have "dict_get (hs_current (purge_expired later st')) session = None"
    using st'(2) by (simp add: purge_expired_def)
  ultimately show ?thesis
    using st'(1) assms(6,8-13) nonempty
    by (auto simp: begin_turn_def finalize_def reserve_def Let_def)
qed

theorem closed_turn_fenced_witness:
  "\<exists>st reg'. registry_ok sample_registry \<and> dict_get sample_registry ''h'' = Some st \<and> session_active st ''s'' \<and>
    dict_get (hs_current st) ''s'' = Some (''t'', ''own'') \<and>
    mail_step sample_digest ''h'' (Consume (lit ''coffee'') ''s'' 4) sample_registry =
      (Delivered (Some sample_recall_plan) None, reg') \<and>
    fst (mail_step sample_digest ''h'' (BeginTurn ''s'' ''t'' [] ''own'' 13) reg') = Turn None \<and>
    fst (mail_step sample_digest ''h'' (Reserve sample_reservation 20) reg') = Answer False"
proof -
  have "dict_get sample_registry ''h'' \<noteq> None" by code_simp
  then obtain st where st: "dict_get sample_registry ''h'' = Some st" by blast
  have "session_active (the (dict_get sample_registry ''h'')) ''s''"
    "dict_get (hs_current (the (dict_get sample_registry ''h''))) ''s'' = Some (''t'', ''own'')"
    by code_simp+
  with st have s: "session_active st ''s''" "dict_get (hs_current st) ''s'' = Some (''t'', ''own'')" by simp_all
  have rv: "rv_query sample_reservation \<noteq> []" "rv_session sample_reservation = ''s''"
    "rv_turn sample_reservation = ''t''" "rv_owner sample_reservation = Some ''own''"
    "\<not> bad_timeout (rv_publish_timeout sample_reservation)"
    by (simp_all add: sample_reservation_def lit_def bad_timeout_def)
  have "fst (mail_step sample_digest ''h'' (BeginTurn ''s'' ''t'' [] ''own'' 13) consumed_registry) = Turn None \<and>
    fst (mail_step sample_digest ''h'' (Finalize ''t'' ActivePlan SkipAction None None 20) consumed_registry) = Answer False \<and>
    fst (mail_step sample_digest ''h'' (Reserve sample_reservation 20) consumed_registry) = Answer False"
    by (rule closed_turn_fenced [OF sample_registry_ok st s sample_consumed _ _ _ rv])
      (simp_all add: PLAN_MAX_AGE_SECONDS_def action_ok_def)
  with st s sample_registry_ok sample_consumed show ?thesis by blast
qed

text \<open>
  C36. The mailbox refines one slot per turn. Seen from any turn of any home, every operation is a step
  of the slot: it keeps or empties the slot, or it is an accepted reservation that fills it, an accepted
  publication that sets the action of a pending, unexpired plan of the same mode and owner before its
  deadline, or a cancellation by the plan's owner.
\<close>

theorem mailbox_refines_slots:
  assumes "registry_ok reg" and "mail_step sha home op reg = (result, reg')"
  shows "slot_step sha ((home, op), result) h t (slot reg h t) (slot reg' h t)"
  using mail_step_slot [OF assms] .

theorem mailbox_refines_slots_witness:
  "registry_ok sample_registry \<and>
   slot_step sample_digest ((''h'', Consume (lit ''coffee'') ''s'' 4), Delivered (Some sample_recall_plan) None)
     ''h'' ''t'' (slot sample_registry ''h'' ''t'') (slot consumed_registry ''h'' ''t'')"
  using mailbox_refines_slots [OF sample_registry_ok sample_consumed] sample_registry_ok by simp

text \<open>
  A publication is accepted exactly when the turn holds an unexpired reservation that is still
  pending, of the same mode and owner token, whose publication deadline has not passed; then the slot
  holds that reservation with the published action and rewritten query.
\<close>

theorem finalize_accepts_exactly:
  assumes "registry_ok reg" and "turn \<noteq> []" and "action_ok action query"
  shows "\<exists>reg'. finalize home turn mode action query owner now reg =
    Inr (\<exists>p. slot reg home turn = Some p \<and> now < pn_expires p \<and> pn_action p = None \<and> pn_mode p = mode \<and>
      pn_owner p = owner \<and> (case pn_publish_before p of None \<Rightarrow> True | Some d \<Rightarrow> now < d) \<and>
      slot reg' home turn = Some (p\<lparr>pn_action := Some action, pn_query := query\<rparr>), reg')"
proof (cases "dict_get reg home")
  case None
  with assms show ?thesis by (simp add: finalize_def slot_absent)
next
  case (Some st)
  note ok = registry_ok_get [OF assms(1) Some]
  have plan: "dict_get (hs_plans (purge_expired now st)) turn =
    (case dict_get (hs_plans st) turn of None \<Rightarrow> None | Some p \<Rightarrow> if now < pn_expires p then Some p else None)"
    using dict_get_filter [of "hs_plans st" "\<lambda>_ p. \<not> pn_expires p \<le> now" turn] ok
    by (cases "dict_get (hs_plans st) turn") (auto simp: purge_expired_def home_ok_but_def not_le)
  show ?thesis
  proof (cases "dict_get (hs_plans (purge_expired now st)) turn")
    case None
    with plan have "\<not> (\<exists>p. dict_get (hs_plans st) turn = Some p \<and> now < pn_expires p)"
      by (auto split: option.splits if_splits)
    with None Some assms show ?thesis by (auto simp: finalize_def Let_def slot_get [OF Some])
  next
    case p: (Some p)
    with plan have s: "slot reg home turn = Some p" "now < pn_expires p"
      using slot_get [OF Some] by (auto split: option.splits if_splits)
    define late where "late = (case pn_publish_before p of None \<Rightarrow> False | Some d \<Rightarrow> d \<le> now)"
    have late: "(case pn_publish_before p of None \<Rightarrow> True | Some d \<Rightarrow> now < d) = (\<not> late)"
      by (simp add: late_def not_le split: option.split)
    show ?thesis
    proof (cases "pn_action p \<noteq> None \<or> pn_mode p \<noteq> mode \<or> pn_owner p \<noteq> owner \<or> late")
      case True
      with p Some assms have "finalize home turn mode action query owner now reg =
          Inr (False, dict_set reg home (purge_expired now st))"
        by (auto simp: finalize_def Let_def late_def)
      with True s(1) late show ?thesis by (intro exI [of _ "dict_set reg home (purge_expired now st)"]) auto
    next
      case False
      let ?st' = "(purge_expired now st)\<lparr>hs_plans := dict_set (hs_plans (purge_expired now st)) turn
          (p\<lparr>pn_action := Some action, pn_query := query\<rparr>)\<rparr>"
      have "finalize home turn mode action query owner now reg = Inr (True, dict_set reg home ?st')"
        using False p Some assms by (simp add: finalize_def Let_def late_def)
      with False s late show ?thesis by (intro exI [of _ "dict_set reg home ?st'"]) auto
    qed
  qed
qed

theorem finalize_accepts_exactly_witness:
  "registry_ok sample_registry \<and> action_ok ReuseAction None \<and>
   (\<exists>b reg'. finalize ''h'' ''t'' ActivePlan ReuseAction None (Some ''own'') 4 sample_registry = Inr (b, reg'))"
  using finalize_accepts_exactly [OF sample_registry_ok, of "''t''" ReuseAction None "''h''" ActivePlan "Some ''own''" 4]
    sample_registry_ok
  by (auto simp: action_ok_def)

text \<open>
  A begun turn owns its session. When \<open>begin_turn\<close> hands out an owner token, the session is
  active, its current turn is the new one under that token, no plan of an earlier turn of the session
  is left, and a different parent session that was active has been handed over.
\<close>

theorem begun_turn_owns_session:
  assumes "registry_ok reg" and "begin_turn home session turn parent token now reg = Inr (Some owner, reg')"
  shows "owner = token \<and> session_active (home_of reg' home) session \<and>
    dict_get (hs_current (home_of reg' home)) session = Some (turn, token) \<and>
    \<not> list_ex (\<lambda>(_, p). pn_session p = session) (hs_plans (home_of reg' home)) \<and>
    (parent = [] \<or> parent = session \<or> \<not> session_active (home_of reg' home) parent)"
proof -
  have ok: "registry_ok reg'" by (rule begin_turn_ok [OF assms])
  from assms(2) obtain st0 where st0: "dict_get reg home = Some st0"
    by (auto simp: begin_turn_def split: if_splits option.splits)
  have "owner = token \<and> dict_get (hs_current (home_of reg' home)) session = Some (turn, token) \<and>
    \<not> list_ex (\<lambda>(_, p). pn_session p = session) (hs_plans (home_of reg' home)) \<and>
    (parent = [] \<or> parent = session \<or> \<not> session_active (home_of reg' home) parent)"
    using assms(2) st0
    by (auto simp: begin_turn_def Let_def clear_session_def session_active_def list_ex_iff split: if_splits)
  moreover from this ok have "session_active (home_of reg' home) session"
  proof -
    obtain st' where st': "dict_get reg' home = Some st'"
      using assms(2) st0 by (auto simp: begin_turn_def Let_def split: if_splits)
    then have h: "home_of reg' home = st'" by (simp add: home_of_get)
    from calculation h have "session \<in> dict_keys (hs_current st')"
      by (metis dict_get_None_iff option.distinct(1))
    with registry_ok_get [OF ok st'] h show ?thesis by (auto simp: home_ok_but_def)
  qed
  ultimately show ?thesis by blast
qed

theorem begun_turn_owns_session_witness:
  "\<exists>reg'. registry_ok sample_registry \<and>
    begin_turn ''h'' ''s'' ''u'' [] ''new'' 5 sample_registry = Inr (Some ''new'', reg') \<and>
    dict_get (hs_current (home_of reg' ''h'')) ''s'' = Some (''u'', ''new'')"
proof -
  have "map_sum id fst (begin_turn ''h'' ''s'' ''u'' [] ''new'' 5 sample_registry) = Inr (Some ''new'')"
    by code_simp
  then obtain reg' where r: "begin_turn ''h'' ''s'' ''u'' [] ''new'' 5 sample_registry = Inr (Some ''new'', reg')"
    by (cases "begin_turn ''h'' ''s'' ''u'' [] ''new'' 5 sample_registry") auto
  from begun_turn_owns_session [OF sample_registry_ok r] r sample_registry_ok show ?thesis by blast
qed

end
