(* ===== verification/RecallTheorems.thy ===== *)
theory RecallTheorems
  imports Recall SessionsTheorems EvidenceTheorems ProjectionTheorems MailboxTheorems
begin

text \<open>
  The composition of mailbox, projection, runtime call and evidence in the provider: what automatic
  recall sends and injects, how it obeys the plan of the turn, the bound on a reflection response, and
  the inertness of a handle that is not authorized.
\<close>

section \<open>What a recall sends and returns\<close>

text \<open>A context that the evidence formatter may build within a byte budget.\<close>

definition enveloped :: "int \<Rightarrow> ustr \<Rightarrow> evidence list \<Rightarrow> bool" where
  "enveloped max_bytes evidence_text records \<longleftrightarrow>
     int (utf8_len evidence_text) \<le> max_bytes \<and> records \<noteq> [] \<and>
     evidence_text = render (map serialize_record records) \<and>
     \<not> list_ex (\<lambda>ev. list_ex line_break (serialize_record ev) \<or>
          list_ex (\<lambda>p. sublist p (serialize_record ev)) CONTEXT_MARKERS) records"

text \<open>A request that the configuration of the handle permits.\<close>

definition permitted_request :: "tokenizer \<Rightarrow> better_config \<Rightarrow> ustr \<times> real \<Rightarrow> bool" where
  "permitted_request tk config request \<longleftrightarrow>
     strip (fst request) \<noteq> [] \<and> int (length (fst request)) \<le> rc_input_max_chars (recall_cfg config) \<and>
     int (length (encode tk (fst request))) \<le> rc_input_max_tokens (recall_cfg config) \<and> 0 < snd request"

lemma project_for_recall_limits:
  assumes "project_for_recall tk config query = Some projected"
  shows "strip projected \<noteq> []" and "int (length projected) \<le> rc_input_max_chars (recall_cfg config)"
    and "int (length (encode tk projected)) \<le> rc_input_max_tokens (recall_cfg config)"
proof -
  from assms have p: "project_query tk (PStr query) (PInt (rc_input_max_chars (recall_cfg config)))
      (PInt (rc_input_max_tokens (recall_cfg config))) = Inr projected" and ink: "strip projected \<noteq> []"
    by (auto simp: project_for_recall_def split: sum.splits if_splits)
  have "projected \<noteq> []" using ink by (auto simp: strip_def lstrip_def)
  with projection_limits [where tk = tk and s = query and mc = "rc_input_max_chars (recall_cfg config)"
      and mt = "rc_input_max_tokens (recall_cfg config)"] p
  show "int (length projected) \<le> rc_input_max_chars (recall_cfg config)"
    and "int (length (encode tk projected)) \<le> rc_input_max_tokens (recall_cfg config)" by simp_all
  show "strip projected \<noteq> []" by (rule ink)
qed

lemma formatted_records:
  assumes "format_recall_context_with_records word nfkc results (PInt mb) ticks it = (evidence_text, records)"
    and "evidence_text \<noteq> []"
  shows "enveloped mb evidence_text records"
proof -
  obtain selected flags where "format_recall_context_with_selected_results_and_provenance word nfkc results (PInt mb) ticks it =
      (evidence_text, records, selected, flags)"
    using assms(1) by (auto simp: format_recall_context_with_records_def format_recall_context_with_selected_results_def
        split: prod.splits)
  with formatted_envelope [where word = word and nfkc = nfkc and results = results and mb = mb and ticks = ticks and it = it] assms(2) show ?thesis by (auto simp: enveloped_def)
qed

lemma recall_projected_cases:
  assumes "recall_projected word nfkc pv it projected deadline e = (result, sent)"
  obtains (silent) "result = None" "sent = []"
  | (failed) config where "pv_config pv = Some config" "pv_recall pv" "result = None"
      "sent = [(projected, deadline - re_before e)]" "0 < deadline - re_before e"
  | (empty) config where "pv_config pv = Some config" "pv_recall pv" "result = Some ([], [])"
      "sent = [(projected, deadline - re_before e)]" "0 < deadline - re_before e"
  | (found) config evidence_text records where "pv_config pv = Some config" "pv_recall pv"
      "result = Some (evidence_text, records)" "enveloped (rc_context_max_bytes (recall_cfg config)) evidence_text records"
      "sent = [(projected, deadline - re_before e)]" "0 < deadline - re_before e"
proof (cases "pv_recall pv \<and> pv_config pv \<noteq> None \<and> pv_runtime pv \<noteq> None \<and> 0 < deadline - re_before e")
  case False
  then have "result = None \<and> sent = []"
    using assms by (auto simp: recall_projected_def Let_def split: bool.splits option.splits)
  then show ?thesis using silent by blast
next
  case True
  then obtain config h where c: "pv_recall pv" "pv_config pv = Some config" "pv_runtime pv = Some h"
    "0 < deadline - re_before e" by auto
  have sent: "sent = [(projected, deadline - re_before e)]"
    using assms c by (auto simp: recall_projected_def Let_def)
  show ?thesis
  proof (cases "\<exists>results. re_outcome e = Recalled (Some results)")
    case False
    then have "result = None" using assms c
      by (auto simp: recall_projected_def Let_def split: recall_outcome.splits option.splits)
    then show ?thesis using failed c sent by blast
  next
    case True
    then obtain results where r: "re_outcome e = Recalled (Some results)" by blast
    show ?thesis
    proof (cases "results = []")
      case True
      then have "result = None \<or> result = Some ([], [])" using assms c r
        by (auto simp: recall_projected_def Let_def split: if_splits)
      then show ?thesis using failed empty c sent by blast
    next
      case False
      obtain evidence_text records where f: "format_recall_context_with_records word nfkc (Some results)
          (PInt (rc_context_max_bytes (recall_cfg config))) (re_ticks e) it = (evidence_text, records)" by force
      then have "result = None \<or> result = Some (evidence_text, records) \<and> evidence_text \<noteq> []"
        using assms c r False by (auto simp: recall_projected_def Let_def split: if_splits)
      then show ?thesis using failed found formatted_records [OF f] c sent by blast
    qed
  qed
qed

text \<open>Where a prefetch gets to.\<close>

lemma prefetch_cases:
  assumes "prefetch sha tk word nfkc query session e (pv, reg) = (evidence_text, sent, pv', reg')"
  obtains (quiet_handle) "evidence_text = []" "sent = []" "pv' = pv\<lparr>pv_last_count := 0\<rparr>"
  | (recalls) config asked consumed effective projected result where
      "pv_config pv = Some config" "query = PStr asked" "asked \<noteq> []"
      "consume_plan sha config session asked (pf_consume_now e) (pv\<lparr>pv_last_count := 0\<rparr>) reg = (consumed, reg')"
      "planned_query config (Option.bind consumed id) asked = Some effective"
      "project_for_recall tk config effective = Some projected"
      "recall_projected word nfkc (pv\<lparr>pv_last_count := 0\<rparr>) False projected
         (pf_started e + rc_timeout_seconds (recall_cfg config)) (pf_recall e) = (result, sent)"
      "evidence_text = (case result of None \<Rightarrow> [] | Some (t, _) \<Rightarrow> t)"
      "pv_last_count pv' = (case result of None \<Rightarrow> 0 | Some (_, records) \<Rightarrow> length records)"
proof (cases "pv_recall pv \<and> pv_config pv \<noteq> None \<and> pv_runtime pv \<noteq> None \<and> (\<exists>text. query = PStr text \<and> text \<noteq> [])")
  case False
  then have "evidence_text = [] \<and> sent = [] \<and> pv' = pv\<lparr>pv_last_count := 0\<rparr>"
    using assms by (auto simp: prefetch_def Let_def split: bool.splits option.splits py.splits)
  then show ?thesis using quiet_handle by blast
next
  case True
  then obtain config h asked where c: "pv_recall pv" "pv_config pv = Some config" "pv_runtime pv = Some h"
    "query = PStr asked" "asked \<noteq> []" by auto
  let ?pv = "pv\<lparr>pv_last_count := 0\<rparr>"
  let ?deadline = "pf_started e + rc_timeout_seconds (recall_cfg config)"
  obtain consumed reg1 where k: "consume_plan sha config session asked (pf_consume_now e) ?pv reg = (consumed, reg1)"
    by force
  note prefetch = assms [unfolded prefetch_def Let_def fst_conv snd_conv]
  show ?thesis
  proof (cases "planned_query config (Option.bind consumed id) asked")
    case None
    then have "evidence_text = [] \<and> sent = [] \<and> pv' = ?pv" using prefetch c k by (auto split: if_splits)
    then show ?thesis using quiet_handle by blast
  next
    case (Some effective)
    show ?thesis
    proof (cases "project_for_recall tk config effective")
      case None
      then have "evidence_text = [] \<and> sent = [] \<and> pv' = ?pv" using prefetch c k Some by (auto split: if_splits)
      then show ?thesis using quiet_handle by blast
    next
      case projected: (Some projected)
      show ?thesis
      proof (cases "consumed \<noteq> None \<and> ?deadline \<le> pf_after_consume e \<or> ?deadline \<le> pf_after_project e")
        case True
        then have "evidence_text = [] \<and> sent = [] \<and> pv' = ?pv"
          using prefetch c k Some projected by (auto split: if_splits)
        then show ?thesis using quiet_handle by blast
      next
        case False
        obtain result sent' where r: "recall_projected word nfkc ?pv False projected ?deadline (pf_recall e) = (result, sent')"
          by force
        have "sent = sent' \<and> reg' = reg1 \<and> evidence_text = (case result of None \<Rightarrow> [] | Some (t, _) \<Rightarrow> t) \<and>
            pv_last_count pv' = (case result of None \<Rightarrow> 0 | Some (_, records) \<Rightarrow> length records)"
          using prefetch c k Some projected False r by (auto split: option.splits)
        with r c k Some projected show ?thesis by (intro recalls) auto
      qed
    qed
  qed
qed

text \<open>
  C5. Whatever the mailbox, the clock and the service answer, automatic recall makes at most one
  recall query, one that is not blank, within the configured characters and tokens, with a positive
  timeout; and what it injects is empty or an envelope within the configured bytes whose records are
  counted for the status display and cannot forge its frame. An unauthorized handle sends and injects
  nothing.
\<close>

theorem prefetch_is_safe:
  assumes "prefetch sha tk word nfkc query session e (pv, reg) = (evidence_text, sent, pv', reg')"
  shows "length sent \<le> 1 \<and> (sent = [] \<longrightarrow> evidence_text = []) \<and>
    (sent \<noteq> [] \<longrightarrow> pv_recall pv \<and> (\<exists>config. pv_config pv = Some config \<and> list_all (permitted_request tk config) sent \<and>
       (evidence_text \<noteq> [] \<longrightarrow> (\<exists>records. enveloped (rc_context_max_bytes (recall_cfg config)) evidence_text records \<and>
          recall_status pv' = Some (length records))))) \<and>
    (evidence_text = [] \<longrightarrow> recall_status pv' = None)"
  using assms
proof (cases rule: prefetch_cases)
  case quiet_handle
  then show ?thesis by (simp add: recall_status_def)
next
  case (recalls config asked consumed effective projected result)
  note limits = project_for_recall_limits [OF recalls(6)]
  from recalls(7) show ?thesis
  proof (cases rule: recall_projected_cases)
    case (found config' evidence records)
    have "config' = config" using found(1) recalls(1) by simp
    moreover have "evidence_text = evidence" "evidence \<noteq> []"
      using found(3,4) recalls(8) by (simp_all add: enveloped_def render_def CONTEXT_PREAMBLE_def)
    moreover have "records \<noteq> []" using found(4) by (simp add: enveloped_def)
    ultimately show ?thesis
      using found recalls(1,9) limits by (auto simp: permitted_request_def recall_status_def)
  qed (use recalls limits in \<open>auto simp: permitted_request_def recall_status_def\<close>)
qed

text \<open>
  C24. Automatic recall obeys the plan of the turn: when the mailbox delivers an active plan to skip or
  reuse, nothing is sent and nothing is injected; under an active plan to recall, only the projection of
  its rewritten query is sent; and with no plan, or a plan of another mode, only that of the query itself.
\<close>

theorem prefetch_obeys_plan:
  assumes "prefetch sha tk word nfkc (PStr text) session e (pv, reg) = (evidence_text, sent, pv', reg')"
    and "pv_config pv = Some config"
    and "consume_plan sha config session text (pf_consume_now e) pv reg = (consumed, reg1)"
  shows "case Option.bind consumed id of
      None \<Rightarrow> set (map fst sent) \<subseteq> set_option (project_for_recall tk config text)
    | Some p \<Rightarrow>
        if rp_mode p = ActivePlan \<and> pl_mode (planner_cfg config) = Active then
          (if rp_action p = RecallAction
           then set (map fst sent) \<subseteq> set_option (project_for_recall tk config (case rp_query p of None \<Rightarrow> text | Some q \<Rightarrow> q))
           else sent = [] \<and> evidence_text = [])
        else set (map fst sent) \<subseteq> set_option (project_for_recall tk config text)"
proof -
  have same: "consume_plan sha config session text (pf_consume_now e) (pv\<lparr>pv_last_count := 0\<rparr>) reg = (consumed, reg1)"
    using assms(3) by (simp add: consume_plan_def cong: option.case_cong if_cong)
  from assms(1) have "sent = [] \<and> evidence_text = [] \<or>
    (\<exists>effective projected. planned_query config (Option.bind consumed id) text = Some effective \<and>
       project_for_recall tk config effective = Some projected \<and> set (map fst sent) \<subseteq> {projected})"
  proof (cases rule: prefetch_cases)
    case quiet_handle
    then show ?thesis by simp
  next
    case (recalls config' asked consumed' effective projected result)
    have "config' = config" "asked = text" using recalls(1,2) assms(2) by simp_all
    moreover from this have "consumed' = consumed" using recalls(4) same by simp
    moreover from recalls(7) have "set (map fst sent) \<subseteq> {projected}" by (cases rule: recall_projected_cases) auto
    ultimately show ?thesis using recalls(5,6) by auto
  qed
  moreover have "rp_action p = SkipAction \<or> rp_action p = ReuseAction \<or> rp_action p = RecallAction" for p
    by (cases "rp_action p") simp_all
  ultimately show ?thesis
    by (cases "Option.bind consumed id")
      (auto simp: planned_query_def same_mode_def split: option.splits if_splits)
qed

section \<open>The reflection response\<close>

lemma fit_reflection_bounded:
  assumes "fit_reflection word body max_bytes atts low high best = Some r"
    and "1 \<le> low" and "high \<le> max_bytes"
    and "\<And>r. best = Some r \<Longrightarrow> int (utf8_len r) \<le> max_bytes \<and>
      (\<exists>b \<le> max_bytes. r = reflection_json (format_reflection_context word (PStr body) (PInt b) atts) \<and>
         format_reflection_context word (PStr body) (PInt b) atts \<noteq> [])"
  shows "int (utf8_len r) \<le> max_bytes \<and>
      (\<exists>b \<le> max_bytes. r = reflection_json (format_reflection_context word (PStr body) (PInt b) atts) \<and>
         format_reflection_context word (PStr body) (PInt b) atts \<noteq> [])"
  using assms
proof (induction word body max_bytes atts low high best rule: fit_reflection.induct)
  case (1 word body max_bytes atts low high best)
  let ?middle = "(low + high) div 2"
  let ?text = "format_reflection_context word (PStr body) (PInt ?middle) atts"
  note unfold = "1.prems"(1) [unfolded fit_reflection.simps [of _ _ _ _ low high] Let_def]
  show ?case
  proof (cases "high < low")
    case True
    with unfold "1.prems"(4) show ?thesis by simp
  next
    case False
    then have range: "1 \<le> ?middle + 1" "?middle - 1 \<le> max_bytes" "?middle \<le> max_bytes"
      using "1.prems"(2,3) by auto
    consider (empty) "?text = []" | (fits) "?text \<noteq> []" "int (utf8_len (reflection_json ?text)) \<le> max_bytes"
      | (large) "?text \<noteq> []" "\<not> int (utf8_len (reflection_json ?text)) \<le> max_bytes" by blast
    then show ?thesis
    proof cases
      case empty
      with unfold False have "fit_reflection word body max_bytes atts (?middle + 1) high best = Some r" by simp
      then show ?thesis using "1.IH"(1) [OF False refl refl empty] range(1) "1.prems"(3,4) by blast
    next
      case fits
      with unfold False
      have r: "fit_reflection word body max_bytes atts (?middle + 1) high (Some (reflection_json ?text)) = Some r" by simp
      have "r' = reflection_json ?text" if "Some (reflection_json ?text) = Some r'" for r' using that by simp
      with fits range(3) show ?thesis using "1.IH"(2) [OF False refl refl fits] r range(1) "1.prems"(3) by blast
    next
      case large
      with unfold False have r: "fit_reflection word body max_bytes atts low (?middle - 1) best = Some r" by simp
      then show ?thesis using "1.IH"(3) [OF False refl refl large] "1.prems"(2,4) range(2) by blast
    qed
  qed
qed

lemma reflection_envelope:
  assumes "format_reflection_context word (PStr text) (PInt mb) atts \<noteq> []"
  shows "\<exists>ev. format_reflection_context word (PStr text) (PInt mb) atts = render [serialize_record ev] \<and>
    ev_type ev = Some (lit ''reflection'')"
proof -
  let ?rr = "reflection_record word text atts"
  from assms obtain line ev where s: "serialize_without_crowding_text ?rr (mb - int fixed_bytes) = Inr (line, ev)"
    and f: "format_reflection_context word (PStr text) (PInt mb) atts = render [line] \<or>
      (\<exists>line' ev' ticks. fit_truncated_record ev (mb - int fixed_bytes) [] = Inr (Some (line', ev'), ticks) \<and>
         format_reflection_context word (PStr text) (PInt mb) atts = render [line'])"
    by (auto simp: format_reflection_context_def and_then_def positive_limit_def
        split: option.splits if_splits sum.splits prod.splits)
  from serialize_without_crowding_Inr [OF s] have line: "line = serialize_record ev" "ev_type ev = Some (lit ''reflection'')"
    by (auto simp: reflection_record_def)
  from f show ?thesis
  proof (elim disjE exE conjE)
    fix line' ev' ticks
    assume "fit_truncated_record ev (mb - int fixed_bytes) [] = Inr (Some (line', ev'), ticks)"
      and r: "format_reflection_context word (PStr text) (PInt mb) atts = render [line']"
    from fit_truncated_record_Inr [OF this(1)] obtain k where "ev' = truncated ev k" "line' = serialize_record ev'" by auto
    with r line show ?thesis by (intro exI [of _ ev']) (simp add: truncated_def)
  qed (use line in auto)
qed

text \<open>
  C26. A reflection response fits the configured bound after it has been wrapped and escaped a second
  time for the tool: whatever text and handles the service returns, the rendered response has at most the
  permitted bytes and holds one evidence envelope with one reflection record whose line cannot forge the
  frame; when no such response exists within the searched bounds the tool reports that it is unavailable.
\<close>

theorem reflection_response_bounded:
  assumes "bounded_reflection_tool_json word text max_bytes atts = Some response"
  shows "int (utf8_len response) \<le> max_bytes \<and>
    (\<exists>ev. response = reflection_json (render [serialize_record ev]) \<and> ev_type ev = Some (lit ''reflection'') \<and>
       \<not> list_ex line_break (serialize_record ev) \<and>
       \<not> list_ex (\<lambda>p. sublist p (serialize_record ev)) CONTEXT_MARKERS)"
proof -
  have "int (utf8_len response) \<le> max_bytes \<and>
      (\<exists>b \<le> max_bytes. response = reflection_json (format_reflection_context word (PStr text) (PInt b) atts) \<and>
         format_reflection_context word (PStr text) (PInt b) atts \<noteq> [])"
    using assms fit_reflection_bounded [of word "text" max_bytes atts 1 _ None response]
    by (auto simp: bounded_reflection_tool_json_def Let_def split: if_splits)
  then obtain b where bound: "int (utf8_len response) \<le> max_bytes"
    and b: "response = reflection_json (format_reflection_context word (PStr text) (PInt b) atts)"
      "format_reflection_context word (PStr text) (PInt b) atts \<noteq> []" by blast
  from reflection_envelope [OF b(2)] bound b(1) serialized_line show ?thesis by (auto simp: list_ex_iff)
qed

section \<open>Handles that are not authorized\<close>

text \<open>A provider that can do nothing: no configuration, no runtime and no capability.\<close>

definition inert :: "provider \<Rightarrow> bool" where
  "inert pv \<longleftrightarrow> pv_config pv = None \<and> pv_runtime pv = None \<and> \<not> pv_recall pv \<and> \<not> pv_reflect pv \<and>
     \<not> pv_mental_models pv \<and> \<not> pv_retain pv \<and> pv_mailbox pv = None \<and> pv_activation pv = None"

text \<open>
  C25. A handle whose platform identity is not in the configuration acquires no runtime and touches no
  plan mailbox; after its initialization automatic recall, the tools, the retention of turns and the
  session callbacks do nothing, whatever the handle was before.
\<close>

theorem unauthorized_handle_is_inert:
  assumes "initialize call pv0 w = (pv, ps, reg)" and "ic_loaded call = Some config"
    and "\<not> identity_authorized (authorize_call config call)"
  shows "inert pv \<and> ps = fst w \<and> reg = snd (deactivate_provider (ic_now call) pv0 (snd w)) \<and>
    prefetch sha tk word nfkc query session e (pv, reg) = ([], [], pv\<lparr>pv_last_count := 0\<rparr>, reg) \<and>
    snd (handle_recall_tool tk word nfkc args te pv) = [] \<and> snd (handle_reflect_tool tk word args fe pv) = [] \<and>
    (\<exists>reply. handle_retain_tool args pv = RetainReply reply) \<and> sync_turn u a s pv = None \<and>
    on_session_switch clock new parent reset rewound (pv, reg) = (pv, reg)"
proof -
  have "\<not> memory_enabled (authorize_call config call)"
    using assms(3) by (auto simp: authorize_call_def authorize_cli_def authorize_gateway_def authorization_def
        memory_enabled_def Let_def split: if_splits)
  then have i: "inert pv" "ps = fst w" "reg = snd (deactivate_provider (ic_now call) pv0 (snd w))"
    using assms(1,2) by (auto simp: initialize_def deactivate_provider_def inert_def Let_def split: if_splits)
  then have off: "pv_config pv = None" "pv_runtime pv = None" "\<not> pv_recall pv" "\<not> pv_reflect pv" "\<not> pv_retain pv"
    by (simp_all add: inert_def)
  have "prefetch sha tk word nfkc query session e (pv, reg) = ([], [], pv\<lparr>pv_last_count := 0\<rparr>, reg)"
    using off by (simp add: prefetch_def)
  moreover have "snd (handle_recall_tool tk word nfkc args te pv) = []"
    using off by (simp add: handle_recall_tool_def split: option.splits)
  moreover have "snd (handle_reflect_tool tk word args fe pv) = []"
    using off by (simp add: handle_reflect_tool_def Let_def split: option.splits)
  moreover have "\<exists>reply. handle_retain_tool args pv = RetainReply reply"
    using off by (simp add: handle_retain_tool_def split: option.splits prod.splits)
  moreover have "sync_turn u a s pv = None" using off by (simp add: sync_turn_def)
  moreover have "on_session_switch clock new parent reset rewound (pv, reg) = (pv, reg)"
    using off by (simp add: on_session_switch_def)
  ultimately show ?thesis using i by simp
qed

section \<open>A handle in use\<close>

definition sample_active :: better_config where
  "sample_active =
     sample_config\<lparr>planner_cfg := (planner_cfg sample_config)\<lparr>pl_mode := Active\<rparr>\<rparr>"

definition sample_provider :: provider where
  "sample_provider =
     (new_provider False)\<lparr>pv_config := Some sample_active, pv_recall := True,
        pv_runtime := Some \<lparr>hd_runtime = 0, hd_closed = False\<rparr>, pv_session := ''s'',
        pv_seen := [(''s'', ())], pv_mailbox := Some ''h'', pv_activation := Some ''tok''\<rparr>"

definition sample_prefetch_env :: prefetch_env where
  "sample_prefetch_env =
     \<lparr>pf_started = 0, pf_consume_now = 4, pf_after_consume = 0, pf_after_project = 0,
      pf_recall = \<lparr>re_before = 1, re_outcome = Recalled (Some [sample_result [104, 105]]), re_ticks = [], re_after = 1\<rparr>\<rparr>"

definition sample_prefetch :: "ustr \<times> requests \<times> provider \<times> registry" where
  "sample_prefetch =
     prefetch sample_digest byte_tokenizer ascii_word id (PStr (lit ''coffee'')) ''s'' sample_prefetch_env
       (sample_provider, sample_registry)"

lemma sample_prefetch_parts:
  "prefetch sample_digest byte_tokenizer ascii_word id (PStr (lit ''coffee'')) ''s'' sample_prefetch_env
     (sample_provider, sample_registry) =
   (fst sample_prefetch, fst (snd sample_prefetch), fst (snd (snd sample_prefetch)), snd (snd (snd sample_prefetch)))"
  by (simp add: sample_prefetch_def)

theorem prefetch_is_safe_witness: "length (fst (snd sample_prefetch)) \<le> 1"
  using prefetch_is_safe [OF sample_prefetch_parts] by simp

theorem prefetch_obeys_plan_witness: "set (map fst (fst (snd sample_prefetch))) \<subseteq> {lit ''tea''}"
proof -
  have consumed: "consume_plan sample_digest sample_active ''s'' (lit ''coffee'') (pf_consume_now sample_prefetch_env)
      sample_provider sample_registry = (Some (Some sample_recall_plan), consumed_registry)"
    by code_simp
  have config: "pv_config sample_provider = Some sample_active" by (simp add: sample_provider_def)
  have "project_for_recall byte_tokenizer sample_active (lit ''tea'') = Some (lit ''tea'')" by code_simp
  with prefetch_obeys_plan [OF sample_prefetch_parts config consumed] show ?thesis
    by (simp add: sample_recall_plan_def sample_active_def)
qed

theorem reflection_response_bounded_witness:
  "int (utf8_len (the (bounded_reflection_tool_json ascii_word [104, 105] 400 []))) \<le> 400"
proof -
  have "bounded_reflection_tool_json ascii_word [104, 105] 400 [] \<noteq> None" by code_simp
  then obtain response where "bounded_reflection_tool_json ascii_word [104, 105] 400 [] = Some response" by blast
  with reflection_response_bounded [OF this] show ?thesis by simp
qed

definition sample_stranger :: init_call where
  "sample_stranger =
     \<lparr>ic_session = ''s'', ic_home = ''h'', ic_loaded = Some sample_config, ic_platform = Some (lit ''t''),
      ic_user_id = Some (lit ''v''), ic_user_id_alt = None, ic_agent_context = None,
      ic_construction = \<lparr>cs_runner = True, cs_client = True, cs_outbox = None, cs_sender = True\<rparr>,
      ic_token = ''tok'', ic_prompt_section = True, ic_now = 0\<rparr>"

theorem unauthorized_handle_is_inert_witness:
  "inert (fst (initialize sample_stranger sample_provider (new_process, sample_registry))) \<and>
   \<not> inert sample_provider"
proof -
  obtain pv ps reg where i: "initialize sample_stranger sample_provider (new_process, sample_registry) = (pv, ps, reg)"
    using prod_cases3 by blast
  have "\<not> identity_authorized (authorize_call sample_config sample_stranger)" by code_simp
  moreover have "ic_loaded sample_stranger = Some sample_config" by (simp add: sample_stranger_def)
  ultimately have "inert pv" using unauthorized_handle_is_inert [OF i] by blast
  with i show ?thesis by (simp add: inert_def sample_provider_def)
qed

end
