(* ===== verification/Remote.thy ===== *)
theory Remote
  imports Settings "HOL-Library.Monad_Syntax"
begin

text \<open>
  Conversations with the Hindsight server: a coroutine of the code is a value of \<open>'a io\<close>, which is
  done or asks one request and goes on with whatever reply it gets. \<open>play\<close> runs it against a list of
  replies and records what was sent; \<open>wp\<close> is its weakest precondition over all replies, for
  statements about everything a conversation may send.
\<close>

section \<open>Requests and replies\<close>

datatype http_method = GET | POST | PATCH | DELETE

record http_request =
  hq_method :: http_method
  hq_path :: ustr
  hq_body :: "py option"
  hq_timeout :: "real option"
  hq_limit :: "int option"

record json_response =
  js_payload :: py
  js_bytes :: nat
  js_status :: int

text \<open>
  What one call of the transport may end in: the cancellation of the task, a \<open>_JsonTransportError\<close>
  with its reason, any other exception, or a response.
\<close>

datatype transport_reply =
    ReplyCancelled
  | ReplyError string nat "int option"
  | ReplyRaised
  | Reply json_response

section \<open>Conversations\<close>

datatype 'a io =
    Return 'a
  | Ask http_request "transport_reply \<Rightarrow> 'a io"

primrec bind_io :: "'a io \<Rightarrow> ('a \<Rightarrow> 'b io) \<Rightarrow> 'b io" where
  "bind_io (Return x) f = f x"
| "bind_io (Ask q k) f = Ask q (\<lambda>r. bind_io (k r) f)"

type_synonym exchange = "http_request \<times> transport_reply"

text \<open>\<open>None\<close> is a conversation that still waits for a reply.\<close>

primrec play :: "'a io \<Rightarrow> transport_reply list \<Rightarrow> exchange list \<times> 'a option" where
  "play (Return x) rs = ([], Some x)"
| "play (Ask q k) rs =
     (case rs of
        [] \<Rightarrow> ([], None)
      | r # rs' \<Rightarrow> (case play (k r) rs' of (tr, x) \<Rightarrow> ((q, r) # tr, x)))"

primrec wp :: "'a io \<Rightarrow> (exchange list \<Rightarrow> 'a \<Rightarrow> bool) \<Rightarrow> exchange list \<Rightarrow> bool" where
  "wp (Return x) Q tr \<longleftrightarrow> Q tr x"
| "wp (Ask q k) Q tr \<longleftrightarrow> (\<forall>r. wp (k r) Q (tr @ [(q, r)]))"

lemma wp_bind [simp]: "wp (bind_io m f) Q tr \<longleftrightarrow> wp m (\<lambda>tr' x. wp (f x) Q tr') tr"
  by (induction m arbitrary: tr) simp_all

lemma wp_mono: "wp m P tr \<Longrightarrow> (\<And>tr' x. P tr' x \<Longrightarrow> Q tr' x) \<Longrightarrow> wp m Q tr"
  by (induction m arbitrary: tr) auto

lemma wp_if [simp]: "wp (if b then m else n) Q tr \<longleftrightarrow> (if b then wp m Q tr else wp n Q tr)"
  by simp

lemma wp_play:
  assumes "wp m Q tr" and "play m rs = (tr', Some x)"
  shows "Q (tr @ tr') x"
  using assms
proof (induction m arbitrary: tr tr' rs)
  case (Ask q k)
  then obtain r rs' tr'' where "rs = r # rs'" "play (k r) rs' = (tr'', Some x)" "tr' = (q, r) # tr''"
    by (auto split: list.splits prod.splits)
  with Ask.IH [of "k r" "tr @ [(q, r)]" rs' tr''] Ask.prems(1) show ?case by auto
qed simp

lemma play_bind:
  "play (bind_io m f) rs =
     (case play m rs of
        (tr, None) \<Rightarrow> (tr, None)
      | (tr, Some x) \<Rightarrow> (case play (f x) (drop (length tr) rs) of (tr', y) \<Rightarrow> (tr @ tr', y)))"
  by (induction m arbitrary: rs) (auto split: list.splits prod.splits option.splits)

text \<open>Everything a conversation asks satisfies a predicate, whatever the replies.\<close>

primrec asks :: "(http_request \<Rightarrow> bool) \<Rightarrow> 'a io \<Rightarrow> bool" where
  "asks P (Return x) \<longleftrightarrow> True"
| "asks P (Ask q k) \<longleftrightarrow> P q \<and> (\<forall>r. asks P (k r))"

lemma asks_bind: "asks P m \<Longrightarrow> (\<And>x. asks P (f x)) \<Longrightarrow> asks P (bind_io m f)"
  by (induction m) simp_all

lemma asks_play: "asks P m \<Longrightarrow> play m rs = (tr, y) \<Longrightarrow> list_all (P \<circ> fst) tr"
proof (induction m arbitrary: rs tr y)
  case (Ask q k)
  show ?case
  proof (cases rs)
    case (Cons r rs')
    obtain tr' x' where "play (k r) rs' = (tr', x')" by force
    with Ask.IH [of "k r" rs' tr'] Ask.prems Cons show ?thesis by auto
  qed (use Ask.prems in simp)
qed simp

section \<open>Reading a payload\<close>

text \<open>A decoder answers \<open>None\<close> where the code raises.\<close>

definition require :: "bool \<Rightarrow> unit option" where
  "require b = (if b then Some () else None)"

lemma require_Some [result_iff]: "require b = Some u \<longleftrightarrow> b"
  by (simp add: require_def)

lemma require_simps [simp]: "require True = Some ()" "require False = None"
  by (simp_all add: require_def)

definition field :: "(ustr \<times> py) list \<Rightarrow> string \<Rightarrow> py" where
  "field d k = (case dict_get d (lit k) of None \<Rightarrow> PNone | Some v \<Rightarrow> v)"

definition exact_dict :: "py \<Rightarrow> (ustr \<times> py) list option" where
  "exact_dict v = (case v of PDict d \<Rightarrow> Some d | _ \<Rightarrow> None)"

definition exact_list :: "py \<Rightarrow> py list option" where
  "exact_list v = (case v of PList xs \<Rightarrow> Some xs | _ \<Rightarrow> None)"

definition exact_int :: "py \<Rightarrow> int option" where
  "exact_int v = (case v of PInt i \<Rightarrow> Some i | _ \<Rightarrow> None)"

lemma exact_Some [result_iff]:
  "exact_dict v = Some d \<longleftrightarrow> v = PDict d" "exact_list v = Some xs \<longleftrightarrow> v = PList xs"
  "exact_int v = Some i \<longleftrightarrow> v = PInt i"
  by (auto simp: exact_dict_def exact_list_def exact_int_def split: py.splits)

lemma exact_simps [simp]:
  "exact_dict (PDict d) = Some d" "exact_list (PList xs) = Some xs" "exact_int (PInt i) = Some i"
  by (simp_all add: exact_dict_def exact_list_def exact_int_def)

primrec each :: "('a \<Rightarrow> 'b option) \<Rightarrow> 'a list \<Rightarrow> 'b list option" where
  "each f [] = Some []"
| "each f (x # xs) = do { y \<leftarrow> f x; ys \<leftarrow> each f xs; Some (y # ys) }"

lemma each_Some [result_iff]: "each f xs = Some ys \<longleftrightarrow> list_all2 (\<lambda>x y. f x = Some y) xs ys"
  by (induction xs arbitrary: ys) (auto simp: list_all2_Cons1 bind_eq_Some_conv)

section \<open>Text\<close>

definition char_in :: "string \<Rightarrow> nat \<Rightarrow> bool" where
  "char_in cs c \<longleftrightarrow> c \<in> set (lit cs)"

definition hex_text :: "nat \<Rightarrow> ustr \<Rightarrow> bool" where
  "hex_text n s \<longleftrightarrow> length s = n \<and> list_all (char_in ''0123456789abcdef'') s"

text \<open>\<open>urllib.parse.quote(text, safe="")\<close> of encodable text.\<close>

definition unreserved :: "nat \<Rightarrow> bool" where
  "unreserved c \<longleftrightarrow> (48 \<le> c \<and> c \<le> 57) \<or> (65 \<le> c \<and> c \<le> 90) \<or> (97 \<le> c \<and> c \<le> 122) \<or> char_in ''_.-~'' c"

definition upper_hex :: "nat \<Rightarrow> nat" where
  "upper_hex n = (if n < 10 then 48 + n else 55 + n)"

definition url_quote :: "ustr \<Rightarrow> ustr" where
  "url_quote s =
     concat (map (\<lambda>b. if unreserved b then [b] else [37, upper_hex (b div 16), upper_hex (b mod 16)]) (utf8_bytes s))"

end
