(* ===== verification/Multimodal.thy ===== *)
theory Multimodal
  imports Remote Redaction
begin

text \<open>
  Attachment descriptors, \<open>multimodal.py\<close>: what a recalled attachment may say about itself.

  Parameters: \<open>word\<close> is the word-character table of the redactor and \<open>printable\<close> that of
  \<open>str.isprintable\<close>.
\<close>

definition MAX_NESTED_ITEMS :: nat where
  "MAX_NESTED_ITEMS = 4096"

definition MAX_ATTACHMENTS :: nat where
  "MAX_ATTACHMENTS = 8"

definition attachment_id :: "ustr \<Rightarrow> bool" where
  "attachment_id s \<longleftrightarrow>
     s \<noteq> [] \<and> length s \<le> 128 \<and>
     list_all (\<lambda>c. (48 \<le> c \<and> c \<le> 57) \<or> (65 \<le> c \<and> c \<le> 90) \<or> (97 \<le> c \<and> c \<le> 122) \<or> char_in ''_-'' c) s"

text \<open>\<open>[a-z0-9.+-]+/[a-z0-9.+-]+\<close>, matched in full.\<close>

definition media_char :: "nat \<Rightarrow> bool" where
  "media_char c \<longleftrightarrow> (97 \<le> c \<and> c \<le> 122) \<or> (48 \<le> c \<and> c \<le> 57) \<or> char_in ''.+-'' c"

definition media_type :: "ustr \<Rightarrow> bool" where
  "media_type s \<longleftrightarrow>
     (case dropWhile media_char s of
        [] \<Rightarrow> False
      | c # subtype \<Rightarrow> c = 47 \<and> takeWhile media_char s \<noteq> [] \<and> subtype \<noteq> [] \<and> list_all media_char subtype)"

definition safe_filename :: "(nat \<Rightarrow> bool) \<Rightarrow> (nat \<Rightarrow> bool) \<Rightarrow> ustr \<Rightarrow> ustr" where
  "safe_filename word printable name =
     (let kept = take 200 (filter (\<lambda>c. printable c \<and> \<not> char_in [CHR ''/'', CHR 0x5C] c) (redact_sensitive_text word name))
      in if kept = [] then lit ''attachment'' else kept)"

definition attachment_prefix :: "ustr \<Rightarrow> ustr" where
  "attachment_prefix bank = lit ''/v1/default/banks/'' @ url_quote bank @ lit ''/attachments/''"

definition attachment_descriptor :: "(nat \<Rightarrow> bool) \<Rightarrow> (nat \<Rightarrow> bool) \<Rightarrow> ustr \<Rightarrow> py \<Rightarrow> json option" where
  "attachment_descriptor word printable bank item =
     (case item of
        PDict d \<Rightarrow>
          (case (field d ''id'', field d ''hash'', field d ''kind'', field d ''media_type'', field d ''byte_size'', field d ''url'') of
             (PStr identifier, PStr digest, PStr kind, PStr media, PInt octets, url) \<Rightarrow>
               (if \<not> attachment_id identifier \<or> \<not> hex_text 64 digest \<or> kind \<notin> {lit ''image'', lit ''file''} \<or>
                   100 < length media \<or> \<not> media_type media \<or> octets < 0 \<or> 1073741824 < octets then None
                else if url \<noteq> PStr (attachment_prefix bank @ identifier) then None
                else Some (JObj
                  ([(''id'', JStr identifier), (''hash'', JStr digest), (''kind'', JStr kind),
                    (''media_type'', JStr media), (''byte_size'', JInt octets),
                    (''url'', JStr (attachment_prefix bank @ identifier))] @
                   (case field d ''filename'' of
                      PStr name \<Rightarrow> if length name \<le> 200 then [(''filename'', JStr (safe_filename word printable name))] else []
                    | _ \<Rightarrow> []))))
           | _ \<Rightarrow> None)
      | _ \<Rightarrow> None)"

text \<open>Items that are not descriptors are skipped; the scan ends with the eighth descriptor.\<close>

definition attachment_descriptors :: "(nat \<Rightarrow> bool) \<Rightarrow> (nat \<Rightarrow> bool) \<Rightarrow> ustr \<Rightarrow> py \<Rightarrow> json list" where
  "attachment_descriptors word printable bank v =
     (case v of
        PList items \<Rightarrow>
          take MAX_ATTACHMENTS
            (List.map_filter (attachment_descriptor word printable bank) (take MAX_NESTED_ITEMS items))
      | _ \<Rightarrow> [])"

lemma length_attachment_descriptors: "length (attachment_descriptors word printable bank v) \<le> MAX_ATTACHMENTS"
  by (simp add: attachment_descriptors_def split: py.splits)

end
