(* ===== verification/Client.thy ===== *)
theory Client
  imports Multimodal
begin

text \<open>
  The HTTP client, \<open>client.py\<close>: the transport's classification of an exchange, the request bodies, the
  strict decoders of the responses and the adapter that maps every failure to one sanitized error.

  Parameters: \<open>loads\<close> is \<open>json.loads\<close> of a body; \<open>word\<close> and \<open>printable\<close> are the tables of
  \<open>Multimodal\<close>. The TLS, DNS and connection failures of the HTTP library enter as the constructors of
  \<open>http_exchange\<close>. Log events are not modelled.
\<close>

section \<open>Constants\<close>

definition HINDSIGHT_MAX_RESPONSE_BYTES :: int where
  "HINDSIGHT_MAX_RESPONSE_BYTES = 16 * 1024 * 1024"

definition HINDSIGHT_MAX_RECALL_RESPONSE_BYTES :: int where
  "HINDSIGHT_MAX_RECALL_RESPONSE_BYTES = 2 * 1024 * 1024"

definition HINDSIGHT_MAX_RECALL_RESULTS :: nat where
  "HINDSIGHT_MAX_RECALL_RESULTS = 4096"

definition HINDSIGHT_MAX_REFLECT_RESPONSE_BYTES :: int where
  "HINDSIGHT_MAX_REFLECT_RESPONSE_BYTES = 1024 * 1024"

definition HINDSIGHT_ERROR_REASONS :: "string list" where
  "HINDSIGHT_ERROR_REASONS =
     [''authentication_failed'', ''bank_config_failed'', ''cancelled'', ''client_close_failed'',
      ''client_initialization_failed'', ''client_status'', ''connection_error'', ''dns_error'',
      ''endpoint_not_found'', ''malformed_json'', ''mission_update_failed'', ''non_json'', ''rate_limited'',
      ''recall_failed'', ''reflect_failed'', ''redirect'', ''response_oversized'', ''retain_failed'',
      ''schema_invalid'', ''server_status'', ''session_closed'', ''timeout'', ''tls_error'',
      ''transport_error'', ''unexpected_error'', ''unexpected_status'']"

section \<open>Errors\<close>

record client_error =
  ce_category :: string
  ce_reason :: string
  ce_status :: "int option"

definition make_client_error :: "string \<Rightarrow> string \<Rightarrow> int option \<Rightarrow> client_error" where
  "make_client_error category reason status =
     \<lparr>ce_category = category,
      ce_reason = (if reason \<in> set HINDSIGHT_ERROR_REASONS then reason else ''unexpected_error''),
      ce_status = status\<rparr>"

text \<open>\<open>asyncio.CancelledError\<close>, \<open>HindsightClientError\<close>, any other exception.\<close>

datatype client_exn =
    TaskCancelled
  | ClientError client_error
  | CallError

section \<open>The transport\<close>

datatype loads_result = Loaded py | NotJson | LoadsRaised

record http_answer =
  an_status :: int
  an_content_type :: ustr
  an_chunks :: "bytes list"

text \<open>What the HTTP library makes of one request.\<close>

datatype http_exchange =
    ExchangeCancelled
  | ExchangeTimedOut
  | TlsFailed
  | DnsFailed
  | ConnectionFailed
  | ExchangeRaised
  | Answered http_answer

definition status_outcome :: "int \<Rightarrow> string" where
  "status_outcome status =
     (if 300 \<le> status \<and> status < 400 then ''redirect''
      else if status = 401 \<or> status = 403 then ''authentication_failed''
      else if status = 404 then ''endpoint_not_found''
      else if status = 429 then ''rate_limited''
      else if 400 \<le> status \<and> status < 500 then ''client_status''
      else if 500 \<le> status \<and> status < 600 then ''server_status''
      else ''unexpected_status'')"

text \<open>Chunks are read until the body exceeds the limit: the size then, or the whole body.\<close>

fun read_body :: "int \<Rightarrow> bytes \<Rightarrow> bytes list \<Rightarrow> nat + bytes" where
  "read_body limit body [] = Inr body"
| "read_body limit body (chunk # chunks) =
     (if limit < int (length (body @ chunk)) then Inl (length (body @ chunk))
      else read_body limit (body @ chunk) chunks)"

text \<open>
  \<open>str.lower\<close> is taken on ASCII: no other character has a lower case that contributes to the two
  media types tested for.
\<close>

definition is_json_media :: "ustr \<Rightarrow> bool" where
  "is_json_media content_type \<longleftrightarrow>
     (let media = ascii_lower (strip (takeWhile (\<lambda>c. c \<noteq> 59) content_type))
      in media = lit ''application/json'' \<or> suffix (lit ''+json'') media)"

definition page_created :: "http_request \<Rightarrow> int \<Rightarrow> bool" where
  "page_created q status \<longleftrightarrow>
     status = 201 \<and> hq_method q = POST \<and> suffix (lit ''/knowledge-base/pages'') (hq_path q)"

definition read_answer :: "(bytes \<Rightarrow> loads_result) \<Rightarrow> http_request \<Rightarrow> int \<Rightarrow> http_answer \<Rightarrow> transport_reply" where
  "read_answer loads q limit a =
     (if an_status a \<noteq> 200 \<and> \<not> page_created q (an_status a)
      then ReplyError (status_outcome (an_status a)) 0 (Some (an_status a))
      else if \<not> is_json_media (an_content_type a) then ReplyError ''non_json'' 0 (Some (an_status a))
      else
        (case read_body limit [] (an_chunks a) of
           Inl n \<Rightarrow> ReplyError ''response_oversized'' n (Some (an_status a))
         | Inr body \<Rightarrow>
             (case loads body of
                Loaded payload \<Rightarrow> Reply \<lparr>js_payload = payload, js_bytes = length body, js_status = an_status a\<rparr>
              | NotJson \<Rightarrow> ReplyError ''malformed_json'' (length body) (Some (an_status a))
              | LoadsRaised \<Rightarrow> ReplyError ''transport_error'' 0 None)))"

definition transport_request ::
    "(bytes \<Rightarrow> loads_result) \<Rightarrow> bool \<Rightarrow> http_exchange \<Rightarrow> http_request \<Rightarrow> transport_reply" where
  "transport_request loads session_closed ex q =
     (let limit = (case hq_limit q of None \<Rightarrow> HINDSIGHT_MAX_RESPONSE_BYTES | Some n \<Rightarrow> n) in
      if session_closed then ReplyError ''session_closed'' 0 None
      else if limit \<le> 0 \<or> HINDSIGHT_MAX_RESPONSE_BYTES < limit then ReplyError ''transport_error'' 0 None
      else
        (case ex of
           ExchangeCancelled \<Rightarrow> ReplyCancelled
         | ExchangeTimedOut \<Rightarrow> ReplyError ''timeout'' 0 None
         | TlsFailed \<Rightarrow> ReplyError ''tls_error'' 0 None
         | DnsFailed \<Rightarrow> ReplyError ''dns_error'' 0 None
         | ConnectionFailed \<Rightarrow> ReplyError ''connection_error'' 0 None
         | ExchangeRaised \<Rightarrow> ReplyError ''transport_error'' 0 None
         | Answered a \<Rightarrow> read_answer loads q limit a))"

section \<open>One observed call\<close>

definition observed :: "string \<Rightarrow> (py \<Rightarrow> 'a option) \<Rightarrow> transport_reply \<Rightarrow> client_exn + 'a" where
  "observed category decoder reply =
     (case reply of
        ReplyCancelled \<Rightarrow> Inl TaskCancelled
      | ReplyError reason _ status \<Rightarrow> Inl (ClientError (make_client_error category reason status))
      | ReplyRaised \<Rightarrow> Inl (ClientError (make_client_error category ''transport_error'' None))
      | Reply response \<Rightarrow>
          (case decoder (js_payload response) of
             None \<Rightarrow> Inl (ClientError (make_client_error category ''schema_invalid'' None))
           | Some result \<Rightarrow> Inr result))"

definition observed_http_call :: "string \<Rightarrow> http_request \<Rightarrow> (py \<Rightarrow> 'a option) \<Rightarrow> (client_exn + 'a) io" where
  "observed_http_call category q decoder = Ask q (\<lambda>reply. Return (observed category decoder reply))"

text \<open>The next statement of a coroutine, unless this one raised.\<close>

definition then_io :: "('e + 'a) io \<Rightarrow> ('a \<Rightarrow> ('e + 'b) io) \<Rightarrow> ('e + 'b) io" where
  "then_io m f = bind_io m (\<lambda>r. case r of Inl e \<Rightarrow> Return (Inl e) | Inr x \<Rightarrow> f x)"

end
