(* ===== verification/Responses.thy ===== *)
theory Responses
  imports Client Evidence
begin

text \<open>
  The decoders of \<open>client.py\<close>: each takes a parsed payload and answers \<open>None\<close> where the code raises,
  which the adapter turns into the reason \<open>schema_invalid\<close>. The trace of a recall is the exception: it is
  projected to allowlisted names and bounded numbers, and whatever does not fit is dropped.
\<close>

section \<open>Typed fields\<close>

definition required_str :: "(ustr \<times> py) list \<Rightarrow> string \<Rightarrow> ustr option" where
  "required_str d k = py_str (field d k)"

definition required_bool :: "(ustr \<times> py) list \<Rightarrow> string \<Rightarrow> bool option" where
  "required_bool d k = py_bool (field d k)"

definition optional_str :: "(ustr \<times> py) list \<Rightarrow> string \<Rightarrow> ustr option option" where
  "optional_str d k =
     (case field d k of PNone \<Rightarrow> Some None | PStr s \<Rightarrow> Some (Some s) | _ \<Rightarrow> None)"

definition is_number :: "py \<Rightarrow> bool" where
  "is_number v \<longleftrightarrow> (case v of PInt _ \<Rightarrow> True | PFloat _ \<Rightarrow> True | _ \<Rightarrow> False)"

definition required_number :: "(ustr \<times> py) list \<Rightarrow> string \<Rightarrow> py option" where
  "required_number d k = (if is_number (field d k) then Some (field d k) else None)"

definition optional_number :: "(ustr \<times> py) list \<Rightarrow> string \<Rightarrow> py option option" where
  "optional_number d k =
     (if field d k = PNone then Some None else if is_number (field d k) then Some (Some (field d k)) else None)"

definition optional_string_list :: "(ustr \<times> py) list \<Rightarrow> string \<Rightarrow> ustr list option option" where
  "optional_string_list d k =
     (case field d k of
        PNone \<Rightarrow> Some None
      | PList xs \<Rightarrow>
          if MAX_NESTED_ITEMS < length xs then None else map_option Some (each py_str xs)
      | _ \<Rightarrow> None)"

definition optional_string_dict :: "(ustr \<times> py) list \<Rightarrow> string \<Rightarrow> (ustr \<times> ustr) list option option" where
  "optional_string_dict d k =
     (case field d k of
        PNone \<Rightarrow> Some None
      | PDict kvs \<Rightarrow>
          if MAX_NESTED_ITEMS < length kvs then None
          else map_option Some (each (\<lambda>(key, v). map_option (Pair key) (py_str v)) kvs)
      | _ \<Rightarrow> None)"

section \<open>Retention, missions\<close>

definition decode_retain_confirmation :: "ustr \<Rightarrow> py \<Rightarrow> bool option" where
  "decode_retain_confirmation bank v = do {
     d \<leftarrow> exact_dict v;
     success \<leftarrow> required_bool d ''success'';
     response_bank \<leftarrow> required_str d ''bank_id'';
     items_count \<leftarrow> exact_int (field d ''items_count'');
     asynchronous \<leftarrow> required_bool d ''async'';
     Some (success \<and> response_bank = bank \<and> items_count = 1 \<and> \<not> asynchronous) }"

record mission_value =
  mv_present :: bool
  mv_value :: "ustr option"

record mission_snapshot =
  mp_retain :: mission_value
  mp_observations :: mission_value

definition read_mission_value :: "(ustr \<times> py) list \<Rightarrow> string \<Rightarrow> mission_value option" where
  "read_mission_value config k =
     (case dict_get config (lit k) of
        None \<Rightarrow> Some \<lparr>mv_present = False, mv_value = None\<rparr>
      | Some PNone \<Rightarrow> Some \<lparr>mv_present = True, mv_value = None\<rparr>
      | Some (PStr s) \<Rightarrow> Some \<lparr>mv_present = True, mv_value = Some s\<rparr>
      | Some _ \<Rightarrow> None)"

definition validate_bank_config_response_shape :: "py \<Rightarrow> (ustr \<times> (ustr \<times> py) list) option" where
  "validate_bank_config_response_shape v = do {
     d \<leftarrow> exact_dict v;
     bank \<leftarrow> required_str d ''bank_id'';
     config \<leftarrow> exact_dict (field d ''config'');
     overrides \<leftarrow> exact_dict (field d ''overrides'');
     Some (bank, config) }"

definition decode_bank_config :: "ustr \<Rightarrow> py \<Rightarrow> mission_snapshot option" where
  "decode_bank_config bank v = do {
     (response_bank, config) \<leftarrow> validate_bank_config_response_shape v;
     _ \<leftarrow> require (response_bank = bank);
     retain \<leftarrow> read_mission_value config ''retain_mission'';
     observations \<leftarrow> read_mission_value config ''observations_mission'';
     Some \<lparr>mp_retain = retain, mp_observations = observations\<rparr> }"

definition decode_mission_update :: "py \<Rightarrow> unit option" where
  "decode_mission_update v = map_option (\<lambda>_. ()) (validate_bank_config_response_shape v)"

section \<open>Recall results\<close>

record recall_scores =
  sc_final :: py
  sc_reranker :: "py option"
  sc_semantic :: "py option"
  sc_keyword :: "py option"

record decoded_result =
  dr_id :: ustr
  dr_text :: ustr
  dr_type :: "ustr option"
  dr_entities :: "ustr list option"
  dr_context :: "ustr option"
  dr_occurred_start :: "ustr option"
  dr_occurred_end :: "ustr option"
  dr_mentioned_at :: "ustr option"
  dr_document_id :: "ustr option"
  dr_metadata :: "(ustr \<times> ustr) list option"
  dr_chunk_id :: "ustr option"
  dr_tags :: "ustr list option"
  dr_source_fact_ids :: "ustr list option"
  dr_scores :: "recall_scores option"
  dr_attachments :: "json list"

definition optional_scores :: "py \<Rightarrow> recall_scores option option" where
  "optional_scores v =
     (if v = PNone then Some None
      else do {
        d \<leftarrow> exact_dict v;
        final \<leftarrow> required_number d ''final'';
        reranker \<leftarrow> optional_number d ''reranker'';
        semantic \<leftarrow> optional_number d ''semantic'';
        keyword \<leftarrow> optional_number d ''keyword'';
        Some (Some \<lparr>sc_final = final, sc_reranker = reranker, sc_semantic = semantic, sc_keyword = keyword\<rparr>) })"

definition decode_recall_result ::
    "(nat \<Rightarrow> bool) \<Rightarrow> (nat \<Rightarrow> bool) \<Rightarrow> ustr \<Rightarrow> bool \<Rightarrow> py \<Rightarrow> decoded_result option" where
  "decode_recall_result word printable bank include v = do {
     d \<leftarrow> exact_dict v;
     identifier \<leftarrow> required_str d ''id'';
     body \<leftarrow> required_str d ''text'';
     kind \<leftarrow> optional_str d ''type'';
     entities \<leftarrow> optional_string_list d ''entities'';
     ctx \<leftarrow> optional_str d ''context'';
     occurred_start \<leftarrow> optional_str d ''occurred_start'';
     occurred_end \<leftarrow> optional_str d ''occurred_end'';
     mentioned_at \<leftarrow> optional_str d ''mentioned_at'';
     document \<leftarrow> optional_str d ''document_id'';
     metadata \<leftarrow> optional_string_dict d ''metadata'';
     chunk \<leftarrow> optional_str d ''chunk_id'';
     tags \<leftarrow> optional_string_list d ''tags'';
     sources \<leftarrow> optional_string_list d ''source_fact_ids'';
     scores \<leftarrow> optional_scores (field d ''scores'');
     Some \<lparr>dr_id = identifier, dr_text = body, dr_type = kind, dr_entities = entities, dr_context = ctx,
           dr_occurred_start = occurred_start, dr_occurred_end = occurred_end, dr_mentioned_at = mentioned_at,
           dr_document_id = document, dr_metadata = metadata, dr_chunk_id = chunk, dr_tags = tags,
           dr_source_fact_ids = sources, dr_scores = scores,
           dr_attachments = (if include then attachment_descriptors word printable bank (field d ''attachments'') else [])\<rparr> }"

text \<open>New attachments of the cited source facts, in order, up to eight in all.\<close>

definition add_attachment :: "json \<Rightarrow> json list \<Rightarrow> json list" where
  "add_attachment a atts = (if a \<notin> set atts \<and> length atts < MAX_ATTACHMENTS then atts @ [a] else atts)"

fun inherit_attachments :: "(ustr, decoded_result) dict \<Rightarrow> ustr list \<Rightarrow> json list \<Rightarrow> json list" where
  "inherit_attachments facts [] atts = atts"
| "inherit_attachments facts (source # sources) atts =
     (case dict_get facts source of
        None \<Rightarrow> inherit_attachments facts sources atts
      | Some origin \<Rightarrow>
          (let atts' = fold add_attachment (dr_attachments origin) atts in
           if MAX_ATTACHMENTS \<le> length atts' then atts' else inherit_attachments facts sources atts'))"

definition with_source_attachments :: "(ustr, decoded_result) dict \<Rightarrow> decoded_result \<Rightarrow> decoded_result" where
  "with_source_attachments facts r =
     (if dr_type r = Some (lit ''observation'')
      then r\<lparr>dr_attachments :=
               inherit_attachments facts (case dr_source_fact_ids r of None \<Rightarrow> [] | Some ids \<Rightarrow> ids) (dr_attachments r)\<rparr>
      else r)"

section \<open>The trace of a recall\<close>

definition SAFE_TRACE_PHASE_NAMES :: "string list" where
  "SAFE_TRACE_PHASE_NAMES =
     [''backend_acquisition'', ''chunk_fetch'', ''combined_scoring'', ''connection_wait'', ''entity_build'',
      ''generate_query_embedding'', ''parallel_retrieval'', ''prefer_observations_dedup'', ''reranking'',
      ''result_serialization'', ''retrieval_bm25'', ''retrieval_graph'', ''retrieval_semantic'',
      ''retrieval_temporal'', ''rrf_merge'', ''semaphore_wait'', ''source_fact_fetch'', ''token_filtering'',
      ''trace_finalize'']"

text \<open>In the order in which \<open>sorted\<close> visits them.\<close>

definition SAFE_TRACE_DETAIL_NAMES :: "string list" where
  "SAFE_TRACE_DETAIL_NAMES =
     [''bm25_count'', ''candidate_count'', ''candidates_merged'', ''candidates_reranked'',
      ''candidates_scored'', ''chunk_tokens'', ''chunks_returned'', ''diagnostic'', ''entities_returned'',
      ''graph_count'', ''max_tokens'', ''observations_considered'', ''result_count'', ''results_selected'',
      ''results_serialized'', ''semantic_count'', ''source_facts_returned'', ''temporal_count'', ''tokens_used'']"

definition MAX_TRACE_PHASES :: nat where
  "MAX_TRACE_PHASES = 24"

definition MAX_TRACE_DETAILS :: nat where
  "MAX_TRACE_DETAILS = 8"

definition MAX_TRACE_DURATION_SECONDS :: real where
  "MAX_TRACE_DURATION_SECONDS = 86400"

definition MAX_TRACE_DETAIL_NUMBER :: int where
  "MAX_TRACE_DETAIL_NUMBER = 1000000000"

record phase_metric =
  ph_name :: string
  ph_duration :: real
  ph_details :: "(string \<times> py) list"

record recall_trace =
  tr_total :: "real option"
  tr_phases :: "phase_metric list"
  tr_counts :: "(string \<times> nat) list"

definition optional_finite_number :: "py \<Rightarrow> real option" where
  "optional_finite_number v =
     (case v of PInt i \<Rightarrow> float_of_int i | PFloat f \<Rightarrow> finite_float f | _ \<Rightarrow> None)"

definition safe_trace_detail :: "py \<Rightarrow> py option" where
  "safe_trace_detail v =
     (case v of
        PBool _ \<Rightarrow> Some v
      | PInt i \<Rightarrow> if \<bar>i\<bar> \<le> MAX_TRACE_DETAIL_NUMBER then Some v else None
      | PFloat (Fin x) \<Rightarrow> if \<bar>x\<bar> \<le> of_int MAX_TRACE_DETAIL_NUMBER then Some v else None
      | _ \<Rightarrow> None)"

text \<open>The duration when it is in range.\<close>

definition trace_duration :: "py \<Rightarrow> real option" where
  "trace_duration v =
     (case optional_finite_number v of
        Some x \<Rightarrow> if 0 \<le> x \<and> x \<le> MAX_TRACE_DURATION_SECONDS then Some x else None
      | None \<Rightarrow> None)"

definition decode_details :: "py \<Rightarrow> (string \<times> py) list" where
  "decode_details v =
     (case v of
        PDict d \<Rightarrow>
          take MAX_TRACE_DETAILS
            (List.map_filter (\<lambda>name. map_option (Pair name) (safe_trace_detail (field d name))) SAFE_TRACE_DETAIL_NAMES)
      | _ \<Rightarrow> [])"

definition safe_phase_name :: "py \<Rightarrow> string option" where
  "safe_phase_name v = (case v of PStr s \<Rightarrow> List.find (\<lambda>name. lit name = s) SAFE_TRACE_PHASE_NAMES | _ \<Rightarrow> None)"

definition decode_phase :: "py \<Rightarrow> phase_metric option" where
  "decode_phase v =
     (case v of
        PDict d \<Rightarrow>
          (case (safe_phase_name (field d ''phase_name''), trace_duration (field d ''duration_seconds'')) of
             (Some name, Some duration) \<Rightarrow>
               Some \<lparr>ph_name = name, ph_duration = duration, ph_details = decode_details (field d ''details'')\<rparr>
           | _ \<Rightarrow> None)
      | _ \<Rightarrow> None)"

text \<open>
  A dictionary of phases is read in the iteration order of the frozen set of names, which Python does
  not fix: \<open>order\<close> is that order.
\<close>

definition phase_item :: "(ustr \<times> py) list \<Rightarrow> string \<Rightarrow> py option" where
  "phase_item d name =
     (case field d name of
        PDict phase \<Rightarrow> Some (PDict (dict_set phase (lit ''phase_name'') (PStr (lit name))))
      | v \<Rightarrow>
          if is_number v then
            Some (PDict [(lit ''phase_name'', PStr (lit name)), (lit ''duration_seconds'', v), (lit ''details'', PDict [])])
          else None)"

definition decode_phase_metrics :: "string list \<Rightarrow> py \<Rightarrow> phase_metric list" where
  "decode_phase_metrics order v =
     (case v of
        PList items \<Rightarrow> List.map_filter decode_phase (take MAX_TRACE_PHASES items)
      | PDict d \<Rightarrow> List.map_filter decode_phase (take MAX_TRACE_PHASES (List.map_filter (phase_item d) order))
      | _ \<Rightarrow> [])"

definition collection_size :: "py \<Rightarrow> nat option" where
  "collection_size v = (case v of PList xs \<Rightarrow> Some (length xs) | PDict d \<Rightarrow> Some (length d) | _ \<Rightarrow> None)"

definition retrieval_candidate_count :: "py list \<Rightarrow> nat" where
  "retrieval_candidate_count items =
     fold (\<lambda>item count. case item of
             PDict d \<Rightarrow>
               (case collection_size (field d ''results'') of None \<Rightarrow> count | Some n \<Rightarrow> min 1000000 (count + n))
           | _ \<Rightarrow> count)
       (take MAX_NESTED_ITEMS items) 0"

definition TRACE_COLLECTIONS :: "string list" where
  "TRACE_COLLECTIONS = [''entry_points'', ''rrf_merged'', ''reranked'', ''pruned'', ''final_results'', ''visits'']"

definition trace_counts :: "(ustr \<times> py) list \<Rightarrow> (string \<times> nat) list" where
  "trace_counts trace =
     List.map_filter (\<lambda>name. map_option (\<lambda>n. (name, min n 1000000)) (collection_size (field trace name))) TRACE_COLLECTIONS @
     (case field trace ''retrieval_results'' of
        PList xs \<Rightarrow> [(''retrieval_methods'', min (length xs) 1000000), (''retrieval_candidates'', retrieval_candidate_count xs)]
      | PDict d \<Rightarrow> [(''retrieval_methods'', min (length d) 1000000),
                    (''retrieval_candidates'', retrieval_candidate_count (map snd d))]
      | _ \<Rightarrow> [])"

definition decode_recall_trace :: "string list \<Rightarrow> py \<Rightarrow> recall_trace option" where
  "decode_recall_trace order v =
     (case v of
        PDict trace \<Rightarrow>
          (let total = (case field trace ''summary'' of PDict s \<Rightarrow> trace_duration (field s ''total_duration_seconds'') | _ \<Rightarrow> None);
               phases = (case field trace ''summary'' of PDict s \<Rightarrow> decode_phase_metrics order (field s ''phase_metrics'') | _ \<Rightarrow> []);
               counts = trace_counts trace
           in if total = None \<and> phases = [] \<and> counts = [] then None
              else Some \<lparr>tr_total = total, tr_phases = phases, tr_counts = counts\<rparr>)
      | _ \<Rightarrow> None)"

section \<open>Whole responses\<close>

record recall_response =
  rr_results :: "decoded_result list"
  rr_source_facts :: "(ustr, decoded_result) dict option"
  rr_trace :: "recall_trace option"

definition decode_source_facts ::
    "(nat \<Rightarrow> bool) \<Rightarrow> (nat \<Rightarrow> bool) \<Rightarrow> ustr \<Rightarrow> bool \<Rightarrow> py \<Rightarrow> (ustr, decoded_result) dict option option" where
  "decode_source_facts word printable bank include v =
     (case v of
        PNone \<Rightarrow> Some None
      | PDict facts \<Rightarrow>
          if HINDSIGHT_MAX_RECALL_RESULTS < length facts then None
          else map_option Some
            (each (\<lambda>(key, item). map_option (Pair key) (decode_recall_result word printable bank include item)) facts)
      | _ \<Rightarrow> None)"

definition decode_recall_response ::
    "(nat \<Rightarrow> bool) \<Rightarrow> (nat \<Rightarrow> bool) \<Rightarrow> string list \<Rightarrow> ustr \<Rightarrow> bool \<Rightarrow> py \<Rightarrow> recall_response option" where
  "decode_recall_response word printable order bank include v = do {
     d \<leftarrow> exact_dict v;
     raw \<leftarrow> exact_list (field d ''results'');
     _ \<leftarrow> require (length raw \<le> HINDSIGHT_MAX_RECALL_RESULTS);
     results \<leftarrow> each (decode_recall_result word printable bank include) raw;
     facts \<leftarrow> decode_source_facts word printable bank include (field d ''source_facts'');
     Some \<lparr>rr_results =
             (case facts of
                Some fs \<Rightarrow> if include \<and> fs \<noteq> [] then map (with_source_attachments fs) results else results
              | None \<Rightarrow> results),
           rr_source_facts = facts,
           rr_trace = decode_recall_trace order (field d ''trace'')\<rparr> }"

definition memory_attachments :: "(nat \<Rightarrow> bool) \<Rightarrow> (nat \<Rightarrow> bool) \<Rightarrow> ustr \<Rightarrow> py \<Rightarrow> json list \<Rightarrow> json list" where
  "memory_attachments word printable bank memory atts =
     (case memory of
        PDict m \<Rightarrow>
          (if MAX_ATTACHMENTS \<le> length atts then atts
           else atts @ take (MAX_ATTACHMENTS - length atts) (attachment_descriptors word printable bank (field m ''attachments'')))
      | _ \<Rightarrow> atts)"

definition decode_reflect_response ::
    "(nat \<Rightarrow> bool) \<Rightarrow> (nat \<Rightarrow> bool) \<Rightarrow> ustr \<Rightarrow> bool \<Rightarrow> py \<Rightarrow> (ustr \<times> json list) option" where
  "decode_reflect_response word printable bank include v = do {
     d \<leftarrow> exact_dict v;
     body \<leftarrow> required_str d ''text'';
     _ \<leftarrow> require (strip body \<noteq> []);
     encoded \<leftarrow> encode_utf8 body;
     _ \<leftarrow> require (int (length encoded) \<le> HINDSIGHT_MAX_REFLECT_TEXT_BYTES);
     Some (body,
       (case field d ''based_on'' of
          PDict based \<Rightarrow>
            (case field based ''memories'' of
               PList memories \<Rightarrow>
                 if include then fold (memory_attachments word printable bank) (take MAX_NESTED_ITEMS memories) [] else []
             | _ \<Rightarrow> [])
        | _ \<Rightarrow> [])) }"

text \<open>What the formatter reads of a decoded result.\<close>

definition formatted_result :: "decoded_result \<Rightarrow> recall_result" where
  "formatted_result r =
     (let text_of = (\<lambda>s. case s of None \<Rightarrow> PNone | Some t \<Rightarrow> PStr t) in
      \<lparr>rs_text = Some (PStr (dr_text r)), rs_type = text_of (dr_type r),
       rs_occurred_start = text_of (dr_occurred_start r), rs_occurred_end = text_of (dr_occurred_end r),
       rs_mentioned_at = text_of (dr_mentioned_at r), rs_attachments = dr_attachments r\<rparr>)"

end
