(* ===== verification/ConfigParse.thy ===== *)
theory ConfigParse
  imports Settings Redaction
begin

text \<open>
  The value parsers of \<open>config.py\<close>. A configuration value is a \<open>py\<close> value: what
  \<open>json.loads\<close>, the environment and the injected mapping can hold. Each \<open>raise\<close> is a
  constructor of \<open>config_error\<close> that carries the field it names; a parser returns
  \<open>config_error + 'a\<close> and \<open>and_then\<close> runs parsers one after the other.
\<close>

section \<open>Errors\<close>

text \<open>The errors of \<open>summary_policy.py\<close> and of \<open>config.py\<close>.\<close>

datatype policy_error = PolicyKeys | PolicyMode | PolicyTrigger | PolicyCronFields | PolicyCron
  | PolicyExclusive | PolicyBudget | PolicyScope | PolicyFixed

datatype config_error =
    NotMapping string
  | UnknownKeys string "ustr list"
  | BadUrl string
  | ApiKeyInjected
  | ApiKeyNotText
  | NotExactText string
  | HasControl string
  | NotScalarText string
  | NotOptionalText string
  | NotBool string
  | NotOneOf string "string list"
  | NotPositiveInt string int
  | NotNumber string
  | NotStringList string
  | EmptyList string
  | BadTypes
  | DuplicateEntries string
  | TooManyTags string
  | TagTooLong string
  | TagsNotCanonical
  | TagsCollide
  | BadScore string
  | BadScopes
  | BadPath string
  | PathNotResolved string
  | PathOutside string
  | BadRoots
  | RootNotAbsolute
  | RootTooBroad
  | RootNotResolved
  | RootsMissing
  | BadHome
  | ProfileUnreadable
  | ProfileMalformed
  | DuplicateJsonKey
  | SecretKey ustr
  | NotPrincipalList
  | DuplicatePrincipal nat
  | ModelsDisabled
  | BadPolicy policy_error
  | ModelsScoped
  | SharedScopeNeedsPrincipal
  | DeadlineBudget
  | SegmentTooSmall int
  | SegmentTooLarge
  | AdmissionTooSmall
  | RetryOrder

section \<open>Text, literals and numbers\<close>

definition control_char :: "nat \<Rightarrow> bool" where
  "control_char c \<longleftrightarrow> c < 32 \<or> c = 127"

definition contains_control :: "bool \<Rightarrow> ustr \<Rightarrow> bool" where
  "contains_control allow_newline s \<longleftrightarrow>
     list_ex (\<lambda>c. control_char c \<and> \<not> (allow_newline \<and> (c = 10 \<or> c = 13 \<or> c = 9))) s"

definition get_or :: "(ustr \<times> py) list \<Rightarrow> string \<Rightarrow> py \<Rightarrow> py" where
  "get_or values key fallback = (case dict_get values (lit key) of None \<Rightarrow> fallback | Some v \<Rightarrow> v)"

definition expect_mapping :: "py \<Rightarrow> string \<Rightarrow> config_error + (ustr \<times> py) list" where
  "expect_mapping v field = (case v of PDict kvs \<Rightarrow> Inr kvs | _ \<Rightarrow> Inl (NotMapping field))"

definition check_unknown_keys :: "(ustr \<times> py) list \<Rightarrow> string list \<Rightarrow> string \<Rightarrow> config_error + unit" where
  "check_unknown_keys values allowed location =
     (let unknown = sort (remdups (filter (\<lambda>k. k \<notin> lit ` set allowed) (map fst values))) in
      if unknown \<noteq> [] then Inl (UnknownKeys location unknown) else Inr ())"

definition parse_exact_nonempty_string :: "py \<Rightarrow> string \<Rightarrow> config_error + ustr" where
  "parse_exact_nonempty_string v field =
     (case v of
        PStr s \<Rightarrow>
          if s = [] \<or> strip s \<noteq> s then Inl (NotExactText field)
          else if contains_control False s then Inl (HasControl field)
          else if list_ex surrogate s then Inl (NotScalarText field)
          else Inr s
      | _ \<Rightarrow> Inl (NotExactText field))"

definition parse_bank_id :: "py \<Rightarrow> config_error + ustr" where
  "parse_bank_id v = parse_exact_nonempty_string v ''bank_id''"

definition parse_api_key :: "py \<Rightarrow> config_error + ustr option" where
  "parse_api_key v =
     (case v of
        PNone \<Rightarrow> Inr None
      | PStr s \<Rightarrow> if s = [] then Inr None else Inr (Some s)
      | _ \<Rightarrow> Inl ApiKeyNotText)"

definition parse_optional_text :: "py \<Rightarrow> string \<Rightarrow> config_error + ustr option" where
  "parse_optional_text v field =
     (case v of
        PNone \<Rightarrow> Inr None
      | PStr s \<Rightarrow>
          if blank s then Inl (NotOptionalText field)
          else if contains_control True s then Inl (HasControl field)
          else Inr (Some s)
      | _ \<Rightarrow> Inl (NotOptionalText field))"

definition parse_bool :: "py \<Rightarrow> string \<Rightarrow> config_error + bool" where
  "parse_bool v field = (case v of PBool b \<Rightarrow> Inr b | _ \<Rightarrow> Inl (NotBool field))"

definition parse_literal :: "py \<Rightarrow> string \<Rightarrow> string list \<Rightarrow> config_error + ustr" where
  "parse_literal v field allowed =
     (case v of
        PStr s \<Rightarrow> if s \<in> lit ` set allowed then Inr s else Inl (NotOneOf field allowed)
      | _ \<Rightarrow> Inl (NotOneOf field allowed))"

definition parse_positive_int :: "py \<Rightarrow> string \<Rightarrow> int \<Rightarrow> config_error + int" where
  "parse_positive_int v field maximum =
     (case v of
        PInt i \<Rightarrow> if i \<le> 0 \<or> maximum < i then Inl (NotPositiveInt field maximum) else Inr i
      | _ \<Rightarrow> Inl (NotPositiveInt field maximum))"

text \<open>\<open>float(value)\<close> of an int or float that is not a bool, where it is finite.\<close>

definition finite_number :: "py \<Rightarrow> real option" where
  "finite_number v = (case v of PInt i \<Rightarrow> float_of_int i | PFloat f \<Rightarrow> finite_float f | _ \<Rightarrow> None)"

definition parse_bounded_float :: "py \<Rightarrow> string \<Rightarrow> real \<Rightarrow> real \<Rightarrow> config_error + real" where
  "parse_bounded_float v field minimum maximum =
     (case finite_number v of
        None \<Rightarrow> Inl (NotNumber field)
      | Some r \<Rightarrow> if r \<le> minimum \<or> maximum < r then Inl (NotNumber field) else Inr r)"

definition parse_closed_bounded_float :: "py \<Rightarrow> string \<Rightarrow> real \<Rightarrow> real \<Rightarrow> config_error + real" where
  "parse_closed_bounded_float v field minimum maximum =
     (case finite_number v of
        None \<Rightarrow> Inl (NotNumber field)
      | Some r \<Rightarrow> if r < minimum \<or> maximum < r then Inl (NotNumber field) else Inr r)"

definition if_present :: "(py \<Rightarrow> 'e + 'a) \<Rightarrow> py \<Rightarrow> 'e + 'a option" where
  "if_present f v = (if v = PNone then Inr None else and_then (f v) (\<lambda>x. Inr (Some x)))"

definition MAX_RECALL_TOKENS :: int where
  "MAX_RECALL_TOKENS = 1048576"

definition parse_optional_positive_int :: "py \<Rightarrow> string \<Rightarrow> config_error + int option" where
  "parse_optional_positive_int v field = if_present (\<lambda>v. parse_positive_int v field MAX_RECALL_TOKENS) v"

lemma parse_bool_Inr [result_iff]: "parse_bool v f = Inr b \<longleftrightarrow> v = PBool b"
  by (auto simp: parse_bool_def split: py.splits)

lemma parse_positive_int_Inr [result_iff]: "parse_positive_int v f m = Inr i \<longleftrightarrow> v = PInt i \<and> 0 < i \<and> i \<le> m"
  by (auto simp: parse_positive_int_def split: py.splits if_splits)

lemma parse_literal_Inr [result_iff]: "parse_literal v f xs = Inr s \<longleftrightarrow> v = PStr s \<and> s \<in> lit ` set xs"
  by (auto simp: parse_literal_def split: py.splits if_splits)

lemma parse_bounded_float_Inr [result_iff]:
  "parse_bounded_float v f lo hi = Inr r \<longleftrightarrow> finite_number v = Some r \<and> lo < r \<and> r \<le> hi"
  by (auto simp: parse_bounded_float_def split: option.splits if_splits)

lemma parse_closed_bounded_float_Inr [result_iff]:
  "parse_closed_bounded_float v f lo hi = Inr r \<longleftrightarrow> finite_number v = Some r \<and> lo \<le> r \<and> r \<le> hi"
  by (auto simp: parse_closed_bounded_float_def split: option.splits if_splits)

lemma expect_mapping_Inr [result_iff]: "expect_mapping v f = Inr kvs \<longleftrightarrow> v = PDict kvs"
  by (auto simp: expect_mapping_def split: py.splits)

lemma check_unknown_keys_Inr [result_iff]:
  "check_unknown_keys kvs allowed loc = Inr u \<longleftrightarrow> fst ` set kvs \<subseteq> lit ` set allowed"
proof -
  have "sort (remdups xs) = [] \<longleftrightarrow> xs = []" for xs :: "ustr list"
    by (metis set_empty set_remdups set_sort)
  then show ?thesis
    by (auto simp: check_unknown_keys_def Let_def filter_empty_conv image_iff)
qed

lemma if_present_Inr [result_iff]:
  "if_present f v = Inr r \<longleftrightarrow> (if v = PNone then r = None else \<exists>x. f v = Inr x \<and> r = Some x)"
  by (auto simp: if_present_def result_iff)

definition exact_text :: "ustr \<Rightarrow> bool" where
  "exact_text s \<longleftrightarrow> s \<noteq> [] \<and> strip s = s \<and> \<not> contains_control False s \<and> scalar_text s"

lemma parse_exact_Inr [result_iff]:
  "parse_exact_nonempty_string v f = Inr s \<longleftrightarrow> v = PStr s \<and> exact_text s"
  by (auto simp: parse_exact_nonempty_string_def exact_text_def scalar_text_def split: py.splits if_splits)

end
