(* ===== verification/SummaryPolicy.thy ===== *)
theory SummaryPolicy
  imports ConfigParse
begin

text \<open>
  \<open>summary_policy.py\<close>: the operator's refresh policy of a summary, its parser, the trigger
  record it is written out to and the check of a remote model against the fixed part of the policy.
  \<open>cron_ok\<close> stands for \<open>croniter.is_valid\<close>.
\<close>

definition default_policy :: summary_policy where
  "default_policy =
     \<lparr>sp_mode = lit ''full'', sp_budget = lit ''mid'', sp_refresh_after_consolidation = False,
      sp_refresh_cron = None, sp_min_refresh_interval_seconds = 0, sp_max_tokens = 1024,
      sp_recall_max_tokens = 4096, sp_observations_max_tokens = 5000\<rparr>"

text \<open>\<open>asdict\<close>.\<close>

definition policy_dict :: "summary_policy \<Rightarrow> (ustr \<times> py) list" where
  "policy_dict p =
     [(lit ''mode'', PStr (sp_mode p)), (lit ''budget'', PStr (sp_budget p)),
      (lit ''refresh_after_consolidation'', PBool (sp_refresh_after_consolidation p)),
      (lit ''refresh_cron'', case sp_refresh_cron p of None \<Rightarrow> PNone | Some c \<Rightarrow> PStr c),
      (lit ''min_refresh_interval_seconds'', PInt (sp_min_refresh_interval_seconds p)),
      (lit ''max_tokens'', PInt (sp_max_tokens p)),
      (lit ''recall_max_tokens'', PInt (sp_recall_max_tokens p)),
      (lit ''observations_max_tokens'', PInt (sp_observations_max_tokens p))]"

definition trigger :: "bool \<Rightarrow> summary_policy \<Rightarrow> (ustr \<times> py) list" where
  "trigger modern p =
     [(lit ''mode'', PStr (sp_mode p)),
      (lit ''refresh_after_consolidation'', PBool (sp_refresh_after_consolidation p)),
      (lit ''refresh_cron'', case sp_refresh_cron p of None \<Rightarrow> PNone | Some c \<Rightarrow> PStr c),
      (lit ''min_refresh_interval_seconds'', PInt (sp_min_refresh_interval_seconds p)),
      (lit ''fact_types'', PNone),
      (lit ''exclude_mental_models'', PBool True),
      (lit ''exclude_mental_model_ids'', PNone),
      (lit ''tags_match'', PStr (lit ''any'')),
      (lit ''tag_groups'', PNone),
      (lit ''include_chunks'', PBool False),
      (lit ''recall_max_tokens'', PInt (sp_recall_max_tokens p)),
      (lit ''recall_chunks_max_tokens'', PInt 0),
      (lit ''response_schema'', PNone),
      (lit ''keep_trace'', PBool False)] @
     (if modern then
        [(lit ''budget'', PStr (sp_budget p)),
         (lit ''reflect_search_observations_max_tokens'', PInt (sp_observations_max_tokens p)),
         (lit ''reflect_search_observations_include_entities'', PBool False)]
      else [])"

text \<open>\<open>str.split()\<close>: the number of maximal runs of non-blank characters.\<close>

fun field_count :: "bool \<Rightarrow> ustr \<Rightarrow> nat" where
  "field_count inside [] = (if inside then 1 else 0)"
| "field_count inside (c # s) =
     (if py_space c then (if inside then 1 else 0) + field_count False s else field_count True s)"

definition int_between :: "py \<Rightarrow> int \<Rightarrow> int \<Rightarrow> bool" where
  "int_between v lo hi \<longleftrightarrow> (case v of PInt i \<Rightarrow> lo \<le> i \<and> i \<le> hi | _ \<Rightarrow> False)"

definition as_int :: "py \<Rightarrow> int" where
  "as_int v = (case v of PInt i \<Rightarrow> i | _ \<Rightarrow> 0)"

definition as_text :: "py \<Rightarrow> ustr" where
  "as_text v = (case v of PStr s \<Rightarrow> s | _ \<Rightarrow> [])"

definition check_cron :: "(ustr \<Rightarrow> bool) \<Rightarrow> py \<Rightarrow> bool \<Rightarrow> policy_error + unit" where
  "check_cron cron_ok cron consolidation =
     (case cron of
        PNone \<Rightarrow> Inr ()
      | PStr s \<Rightarrow>
          if s \<noteq> strip s \<or> 120 < length s \<or> field_count False s \<noteq> 5 then Inl PolicyCronFields
          else if \<not> cron_ok s then Inl PolicyCron
          else if consolidation then Inl PolicyExclusive
          else Inr ()
      | _ \<Rightarrow> Inl PolicyCronFields)"

definition policy_of_values :: "(ustr \<Rightarrow> bool) \<Rightarrow> (ustr \<times> py) list \<Rightarrow> policy_error + summary_policy" where
  "policy_of_values cron_ok d =
     and_then (ensure
       (get_or d ''mode'' PNone \<in> {PStr (lit ''full''), PStr (lit ''delta'')} \<and>
        get_or d ''budget'' PNone \<in> {PStr (lit ''low''), PStr (lit ''mid''), PStr (lit ''high'')}) PolicyMode) (\<lambda>_.
     (case get_or d ''refresh_after_consolidation'' PNone of
        PBool consolidation \<Rightarrow>
          and_then (check_cron cron_ok (get_or d ''refresh_cron'' PNone) consolidation) (\<lambda>_.
          and_then (ensure
            (int_between (get_or d ''min_refresh_interval_seconds'' PNone) 0 31536000 \<and>
             int_between (get_or d ''max_tokens'' PNone) 256 8192 \<and>
             int_between (get_or d ''recall_max_tokens'' PNone) 1 16384 \<and>
             int_between (get_or d ''observations_max_tokens'' PNone) 1 16384) PolicyBudget) (\<lambda>_.
          Inr \<lparr>sp_mode = as_text (get_or d ''mode'' PNone), sp_budget = as_text (get_or d ''budget'' PNone),
               sp_refresh_after_consolidation = consolidation,
               sp_refresh_cron = py_str (get_or d ''refresh_cron'' PNone),
               sp_min_refresh_interval_seconds = as_int (get_or d ''min_refresh_interval_seconds'' PNone),
               sp_max_tokens = as_int (get_or d ''max_tokens'' PNone),
               sp_recall_max_tokens = as_int (get_or d ''recall_max_tokens'' PNone),
               sp_observations_max_tokens = as_int (get_or d ''observations_max_tokens'' PNone)\<rparr>))
      | _ \<Rightarrow> Inl PolicyTrigger))"

definition dict_update :: "('k, 'v) dict \<Rightarrow> ('k, 'v) dict \<Rightarrow> ('k, 'v) dict" where
  "dict_update base kvs = foldl (\<lambda>d (k, x). dict_set d k x) base kvs"

definition parse_policy :: "(ustr \<Rightarrow> bool) \<Rightarrow> py \<Rightarrow> summary_policy \<Rightarrow> policy_error + summary_policy" where
  "parse_policy cron_ok v base =
     (case v of
        PDict kvs \<Rightarrow>
          if \<not> list_all (\<lambda>k. k \<in> fst ` set (policy_dict default_policy)) (map fst kvs) then Inl PolicyKeys
          else policy_of_values cron_ok (dict_update (policy_dict base) kvs)
      | _ \<Rightarrow> Inl PolicyKeys)"

text \<open>
  Python's \<open>==\<close> against a constant of the fixed policy: a bool equals the number of its value.
\<close>

definition number_value :: "py \<Rightarrow> real option" where
  "number_value v =
     (case v of
        PBool b \<Rightarrow> Some (if b then 1 else 0)
      | PInt i \<Rightarrow> Some (real_of_int i)
      | PFloat f \<Rightarrow> finite_float f
      | _ \<Rightarrow> None)"

definition equals_constant :: "py \<Rightarrow> py \<Rightarrow> bool" where
  "equals_constant v expected \<longleftrightarrow>
     (case number_value expected of None \<Rightarrow> v = expected | Some r \<Rightarrow> number_value v = Some r)"

definition EDITABLE :: "string list" where
  "EDITABLE = [''mode'', ''budget'', ''refresh_after_consolidation'', ''refresh_cron'',
     ''min_refresh_interval_seconds'', ''recall_max_tokens'', ''reflect_search_observations_max_tokens'']"

definition rename_key :: "ustr \<Rightarrow> ustr" where
  "rename_key k = (if k = lit ''reflect_search_observations_max_tokens'' then lit ''observations_max_tokens'' else k)"

definition validate_fixed_policy :: "(ustr \<Rightarrow> bool) \<Rightarrow> (ustr \<times> py) list \<Rightarrow> policy_error + unit" where
  "validate_fixed_policy cron_ok model =
     (case (get_or model ''tags'' PNone, get_or model ''trigger'' PNone) of
        (PList [], PDict trig) \<Rightarrow>
          and_then (ensure
            (list_all (\<lambda>(k, expected). k \<in> lit ` set EDITABLE \<or>
                equals_constant (case dict_get trig k of None \<Rightarrow> PNone | Some v \<Rightarrow> v) expected)
              (trigger True default_policy)) PolicyFixed) (\<lambda>_.
          (let fields = map (\<lambda>(k, v). (rename_key k, v))
                 (concat (map (\<lambda>k. case dict_get trig (lit k) of None \<Rightarrow> [] | Some v \<Rightarrow> [(lit k, v)]) EDITABLE));
               fields' = (case get_or model ''max_tokens'' PNone of
                            PNone \<Rightarrow> fields | v \<Rightarrow> dict_set fields (lit ''max_tokens'') v)
           in and_then (parse_policy cron_ok (PDict fields') default_policy) (\<lambda>_. Inr ())))
      | _ \<Rightarrow> Inl PolicyScope)"

end
