(* ===== verification/Config.thy ===== *)
theory Config
  imports ConfigParse SummaryPolicy
begin

text \<open>
  The section parsers and \<open>load_config\<close> of \<open>config.py\<close>. The parsers run in the order of the
  code, so the first failing field is the one the error names.

  What the code takes from libraries is the record \<open>library\<close>: the Unicode tables behind
  \<open>\w\<close> and \<open>casefold\<close>, \<open>urlsplit\<close>, \<open>ipaddress\<close>, the IDNA codec, the path
  resolution of the file system (\<open>None\<close> where it raises) and croniter's validity check. A path is the
  list of its parts; \<open>Path\<close> drops empty parts and single dots and keeps a root of exactly two
  slashes apart, here as an empty first part.
\<close>

section \<open>Constants\<close>

definition DEFAULT_API_URL :: string where "DEFAULT_API_URL = ''http://localhost:8888''"
definition DEFAULT_BANK_ID :: string where "DEFAULT_BANK_ID = ''hermes''"
definition DEFAULT_RECALL_TIMEOUT_SECONDS :: real where "DEFAULT_RECALL_TIMEOUT_SECONDS = 3.5"
definition DEFAULT_RECALL_INPUT_MAX_CHARS :: int where "DEFAULT_RECALL_INPUT_MAX_CHARS = 4096"
definition DEFAULT_RECALL_INPUT_MAX_TOKENS :: int where "DEFAULT_RECALL_INPUT_MAX_TOKENS = 500"
definition DEFAULT_RECALL_CONTEXT_MAX_BYTES :: int where "DEFAULT_RECALL_CONTEXT_MAX_BYTES = 8192"
definition DEFAULT_PLANNER_TIMEOUT_SECONDS :: real where "DEFAULT_PLANNER_TIMEOUT_SECONDS = 2"
definition DEFAULT_PLANNER_HISTORY_MAX_EXCHANGES :: int where "DEFAULT_PLANNER_HISTORY_MAX_EXCHANGES = 4"
definition DEFAULT_PLANNER_HISTORY_MAX_CHARS :: int where "DEFAULT_PLANNER_HISTORY_MAX_CHARS = 6000"
definition DEFAULT_PLANNER_QUERY_MAX_CHARS :: int where "DEFAULT_PLANNER_QUERY_MAX_CHARS = 1024"
definition LEGACY_DEFAULT_PLANNER_MAILBOX_PATH :: string where
  "LEGACY_DEFAULT_PLANNER_MAILBOX_PATH = ''better_hindsight/recall_plans.sqlite3''"
definition LEGACY_MAX_PLANNER_MAILBOX_TTL_SECONDS :: real where "LEGACY_MAX_PLANNER_MAILBOX_TTL_SECONDS = 60"
definition LEGACY_MAX_PLANNER_BUSY_TIMEOUT_SECONDS :: real where "LEGACY_MAX_PLANNER_BUSY_TIMEOUT_SECONDS = 1"
definition DEFAULT_REFLECT_TIMEOUT_SECONDS :: real where "DEFAULT_REFLECT_TIMEOUT_SECONDS = 60"
definition DEFAULT_REFLECT_INPUT_MAX_CHARS :: int where "DEFAULT_REFLECT_INPUT_MAX_CHARS = 4096"
definition DEFAULT_REFLECT_INPUT_MAX_TOKENS :: int where "DEFAULT_REFLECT_INPUT_MAX_TOKENS = 500"
definition DEFAULT_REFLECT_OUTPUT_MAX_BYTES :: int where "DEFAULT_REFLECT_OUTPUT_MAX_BYTES = 16384"
definition DEFAULT_REFLECT_BUDGET :: string where "DEFAULT_REFLECT_BUDGET = ''low''"
definition DEFAULT_REFLECT_MAX_TOKENS :: int where "DEFAULT_REFLECT_MAX_TOKENS = 1024"
definition DEFAULT_RETAIN_TIMEOUT_SECONDS :: real where "DEFAULT_RETAIN_TIMEOUT_SECONDS = 60"
definition DEFAULT_RETAIN_SEGMENT_MAX_BYTES :: int where "DEFAULT_RETAIN_SEGMENT_MAX_BYTES = 65536"
definition DEFAULT_OUTBOX_MAX_PENDING_ROWS :: int where "DEFAULT_OUTBOX_MAX_PENDING_ROWS = 2000"
definition DEFAULT_OUTBOX_MAX_PENDING_BYTES :: int where "DEFAULT_OUTBOX_MAX_PENDING_BYTES = 134217728"
definition DEFAULT_OUTBOX_BUSY_TIMEOUT_SECONDS :: real where "DEFAULT_OUTBOX_BUSY_TIMEOUT_SECONDS = 1"
definition DEFAULT_OUTBOX_POLL_INTERVAL_SECONDS :: real where "DEFAULT_OUTBOX_POLL_INTERVAL_SECONDS = 2"
definition DEFAULT_OUTBOX_RETRY_INITIAL_SECONDS :: real where "DEFAULT_OUTBOX_RETRY_INITIAL_SECONDS = 2"
definition DEFAULT_OUTBOX_RETRY_MAX_SECONDS :: real where "DEFAULT_OUTBOX_RETRY_MAX_SECONDS = 300"
definition DEFAULT_DIAGNOSTIC_SLOW_THRESHOLD_SECONDS :: real where
  "DEFAULT_DIAGNOSTIC_SLOW_THRESHOLD_SECONDS = 5"
definition DEFAULT_DIAGNOSTIC_MAX_RECORDS :: int where "DEFAULT_DIAGNOSTIC_MAX_RECORDS = 50"
definition DEFAULT_DIAGNOSTIC_REPLAY_TIMEOUT_SECONDS :: real where
  "DEFAULT_DIAGNOSTIC_REPLAY_TIMEOUT_SECONDS = 30"

definition MAX_RECALL_TIMEOUT_SECONDS :: real where "MAX_RECALL_TIMEOUT_SECONDS = 30"
definition MAX_RECALL_INPUT_CHARS :: int where "MAX_RECALL_INPUT_CHARS = 65536"
definition MAX_RECALL_INPUT_TOKENS :: int where "MAX_RECALL_INPUT_TOKENS = 1048576"
definition MAX_RECALL_CONTEXT_BYTES :: int where "MAX_RECALL_CONTEXT_BYTES = 1048576"
definition MAX_PLANNER_TIMEOUT_SECONDS :: real where "MAX_PLANNER_TIMEOUT_SECONDS = 4"
definition MAX_PLANNER_HISTORY_EXCHANGES :: int where "MAX_PLANNER_HISTORY_EXCHANGES = 20"
definition MAX_PLANNER_HISTORY_CHARS :: int where "MAX_PLANNER_HISTORY_CHARS = 65536"
definition MAX_REFLECT_TIMEOUT_SECONDS :: real where "MAX_REFLECT_TIMEOUT_SECONDS = 300"
definition MAX_REFLECT_INPUT_CHARS :: int where "MAX_REFLECT_INPUT_CHARS = 65536"
definition MAX_REFLECT_INPUT_TOKENS :: int where "MAX_REFLECT_INPUT_TOKENS = 1048576"
definition MAX_REFLECT_OUTPUT_BYTES :: int where "MAX_REFLECT_OUTPUT_BYTES = 1048576"
definition MAX_REFLECT_MAX_TOKENS :: int where "MAX_REFLECT_MAX_TOKENS = 16384"
definition MAX_RETAIN_TIMEOUT_SECONDS :: real where "MAX_RETAIN_TIMEOUT_SECONDS = 300"
definition MAX_RETAIN_SEGMENT_BYTES :: int where "MAX_RETAIN_SEGMENT_BYTES = 16777216"
definition MAX_OUTBOX_PENDING_ROWS :: int where "MAX_OUTBOX_PENDING_ROWS = 100000"
definition MAX_OUTBOX_PENDING_BYTES :: int where "MAX_OUTBOX_PENDING_BYTES = 1073741824"
definition MAX_OUTBOX_BUSY_TIMEOUT_SECONDS :: real where "MAX_OUTBOX_BUSY_TIMEOUT_SECONDS = 5"
definition MIN_OUTBOX_POLL_INTERVAL_SECONDS :: real where "MIN_OUTBOX_POLL_INTERVAL_SECONDS = 0.1"
definition MAX_OUTBOX_POLL_INTERVAL_SECONDS :: real where "MAX_OUTBOX_POLL_INTERVAL_SECONDS = 60"
definition MAX_OUTBOX_RETRY_SECONDS :: real where "MAX_OUTBOX_RETRY_SECONDS = 3600"
definition MAX_DIAGNOSTIC_RECORDS :: int where "MAX_DIAGNOSTIC_RECORDS = 500"
definition MAX_DIAGNOSTIC_REPLAY_TIMEOUT_SECONDS :: real where "MAX_DIAGNOSTIC_REPLAY_TIMEOUT_SECONDS = 300"

definition ROOT_KEYS :: "string list" where
  "ROOT_KEYS = [''api_url'', ''api_key'', ''bank_id'', ''single_principal'', ''allowed_principals'',
     ''recall'', ''planner'', ''reflect'', ''mental_models'', ''multimodal'', ''retain'', ''missions'',
     ''outbox'', ''diagnostics'', ''evaluation'']"

definition RECALL_KEYS :: "string list" where
  "RECALL_KEYS = [''enabled'', ''timeout_seconds'', ''input_max_chars'', ''input_max_tokens'',
     ''context_max_bytes'', ''budget'', ''max_tokens'', ''types'', ''tags'', ''tag_mode'',
     ''prefer_observations'', ''min_scores'', ''include_source_facts'', ''include_attachments'',
     ''max_source_facts_tokens'']"

definition PLANNER_KEYS :: "string list" where
  "PLANNER_KEYS = [''rewrite'', ''path'', ''mode'', ''timeout_seconds'', ''history_max_exchanges'',
     ''history_max_chars'', ''query_max_chars'', ''mailbox_ttl_seconds'', ''busy_timeout_seconds'']"

definition REFLECT_KEYS :: "string list" where
  "REFLECT_KEYS = [''enabled'', ''timeout_seconds'', ''input_max_chars'', ''input_max_tokens'',
     ''output_max_bytes'', ''include_attachments'', ''budget'', ''max_tokens'', ''tags'', ''tag_mode'']"

definition RETAIN_KEYS :: "string list" where
  "RETAIN_KEYS = [''enabled'', ''timeout_seconds'', ''segment_max_bytes'', ''observation_scopes'', ''tags'']"

definition MISSION_KEYS :: "string list" where
  "MISSION_KEYS = [''retain_mission'', ''observations_mission'']"

definition OUTBOX_KEYS :: "string list" where
  "OUTBOX_KEYS = [''path'', ''max_pending_rows'', ''max_pending_bytes'', ''busy_timeout_seconds'',
     ''poll_interval_seconds'', ''retry_initial_seconds'', ''retry_max_seconds'']"

definition DIAGNOSTIC_KEYS :: "string list" where
  "DIAGNOSTIC_KEYS = [''enabled'', ''path'', ''slow_threshold_seconds'', ''max_records'',
     ''replay_timeout_seconds'']"

definition PRINCIPAL_KEYS :: "string list" where
  "PRINCIPAL_KEYS = [''platform'', ''identifier_kind'', ''identifier'']"

definition SCORE_KEYS :: "string list" where
  "SCORE_KEYS = [''semantic'', ''keyword'', ''reranker'', ''final'']"

section \<open>Library\<close>

record url_parts =
  up_scheme :: ustr
  up_netloc :: ustr
  up_path :: ustr
  up_query :: ustr
  up_fragment :: ustr
  up_hostname :: "ustr option"
  up_port :: "int option"
  up_username :: "ustr option"
  up_password :: "ustr option"

record library =
  lib_word :: "nat \<Rightarrow> bool"
  lib_casefold :: "ustr \<Rightarrow> ustr"
  lib_lower :: "ustr \<Rightarrow> ustr"
  lib_urlsplit :: "ustr \<Rightarrow> url_parts option"
  lib_ip_compressed :: "ustr \<Rightarrow> ustr option"
  lib_idna :: "ustr \<Rightarrow> ustr option"
  lib_resolve :: "bool \<times> path \<Rightarrow> path option"
  lib_cron_ok :: "ustr \<Rightarrow> bool"

text \<open>\<open>Path(text)\<close>: whether it is absolute, and its parts.\<close>

fun split_on :: "nat \<Rightarrow> ustr \<Rightarrow> ustr list" where
  "split_on sep [] = [[]]"
| "split_on sep (c # s) =
     (if c = sep then [] # split_on sep s
      else (case split_on sep s of [] \<Rightarrow> [[c]] | x # xs \<Rightarrow> (c # x) # xs))"

definition parse_path :: "ustr \<Rightarrow> bool \<times> path" where
  "parse_path s =
     (let parts = filter (\<lambda>part. part \<noteq> [] \<and> part \<noteq> [46]) (split_on 47 s) in
      case takeWhile (\<lambda>c. c = 47) s of
        [] \<Rightarrow> (False, parts)
      | [_, _] \<Rightarrow> (True, [] # parts)
      | _ \<Rightarrow> (True, parts))"

definition inside :: "path \<Rightarrow> path \<Rightarrow> bool" where
  "inside home p \<longleftrightarrow> prefix home p"

section \<open>URL\<close>

definition join_labels :: "nat \<Rightarrow> bool" where
  "join_labels c \<longleftrightarrow> 97 \<le> c \<and> c \<le> 122 \<or> 48 \<le> c \<and> c \<le> 57"

definition label_ok :: "ustr \<Rightarrow> bool" where
  "label_ok l \<longleftrightarrow> l \<noteq> [] \<and> length l \<le> 63 \<and> list_all (\<lambda>c. join_labels c \<or> c = 45) l \<and>
     join_labels (hd l) \<and> join_labels (last l)"

definition remove_dot :: "ustr \<Rightarrow> ustr" where
  "remove_dot s = (if s \<noteq> [] \<and> last s = 46 then butlast s else s)"

definition normalize_hostname :: "library \<Rightarrow> ustr \<Rightarrow> config_error + ustr" where
  "normalize_hostname lib hostname =
     (let candidate = remove_dot hostname in
      if candidate = [] then Inl (BadUrl ''host'')
      else
        (case lib_ip_compressed lib candidate of
           Some address \<Rightarrow> Inr address
         | None \<Rightarrow>
             (case lib_idna lib candidate of
                None \<Rightarrow> Inl (BadUrl ''host'')
              | Some encoded \<Rightarrow>
                  (let ascii = lib_lower lib encoded in
                   if 253 < length ascii \<or> \<not> list_all label_ok (split_on 46 ascii)
                   then Inl (BadUrl ''host'') else Inr ascii))))"

definition rstrip_slash :: "ustr \<Rightarrow> ustr" where
  "rstrip_slash s = rev (dropWhile (\<lambda>c. c = 47) (rev s))"

text \<open>\<open>urlunsplit((scheme, netloc, path, "", ""))\<close> for a non-empty netloc.\<close>

definition urlunsplit :: "ustr \<Rightarrow> ustr \<Rightarrow> ustr \<Rightarrow> ustr" where
  "urlunsplit scheme netloc p =
     scheme @ [58, 47, 47] @ netloc @ (if p \<noteq> [] \<and> hd p \<noteq> 47 then 47 # p else p)"

definition default_port :: "ustr \<Rightarrow> int \<Rightarrow> bool" where
  "default_port scheme port \<longleftrightarrow>
     scheme = lit ''http'' \<and> port = 80 \<or> scheme = lit ''https'' \<and> port = 443"

definition bracketed :: "ustr \<Rightarrow> ustr" where
  "bracketed host = (if 58 \<in> set host then [91] @ host @ [93] else host)"

definition normalize_api_url :: "library \<Rightarrow> py \<Rightarrow> config_error + ustr" where
  "normalize_api_url lib v =
     (case v of
        PStr text \<Rightarrow>
          if blank text then Inl (BadUrl ''empty'')
          else
            (let candidate = strip text in
             if contains_control False candidate \<or> 92 \<in> set candidate \<or> list_ex py_space candidate
             then Inl (BadUrl ''characters'')
             else
               (case lib_urlsplit lib candidate of
                  None \<Rightarrow> Inl (BadUrl ''malformed'')
                | Some parsed \<Rightarrow>
                    (let scheme = lib_lower lib (up_scheme parsed) in
                     if scheme \<noteq> lit ''http'' \<and> scheme \<noteq> lit ''https'' then Inl (BadUrl ''scheme'')
                     else
                       (case truthy (up_hostname parsed) of
                          None \<Rightarrow> Inl (BadUrl ''host'')
                        | Some hostname \<Rightarrow>
                            if up_netloc parsed = [] then Inl (BadUrl ''host'')
                            else if up_username parsed \<noteq> None \<or> up_password parsed \<noteq> None
                            then Inl (BadUrl ''credentials'')
                            else if up_query parsed \<noteq> [] \<or> up_fragment parsed \<noteq> []
                            then Inl (BadUrl ''query'')
                            else
                              and_then (normalize_hostname lib hostname) (\<lambda>host.
                                (let netloc =
                                   bracketed host @
                                   (case up_port parsed of
                                      None \<Rightarrow> []
                                    | Some port \<Rightarrow> if default_port scheme port then [] else 58 # show_int port);
                                   p = rstrip_slash (up_path parsed)
                                 in Inr (urlunsplit scheme netloc (if p = [47] then [] else p))))))))
      | _ \<Rightarrow> Inl (BadUrl ''empty''))"

section \<open>Section parsers\<close>

definition parse_string_sequence :: "py \<Rightarrow> string \<Rightarrow> bool \<Rightarrow> config_error + ustr list" where
  "parse_string_sequence v field allow_empty =
     (case v of
        PList xs \<Rightarrow>
          if \<not> allow_empty \<and> xs = [] then Inl (EmptyList field)
          else if \<not> list_all (\<lambda>x. py_str x \<noteq> None) xs then Inl (NotStringList field)
          else Inr (map (\<lambda>x. the (py_str x)) xs)
      | _ \<Rightarrow> Inl (NotStringList field))"

definition RECALL_TYPES :: "string list" where
  "RECALL_TYPES = [''world'', ''experience'', ''observation'']"

definition parse_recall_types :: "py \<Rightarrow> config_error + ustr list option" where
  "parse_recall_types =
     if_present (\<lambda>v.
       and_then (parse_string_sequence v ''recall.types'' False) (\<lambda>items.
       and_then (ensure (list_all (\<lambda>i. i \<in> lit ` set RECALL_TYPES) items) BadTypes) (\<lambda>_.
       and_then (ensure (distinct items) (DuplicateEntries ''recall.types'')) (\<lambda>_.
       Inr items))))"

definition parse_tag :: "string \<Rightarrow> ustr \<Rightarrow> config_error + unit" where
  "parse_tag field item =
     and_then (parse_exact_nonempty_string (PStr item) field) (\<lambda>_.
     ensure (length item \<le> MAX_TAG_CHARS) (TagTooLong field))"

definition parse_tags :: "py \<Rightarrow> string \<Rightarrow> config_error + ustr list" where
  "parse_tags v field =
     and_then (parse_string_sequence v field True) (\<lambda>items.
     and_then (ensure (length items \<le> MAX_TAG_COUNT) (TooManyTags field)) (\<lambda>_.
     and_then (all_of (parse_tag field) items) (\<lambda>_.
     and_then (ensure (distinct items) (DuplicateEntries field)) (\<lambda>_.
     Inr items))))"

definition parse_optional_tags :: "py \<Rightarrow> string \<Rightarrow> config_error + ustr list option" where
  "parse_optional_tags v field = if_present (\<lambda>v. parse_tags v field) v"

definition canonical_tag :: "ustr \<Rightarrow> bool" where
  "canonical_tag t \<longleftrightarrow> t \<noteq> [] \<and> strip t = t \<and> \<not> contains_control False t \<and> length t \<le> MAX_TAG_CHARS"

definition canonicalize_retain_tags :: "library \<Rightarrow> py \<Rightarrow> config_error + ustr list" where
  "canonicalize_retain_tags lib v =
     and_then (parse_tags v ''retain.tags'') (\<lambda>items.
     (let redacted = map (redact_sensitive_text (lib_word lib)) items in
      and_then (ensure (list_all canonical_tag redacted) TagsNotCanonical) (\<lambda>_.
      and_then (ensure (distinct redacted) TagsCollide) (\<lambda>_.
      Inr (sort redacted)))))"

definition parse_score :: "(ustr \<times> py) list \<Rightarrow> string \<Rightarrow> config_error + real option" where
  "parse_score values name =
     if_present (\<lambda>raw.
       case finite_number raw of
         None \<Rightarrow> Inl (BadScore name)
       | Some r \<Rightarrow> if r < 0 then Inl (BadScore name) else Inr r) (get_or values name PNone)"

definition parse_min_scores :: "py \<Rightarrow> config_error + recall_min_scores option" where
  "parse_min_scores =
     if_present (\<lambda>v.
       and_then (expect_mapping v ''recall.min_scores'') (\<lambda>values.
       and_then (check_unknown_keys values SCORE_KEYS ''recall.min_scores'') (\<lambda>_.
       and_then (parse_score values ''semantic'') (\<lambda>semantic.
       and_then (parse_score values ''keyword'') (\<lambda>keyword.
       and_then (parse_score values ''reranker'') (\<lambda>reranker.
       and_then (parse_score values ''final'') (\<lambda>final_score.
       Inr \<lparr>ms_semantic = semantic, ms_keyword = keyword, ms_reranker = reranker, ms_final = final_score\<rparr>)))))))"

definition BUDGETS :: "string list" where
  "BUDGETS = [''low'', ''mid'', ''high'']"

definition TAG_MODES :: "string list" where
  "TAG_MODES = [''any'', ''all'', ''any_strict'', ''all_strict'', ''exact'']"

definition parse_recall :: "py \<Rightarrow> config_error + recall_config" where
  "parse_recall v =
     and_then (expect_mapping v ''recall'') (\<lambda>values.
     and_then (check_unknown_keys values RECALL_KEYS ''recall'') (\<lambda>_.
     and_then (if_present (\<lambda>v. parse_literal v ''recall.budget'' BUDGETS) (get_or values ''budget'' PNone)) (\<lambda>budget.
     and_then (if_present (\<lambda>v. parse_literal v ''recall.tag_mode'' TAG_MODES) (get_or values ''tag_mode'' PNone)) (\<lambda>tag_mode.
     and_then (if_present (\<lambda>v. parse_bool v ''recall.prefer_observations'') (get_or values ''prefer_observations'' PNone)) (\<lambda>prefer.
     and_then (if_present (\<lambda>v. parse_bool v ''recall.include_source_facts'') (get_or values ''include_source_facts'' PNone)) (\<lambda>source.
     and_then (parse_bool (get_or values ''include_attachments'' (PBool False)) ''recall.include_attachments'') (\<lambda>attachments.
     and_then (parse_bool (get_or values ''enabled'' (PBool True)) ''recall.enabled'') (\<lambda>enabled.
     and_then (parse_bounded_float (get_or values ''timeout_seconds'' (PFloat (Fin DEFAULT_RECALL_TIMEOUT_SECONDS)))
       ''recall.timeout_seconds'' 0 MAX_RECALL_TIMEOUT_SECONDS) (\<lambda>timeout.
     and_then (parse_positive_int (get_or values ''input_max_chars'' (PInt DEFAULT_RECALL_INPUT_MAX_CHARS))
       ''recall.input_max_chars'' MAX_RECALL_INPUT_CHARS) (\<lambda>chars.
     and_then (parse_positive_int (get_or values ''input_max_tokens'' (PInt DEFAULT_RECALL_INPUT_MAX_TOKENS))
       ''recall.input_max_tokens'' MAX_RECALL_INPUT_TOKENS) (\<lambda>tokens.
     and_then (parse_positive_int (get_or values ''context_max_bytes'' (PInt DEFAULT_RECALL_CONTEXT_MAX_BYTES))
       ''recall.context_max_bytes'' MAX_RECALL_CONTEXT_BYTES) (\<lambda>context_bytes.
     and_then (parse_optional_positive_int (get_or values ''max_tokens'' PNone) ''recall.max_tokens'') (\<lambda>max_tokens.
     and_then (parse_recall_types (get_or values ''types'' PNone)) (\<lambda>types.
     and_then (parse_optional_tags (get_or values ''tags'' PNone) ''recall.tags'') (\<lambda>tags.
     and_then (parse_min_scores (get_or values ''min_scores'' PNone)) (\<lambda>scores.
     and_then (parse_optional_positive_int (get_or values ''max_source_facts_tokens'' PNone)
       ''recall.max_source_facts_tokens'') (\<lambda>facts.
     Inr \<lparr>rc_enabled = enabled, rc_timeout_seconds = timeout, rc_input_max_chars = chars,
          rc_input_max_tokens = tokens, rc_context_max_bytes = context_bytes, rc_budget = budget,
          rc_max_tokens = max_tokens, rc_types = types, rc_tags = tags, rc_tag_mode = tag_mode,
          rc_prefer_observations = prefer, rc_min_scores = scores, rc_include_attachments = attachments,
          rc_include_source_facts = source, rc_max_source_facts_tokens = facts\<rparr>)))))))))))))))))"

text \<open>
  The path options. \<open>str\<close> values only: a \<open>Path\<close> object can come only from an injected mapping.
\<close>

definition parse_local_path :: "library \<Rightarrow> path \<Rightarrow> py \<Rightarrow> string \<Rightarrow> config_error + path" where
  "parse_local_path lib home v field =
     (case v of
        PStr s \<Rightarrow>
          if s = [] then Inl (BadPath field)
          else
            (let (absolute, parts) = parse_path s;
                 candidate = (if absolute then parts else home @ parts) in
             case lib_resolve lib (True, candidate) of
               None \<Rightarrow> Inl (PathNotResolved field)
             | Some normalized \<Rightarrow> if inside home normalized then Inr normalized else Inl (PathOutside field))
      | _ \<Rightarrow> Inl (BadPath field))"

definition parse_planner_path :: "library \<Rightarrow> path \<Rightarrow> py \<Rightarrow> config_error + path" where
  "parse_planner_path lib home v = parse_local_path lib home v ''planner.path''"

definition parse_outbox_path :: "library \<Rightarrow> path \<Rightarrow> py \<Rightarrow> config_error + path" where
  "parse_outbox_path lib home v = parse_local_path lib home v ''outbox.path''"

definition parse_diagnostic_path :: "library \<Rightarrow> path \<Rightarrow> py \<Rightarrow> config_error + path" where
  "parse_diagnostic_path lib home v = parse_local_path lib home v ''diagnostics.path''"

definition parse_planner_mode :: "py \<Rightarrow> config_error + planner_mode" where
  "parse_planner_mode v =
     and_then (parse_literal v ''planner.mode'' [''off'', ''shadow'', ''active'']) (\<lambda>s.
     Inr (if s = lit ''off'' then Off else if s = lit ''shadow'' then Shadow else Active))"

definition parse_rewrite_mode :: "(ustr \<times> py) list \<Rightarrow> config_error + rewrite_mode" where
  "parse_rewrite_mode values =
     (if get_or values ''rewrite'' PNone = PStr (lit ''shadow'') then Inr ShadowRewrite
      else and_then (parse_bool (get_or values ''rewrite'' (PBool False)) ''planner.rewrite'') (\<lambda>b.
             Inr (if b then ApplyRewrite else NoRewrite)))"

text \<open>A legacy option is validated when it is present, and otherwise ignored.\<close>

definition check_legacy :: "(ustr \<times> py) list \<Rightarrow> string \<Rightarrow> string \<Rightarrow> real \<Rightarrow> config_error + unit" where
  "check_legacy values key field maximum =
     (case dict_get values (lit key) of
        None \<Rightarrow> Inr ()
      | Some v \<Rightarrow> and_then (parse_bounded_float v field 0 maximum) (\<lambda>_. Inr ()))"

definition parse_planner :: "library \<Rightarrow> path \<Rightarrow> py \<Rightarrow> config_error + planner_config" where
  "parse_planner lib home v =
     and_then (expect_mapping v ''planner'') (\<lambda>values.
     and_then (check_unknown_keys values PLANNER_KEYS ''planner'') (\<lambda>_.
     and_then (parse_bounded_float (get_or values ''timeout_seconds'' (PFloat (Fin DEFAULT_PLANNER_TIMEOUT_SECONDS)))
       ''planner.timeout_seconds'' 0 MAX_PLANNER_TIMEOUT_SECONDS) (\<lambda>timeout.
     and_then (ensure (0 < timeout) (NotNumber ''planner.timeout_seconds'')) (\<lambda>_.
     and_then (check_legacy values ''mailbox_ttl_seconds'' ''planner.mailbox_ttl_seconds''
       LEGACY_MAX_PLANNER_MAILBOX_TTL_SECONDS) (\<lambda>_.
     and_then (check_legacy values ''busy_timeout_seconds'' ''planner.busy_timeout_seconds''
       LEGACY_MAX_PLANNER_BUSY_TIMEOUT_SECONDS) (\<lambda>_.
     and_then (parse_planner_path lib home
       (get_or values ''path'' (PStr (lit LEGACY_DEFAULT_PLANNER_MAILBOX_PATH)))) (\<lambda>_.
     and_then (parse_rewrite_mode values) (\<lambda>rewrite.
     and_then (parse_planner_mode (get_or values ''mode'' (PStr (lit ''off'')))) (\<lambda>mode.
     and_then (parse_positive_int (get_or values ''history_max_exchanges'' (PInt DEFAULT_PLANNER_HISTORY_MAX_EXCHANGES))
       ''planner.history_max_exchanges'' MAX_PLANNER_HISTORY_EXCHANGES) (\<lambda>exchanges.
     and_then (parse_positive_int (get_or values ''history_max_chars'' (PInt DEFAULT_PLANNER_HISTORY_MAX_CHARS))
       ''planner.history_max_chars'' MAX_PLANNER_HISTORY_CHARS) (\<lambda>chars.
     and_then (parse_positive_int (get_or values ''query_max_chars'' (PInt DEFAULT_PLANNER_QUERY_MAX_CHARS))
       ''planner.query_max_chars'' MAX_PLANNER_QUERY_CHARS) (\<lambda>query.
     Inr \<lparr>pl_mode = mode, pl_rewrite = rewrite, pl_timeout_seconds = timeout,
          pl_history_max_exchanges = exchanges, pl_history_max_chars = chars, pl_query_max_chars = query\<rparr>))))))))))))"

definition MENTAL_MODELS_KEYS :: "string list" where
  "MENTAL_MODELS_KEYS = [''enabled'', ''create_enabled'', ''refresh_enabled'', ''pages_enabled'', ''creation'',
     ''max_models'', ''timeout_seconds'']"

definition policy_result :: "policy_error + 'a \<Rightarrow> config_error + 'a" where
  "policy_result r = (case r of Inl e \<Rightarrow> Inl (BadPolicy e) | Inr x \<Rightarrow> Inr x)"

definition parse_mental_models :: "library \<Rightarrow> py \<Rightarrow> config_error + mental_models_config" where
  "parse_mental_models lib v =
     and_then (expect_mapping v ''mental_models'') (\<lambda>values.
     and_then (check_unknown_keys values MENTAL_MODELS_KEYS ''mental_models'') (\<lambda>_.
     and_then (parse_bool (get_or values ''enabled'' (PBool False)) ''mental_models.enabled'') (\<lambda>enabled.
     and_then (parse_bool (get_or values ''create_enabled'' (PBool False)) ''mental_models.create_enabled'') (\<lambda>create.
     and_then (parse_bool (get_or values ''refresh_enabled'' (PBool False)) ''mental_models.refresh_enabled'') (\<lambda>refresh.
     and_then (parse_bool (get_or values ''pages_enabled'' (PBool False)) ''mental_models.pages_enabled'') (\<lambda>pages.
     and_then (ensure (\<not> ((create \<or> refresh \<or> pages) \<and> \<not> enabled)) ModelsDisabled) (\<lambda>_.
     and_then (policy_result (parse_policy (lib_cron_ok lib) (get_or values ''creation'' (PDict [])) default_policy)) (\<lambda>creation.
     and_then (parse_positive_int (get_or values ''max_models'' (PInt 20)) ''mental_models.max_models'' 20) (\<lambda>models.
     and_then (parse_bounded_float (get_or values ''timeout_seconds'' (PFloat (Fin 10)))
       ''mental_models.timeout_seconds'' 0 30) (\<lambda>timeout.
     Inr \<lparr>mm_enabled = enabled, mm_create_enabled = create, mm_refresh_enabled = refresh,
          mm_pages_enabled = pages, mm_creation = creation, mm_max_models = models,
          mm_timeout_seconds = timeout\<rparr>))))))))))"

definition parse_reflect :: "py \<Rightarrow> config_error + reflect_config" where
  "parse_reflect v =
     and_then (expect_mapping v ''reflect'') (\<lambda>values.
     and_then (check_unknown_keys values REFLECT_KEYS ''reflect'') (\<lambda>_.
     and_then (parse_literal (get_or values ''budget'' (PStr (lit DEFAULT_REFLECT_BUDGET))) ''reflect.budget'' BUDGETS) (\<lambda>budget.
     and_then (if_present (\<lambda>v. parse_literal v ''reflect.tag_mode'' TAG_MODES) (get_or values ''tag_mode'' PNone)) (\<lambda>tag_mode.
     and_then (parse_bool (get_or values ''include_attachments'' (PBool False)) ''reflect.include_attachments'') (\<lambda>attachments.
     and_then (parse_bool (get_or values ''enabled'' (PBool False)) ''reflect.enabled'') (\<lambda>enabled.
     and_then (parse_bounded_float (get_or values ''timeout_seconds'' (PFloat (Fin DEFAULT_REFLECT_TIMEOUT_SECONDS)))
       ''reflect.timeout_seconds'' 0 MAX_REFLECT_TIMEOUT_SECONDS) (\<lambda>timeout.
     and_then (parse_positive_int (get_or values ''input_max_chars'' (PInt DEFAULT_REFLECT_INPUT_MAX_CHARS))
       ''reflect.input_max_chars'' MAX_REFLECT_INPUT_CHARS) (\<lambda>chars.
     and_then (parse_positive_int (get_or values ''input_max_tokens'' (PInt DEFAULT_REFLECT_INPUT_MAX_TOKENS))
       ''reflect.input_max_tokens'' MAX_REFLECT_INPUT_TOKENS) (\<lambda>tokens.
     and_then (parse_positive_int (get_or values ''output_max_bytes'' (PInt DEFAULT_REFLECT_OUTPUT_MAX_BYTES))
       ''reflect.output_max_bytes'' MAX_REFLECT_OUTPUT_BYTES) (\<lambda>bytes.
     and_then (parse_positive_int (get_or values ''max_tokens'' (PInt DEFAULT_REFLECT_MAX_TOKENS))
       ''reflect.max_tokens'' MAX_REFLECT_MAX_TOKENS) (\<lambda>max_tokens.
     and_then (parse_optional_tags (get_or values ''tags'' PNone) ''reflect.tags'') (\<lambda>tags.
     Inr \<lparr>rf_enabled = enabled, rf_timeout_seconds = timeout, rf_input_max_chars = chars,
          rf_input_max_tokens = tokens, rf_include_attachments = attachments, rf_output_max_bytes = bytes,
          rf_budget = budget, rf_max_tokens = max_tokens, rf_tags = tags, rf_tag_mode = tag_mode\<rparr>))))))))))))"

definition MULTIMODAL_KEYS :: "string list" where
  "MULTIMODAL_KEYS = [''enabled'', ''allowed_roots'', ''max_attachments'', ''max_decoded_bytes'', ''max_encoded_bytes'']"

definition parse_root :: "library \<Rightarrow> py \<Rightarrow> config_error + path" where
  "parse_root lib v =
     (case v of
        PStr s \<Rightarrow>
          if s = [] \<or> \<not> fst (parse_path s) then Inl RootNotAbsolute
          else if [46, 46] \<in> set (snd (parse_path s)) \<or> snd (parse_path s) = [] then Inl RootTooBroad
          else
            (case lib_resolve lib (parse_path s) of
               None \<Rightarrow> Inl RootNotResolved
             | Some resolved \<Rightarrow> if resolved = [] then Inl RootTooBroad else Inr resolved)
      | _ \<Rightarrow> Inl RootNotAbsolute)"

definition parse_multimodal :: "library \<Rightarrow> py \<Rightarrow> config_error + multimodal_config" where
  "parse_multimodal lib v =
     and_then (expect_mapping v ''multimodal'') (\<lambda>values.
     and_then (check_unknown_keys values MULTIMODAL_KEYS ''multimodal'') (\<lambda>_.
     and_then (case get_or values ''allowed_roots'' (PList []) of
                 PList roots \<Rightarrow> if 16 < length roots then Inl BadRoots else Inr roots
               | _ \<Rightarrow> Inl BadRoots) (\<lambda>roots.
     and_then (all_of (parse_root lib) roots) (\<lambda>validated.
     and_then (parse_bool (get_or values ''enabled'' (PBool False)) ''multimodal.enabled'') (\<lambda>enabled.
     and_then (ensure (\<not> (enabled \<and> validated = [])) RootsMissing) (\<lambda>_.
     and_then (parse_positive_int (get_or values ''max_attachments'' (PInt 4)) ''multimodal.max_attachments'' 16) (\<lambda>attachments.
     and_then (parse_positive_int (get_or values ''max_decoded_bytes'' (PInt 8388608))
       ''multimodal.max_decoded_bytes'' 16777216) (\<lambda>decoded.
     and_then (parse_positive_int (get_or values ''max_encoded_bytes'' (PInt 12582912))
       ''multimodal.max_encoded_bytes'' 25165824) (\<lambda>encoded.
     Inr \<lparr>mu_enabled = enabled, mu_allowed_roots = sort (remdups validated), mu_max_attachments = attachments,
          mu_max_decoded_bytes = decoded, mu_max_encoded_bytes = encoded\<rparr>)))))))))"

definition parse_observation_scopes :: "py \<Rightarrow> config_error + observation_scopes" where
  "parse_observation_scopes v =
     (case v of
        PNone \<Rightarrow> Inr NoScopes
      | PStr s \<Rightarrow>
          if s = lit ''combined'' then Inr Combined
          else if s = lit ''shared'' then Inr SharedScope
          else Inl BadScopes
      | PList [PList []] \<Rightarrow> Inr SharedScope
      | _ \<Rightarrow> Inl BadScopes)"

definition parse_retain :: "library \<Rightarrow> py \<Rightarrow> config_error + retain_config" where
  "parse_retain lib v =
     and_then (expect_mapping v ''retain'') (\<lambda>values.
     and_then (check_unknown_keys values RETAIN_KEYS ''retain'') (\<lambda>_.
     and_then (parse_bool (get_or values ''enabled'' (PBool False)) ''retain.enabled'') (\<lambda>enabled.
     and_then (parse_bounded_float (get_or values ''timeout_seconds'' (PFloat (Fin DEFAULT_RETAIN_TIMEOUT_SECONDS)))
       ''retain.timeout_seconds'' 0 MAX_RETAIN_TIMEOUT_SECONDS) (\<lambda>timeout.
     and_then (parse_positive_int (get_or values ''segment_max_bytes'' (PInt DEFAULT_RETAIN_SEGMENT_MAX_BYTES))
       ''retain.segment_max_bytes'' MAX_RETAIN_SEGMENT_BYTES) (\<lambda>segment.
     and_then (parse_observation_scopes (get_or values ''observation_scopes'' PNone)) (\<lambda>scopes.
     and_then (canonicalize_retain_tags lib (get_or values ''tags'' (PList []))) (\<lambda>tags.
     Inr \<lparr>rt_enabled = enabled, rt_timeout_seconds = timeout, rt_segment_max_bytes = segment,
          rt_observation_scopes = scopes, rt_tags = tags\<rparr>)))))))"

definition parse_missions :: "py \<Rightarrow> config_error + mission_config" where
  "parse_missions v =
     and_then (expect_mapping v ''missions'') (\<lambda>values.
     and_then (check_unknown_keys values MISSION_KEYS ''missions'') (\<lambda>_.
     and_then (parse_optional_text (get_or values ''retain_mission'' PNone) ''missions.retain_mission'') (\<lambda>retain.
     and_then (parse_optional_text (get_or values ''observations_mission'' PNone) ''missions.observations_mission'') (\<lambda>obs.
     Inr \<lparr>mi_retain = retain, mi_observations = obs\<rparr>))))"

definition parse_outbox :: "library \<Rightarrow> path \<Rightarrow> py \<Rightarrow> config_error + outbox_config" where
  "parse_outbox lib home v =
     and_then (expect_mapping v ''outbox'') (\<lambda>values.
     and_then (check_unknown_keys values OUTBOX_KEYS ''outbox'') (\<lambda>_.
     and_then (parse_outbox_path lib home
       (get_or values ''path'' (PStr (lit ''better_hindsight/outbox.sqlite3'')))) (\<lambda>p.
     and_then (parse_positive_int (get_or values ''max_pending_rows'' (PInt DEFAULT_OUTBOX_MAX_PENDING_ROWS))
       ''outbox.max_pending_rows'' MAX_OUTBOX_PENDING_ROWS) (\<lambda>rows.
     and_then (parse_positive_int (get_or values ''max_pending_bytes'' (PInt DEFAULT_OUTBOX_MAX_PENDING_BYTES))
       ''outbox.max_pending_bytes'' MAX_OUTBOX_PENDING_BYTES) (\<lambda>bytes.
     and_then (parse_bounded_float (get_or values ''busy_timeout_seconds'' (PFloat (Fin DEFAULT_OUTBOX_BUSY_TIMEOUT_SECONDS)))
       ''outbox.busy_timeout_seconds'' 0 MAX_OUTBOX_BUSY_TIMEOUT_SECONDS) (\<lambda>busy.
     and_then (parse_closed_bounded_float (get_or values ''poll_interval_seconds'' (PFloat (Fin DEFAULT_OUTBOX_POLL_INTERVAL_SECONDS)))
       ''outbox.poll_interval_seconds'' MIN_OUTBOX_POLL_INTERVAL_SECONDS MAX_OUTBOX_POLL_INTERVAL_SECONDS) (\<lambda>poll.
     and_then (parse_bounded_float (get_or values ''retry_initial_seconds'' (PFloat (Fin DEFAULT_OUTBOX_RETRY_INITIAL_SECONDS)))
       ''outbox.retry_initial_seconds'' 0 MAX_OUTBOX_RETRY_SECONDS) (\<lambda>initial.
     and_then (parse_bounded_float (get_or values ''retry_max_seconds'' (PFloat (Fin DEFAULT_OUTBOX_RETRY_MAX_SECONDS)))
       ''outbox.retry_max_seconds'' 0 MAX_OUTBOX_RETRY_SECONDS) (\<lambda>longest.
     Inr \<lparr>oc_path = p, oc_max_pending_rows = rows, oc_max_pending_bytes = bytes,
          oc_busy_timeout_seconds = busy, oc_poll_interval_seconds = poll,
          oc_retry_initial_seconds = initial, oc_retry_max_seconds = longest\<rparr>)))))))))"

definition EVALUATION_KEYS :: "string list" where
  "EVALUATION_KEYS = [''enabled'', ''max_records'', ''max_record_bytes'', ''max_age_seconds'']"

definition parse_evaluation :: "py \<Rightarrow> config_error + evaluation_config" where
  "parse_evaluation v =
     and_then (expect_mapping v ''evaluation'') (\<lambda>values.
     and_then (check_unknown_keys values EVALUATION_KEYS ''evaluation'') (\<lambda>_.
     and_then (parse_bool (get_or values ''enabled'' (PBool False)) ''evaluation.enabled'') (\<lambda>enabled.
     and_then (parse_positive_int (get_or values ''max_records'' (PInt 200)) ''evaluation.max_records'' 2000) (\<lambda>records.
     and_then (parse_positive_int (get_or values ''max_record_bytes'' (PInt 524288))
       ''evaluation.max_record_bytes'' 524288) (\<lambda>bytes.
     and_then (parse_positive_int (get_or values ''max_age_seconds'' (PInt 604800))
       ''evaluation.max_age_seconds'' 2592000) (\<lambda>age.
     Inr \<lparr>ev_enabled = enabled, ev_max_records = records, ev_max_record_bytes = bytes,
          ev_max_age_seconds = age\<rparr>))))))"

definition parse_diagnostics :: "library \<Rightarrow> path \<Rightarrow> py \<Rightarrow> config_error + diagnostic_config" where
  "parse_diagnostics lib home v =
     and_then (expect_mapping v ''diagnostics'') (\<lambda>values.
     and_then (check_unknown_keys values DIAGNOSTIC_KEYS ''diagnostics'') (\<lambda>_.
     and_then (parse_bool (get_or values ''enabled'' (PBool False)) ''diagnostics.enabled'') (\<lambda>enabled.
     and_then (parse_diagnostic_path lib home
       (get_or values ''path'' (PStr (lit ''better_hindsight/recall_diagnostics'')))) (\<lambda>p.
     and_then (parse_closed_bounded_float
       (get_or values ''slow_threshold_seconds'' (PFloat (Fin DEFAULT_DIAGNOSTIC_SLOW_THRESHOLD_SECONDS)))
       ''diagnostics.slow_threshold_seconds'' 0.1 MAX_RECALL_TIMEOUT_SECONDS) (\<lambda>slow.
     and_then (parse_positive_int (get_or values ''max_records'' (PInt DEFAULT_DIAGNOSTIC_MAX_RECORDS))
       ''diagnostics.max_records'' MAX_DIAGNOSTIC_RECORDS) (\<lambda>records.
     and_then (parse_closed_bounded_float
       (get_or values ''replay_timeout_seconds'' (PFloat (Fin DEFAULT_DIAGNOSTIC_REPLAY_TIMEOUT_SECONDS)))
       ''diagnostics.replay_timeout_seconds'' 0.1 MAX_DIAGNOSTIC_REPLAY_TIMEOUT_SECONDS) (\<lambda>replay.
     Inr \<lparr>dg_enabled = enabled, dg_path = p, dg_slow_threshold_seconds = slow, dg_max_records = records,
          dg_replay_timeout_seconds = replay\<rparr>)))))))"

definition parse_principal :: "py \<Rightarrow> config_error + allowed_principal" where
  "parse_principal item =
     and_then (expect_mapping item ''allowed_principals'') (\<lambda>values.
     and_then (check_unknown_keys values PRINCIPAL_KEYS ''allowed_principals'') (\<lambda>_.
     and_then (parse_exact_nonempty_string (get_or values ''platform'' PNone) ''platform'') (\<lambda>platform.
     and_then (parse_literal (get_or values ''identifier_kind'' PNone) ''identifier_kind''
       [''user_id'', ''user_id_alt'']) (\<lambda>kind.
     and_then (parse_exact_nonempty_string (get_or values ''identifier'' PNone) ''identifier'') (\<lambda>identifier.
     Inr \<lparr>pr_platform = platform, pr_kind = (if kind = lit ''user_id'' then UserId else UserIdAlt),
          pr_identifier = identifier\<rparr>)))))"

fun collect_principals :: "allowed_principal list \<Rightarrow> py list \<Rightarrow> config_error + allowed_principal list" where
  "collect_principals seen [] = Inr seen"
| "collect_principals seen (item # items) =
     and_then (parse_principal item) (\<lambda>p.
     if p \<in> set seen then Inl (DuplicatePrincipal (length seen)) else collect_principals (seen @ [p]) items)"

definition parse_principals :: "py \<Rightarrow> config_error + allowed_principal list" where
  "parse_principals v =
     (case v of PList items \<Rightarrow> collect_principals [] items | _ \<Rightarrow> Inl NotPrincipalList)"

section \<open>The smallest retained event\<close>

definition minimal_role :: "string \<Rightarrow> json" where
  "minimal_role role = JObj [(''content'', JStr (lit ''x'')), (''role'', JStr (lit role))]"

definition minimum_retained_content_bytes :: "ustr list \<Rightarrow> json list \<Rightarrow> int" where
  "minimum_retained_content_bytes tags roles =
     int (utf8_len (dumps (JObj
       [(''event_id'', JStr (lit (replicate 32 CHR ''0''))),
        (''occurred_at'', JStr (lit ''2000-01-01T00:00:00.000000+00:00'')),
        (''payload_schema'', JStr (lit PAYLOAD_SCHEMA_VERSION)),
        (''record_schema'', JStr (lit RETAINED_EVENT_RECORD_SCHEMA)),
        (''roles'', JList roles),
        (''session_sha256'', JStr (lit (replicate 64 CHR ''0''))),
        (''tags'', JList (map JStr tags))])))"

definition minimum_retained_segment_bytes :: "ustr list \<Rightarrow> int \<Rightarrow> int" where
  "minimum_retained_segment_bytes tags max_pending_rows =
     minimum_retained_content_bytes tags
       ((if max_pending_rows = 1 then [minimal_role ''user''] else []) @ [minimal_role ''assistant''])"

definition minimum_retained_admission_bytes :: "ustr list \<Rightarrow> int \<Rightarrow> int \<Rightarrow> int" where
  "minimum_retained_admission_bytes tags max_pending_rows segment_max_bytes =
     (let complete = minimum_retained_content_bytes tags [minimal_role ''user'', minimal_role ''assistant''] in
      if max_pending_rows = 1 \<or> complete \<le> segment_max_bytes
      then complete + OUTBOX_ROW_ACCOUNTING_ALLOWANCE_BYTES
      else minimum_retained_content_bytes tags [minimal_role ''user''] +
           minimum_retained_content_bytes tags [minimal_role ''assistant''] +
           2 * OUTBOX_ROW_ACCOUNTING_ALLOWANCE_BYTES)"

section \<open>Sources of values\<close>

definition parse_hermes_home :: "library \<Rightarrow> ustr \<Rightarrow> config_error + path" where
  "parse_hermes_home lib text =
     (if text = [] \<or> \<not> fst (parse_path text) then Inl BadHome
      else (case lib_resolve lib (parse_path text) of None \<Rightarrow> Inl BadHome | Some p \<Rightarrow> Inr p))"

text \<open>
  Reading \<open>config.json\<close>: absent, not readable as UTF-8, not JSON, or a document whose objects are
  still lists of pairs. The hook rejects a repeated key in any object, innermost objects first.
\<close>

datatype profile_file = Absent | Unreadable | Malformed | Document py

fun no_duplicate_keys :: "py \<Rightarrow> bool" where
  "no_duplicate_keys (PDict kvs) \<longleftrightarrow>
     list_all (\<lambda>(_, v). no_duplicate_keys v) kvs \<and> distinct (map fst kvs)"
| "no_duplicate_keys (PList xs) \<longleftrightarrow> list_all no_duplicate_keys xs"
| "no_duplicate_keys _ = True"

definition SECRET_WORDS :: "string list" where
  "SECRET_WORDS = [''authorization'', ''credential'', ''credentials'', ''password'', ''passwd'', ''secret'', ''token'']"

definition SECRET_KEY_SUFFIXES :: "string list" where
  "SECRET_KEY_SUFFIXES = [''apikey'', ''accesstoken'', ''authtoken'', ''bearertoken'', ''clientsecret'',
     ''privatekey'', ''password'', ''passwd'', ''authorization'', ''credential'', ''credentials'']"

definition SECRET_KEY_EXACT :: "string list" where
  "SECRET_KEY_EXACT = [''token'', ''secret'']"

text \<open>\<open>re.sub(r"([a-z0-9])([A-Z])", r"\1_\2", key)\<close>.\<close>

fun split_camel :: "ustr \<Rightarrow> ustr" where
  "split_camel (a # b # s) =
     (if join_labels a \<and> 65 \<le> b \<and> b \<le> 90 then a # 95 # split_camel (b # s) else a # split_camel (b # s))"
| "split_camel s = s"

definition is_secret_key :: "library \<Rightarrow> ustr \<Rightarrow> bool" where
  "is_secret_key lib key \<longleftrightarrow>
     (let words = split_on 95 (map (\<lambda>c. if c = 45 then 95 else c) (lib_casefold lib (split_camel key)));
          compact = filter join_labels (lib_casefold lib key)
      in list_ex (\<lambda>w. w \<in> lit ` set SECRET_WORDS) words \<or>
         compact \<in> lit ` set SECRET_KEY_EXACT \<or>
         list_ex (\<lambda>sfx. suffix (lit sfx) compact) SECRET_KEY_SUFFIXES)"

text \<open>\<open>_reject_secret_json_keys\<close>: the stack of values still to visit, its top first.\<close>

definition nested_path :: "ustr \<Rightarrow> ustr \<Rightarrow> ustr" where
  "nested_path p key = (if p = [] then key else p @ [46] @ key)"

definition index_path :: "ustr \<Rightarrow> nat \<Rightarrow> ustr" where
  "index_path p i = p @ [91] @ decimal i @ [93]"

function find_secret :: "(ustr \<Rightarrow> bool) \<Rightarrow> (py \<times> ustr) list \<Rightarrow> ustr option" where
  "find_secret secret [] = None"
| "find_secret secret ((PDict kvs, p) # stack) =
     (case find (\<lambda>(k, _). secret k) kvs of
        Some (k, _) \<Rightarrow> Some (nested_path p k)
      | None \<Rightarrow> find_secret secret (rev (map (\<lambda>(k, v). (v, nested_path p k)) kvs) @ stack))"
| "find_secret secret ((PList xs, p) # stack) =
     find_secret secret (rev (map (\<lambda>(i, v). (v, index_path p i)) (zip [0..<length xs] xs)) @ stack)"
| "find_secret secret ((PNone, p) # stack) = find_secret secret stack"
| "find_secret secret ((PBool b, p) # stack) = find_secret secret stack"
| "find_secret secret ((PInt i, p) # stack) = find_secret secret stack"
| "find_secret secret ((PFloat f, p) # stack) = find_secret secret stack"
| "find_secret secret ((PStr s, p) # stack) = find_secret secret stack"
| "find_secret secret ((PBytes, p) # stack) = find_secret secret stack"
| "find_secret secret ((PObj n, p) # stack) = find_secret secret stack"
  by pat_completeness auto

text \<open>The size that the traversal uses up: one more than the size of every value on the stack.\<close>

lemma size_pairs: "sum_list (map (\<lambda>(v, p). Suc (size v)) (rev (map (\<lambda>(k, v). (v, f k)) kvs))) \<le>
    size_list (size_prod (\<lambda>_. 0) size) (kvs :: (ustr \<times> py) list)"
  by (induction kvs) auto

lemma size_items: "sum_list (map (\<lambda>(v, p). Suc (size v)) (rev (map (\<lambda>(i, v). (v, f i)) (zip ns xs)))) \<le>
    size_list size (xs :: py list)"
proof (induction xs arbitrary: ns)
  case (Cons x xs)
  show ?case using Cons.IH [of "tl ns"] by (cases ns) auto
qed simp

termination find_secret
proof (relation "measure (\<lambda>(_, stack). sum_list (map (\<lambda>(v, p). Suc (size v)) stack))", goal_cases)
  case (2 secret kvs p stack)
  then show ?case using size_pairs [of "nested_path p" kvs] by simp
next
  case (3 secret xs p stack)
  then show ?case using size_items [of "index_path p" "[0..<length xs]" xs] by simp
qed auto

definition reject_secret_json_keys :: "library \<Rightarrow> (ustr \<times> py) list \<Rightarrow> config_error + unit" where
  "reject_secret_json_keys lib kvs =
     (case find_secret (is_secret_key lib) [(PDict kvs, [])] of
        None \<Rightarrow> Inr () | Some p \<Rightarrow> Inl (SecretKey p))"

definition load_profile_json :: "library \<Rightarrow> profile_file \<Rightarrow> config_error + (ustr \<times> py) list" where
  "load_profile_json lib file =
     (case file of
        Absent \<Rightarrow> Inr []
      | Unreadable \<Rightarrow> Inl ProfileUnreadable
      | Malformed \<Rightarrow> Inl ProfileMalformed
      | Document v \<Rightarrow>
          and_then (ensure (no_duplicate_keys v) DuplicateJsonKey) (\<lambda>_.
          and_then (expect_mapping v ''profile config.json'') (\<lambda>kvs.
          and_then (reject_secret_json_keys lib kvs) (\<lambda>_. Inr kvs))))"

definition environment_values :: "(string, ustr) dict \<Rightarrow> (ustr \<times> py) list" where
  "environment_values environ =
     concat (map (\<lambda>(source, target).
         case dict_get environ source of None \<Rightarrow> [] | Some v \<Rightarrow> [(lit target, PStr v)])
       [(''HINDSIGHT_API_URL'', ''api_url''), (''HINDSIGHT_API_KEY'', ''api_key''),
        (''HINDSIGHT_BANK_ID'', ''bank_id'')])"

fun merge_mappings :: "(ustr \<times> py) list \<Rightarrow> (ustr \<times> py) list \<Rightarrow> (ustr \<times> py) list" where
  "merge_mappings merged [] = merged"
| "merge_mappings merged ((key, PDict higher) # items) =
     merge_mappings
       (dict_set merged key
         (PDict (case dict_get merged key of Some (PDict lower) \<Rightarrow> merge_mappings lower higher | _ \<Rightarrow> higher)))
       items"
| "merge_mappings merged ((key, v) # items) = merge_mappings (dict_set merged key v) items"

section \<open>Loading\<close>

definition cross_check :: "bool \<Rightarrow> recall_config \<Rightarrow> planner_config \<Rightarrow> retain_config \<Rightarrow> outbox_config \<Rightarrow> config_error + unit" where
  "cross_check single recall planner retain outbox =
     and_then (ensure (\<not> (rt_observation_scopes retain = SharedScope \<and> \<not> single)) SharedScopeNeedsPrincipal) (\<lambda>_.
     and_then (ensure (\<not> (rc_enabled recall \<and> pl_mode planner \<noteq> Off \<and>
       PLANNER_AND_RECALL_BUDGET_SECONDS < pl_timeout_seconds planner + rc_timeout_seconds recall)) DeadlineBudget) (\<lambda>_.
     (let minimum = minimum_retained_segment_bytes (rt_tags retain) (oc_max_pending_rows outbox) in
     and_then (ensure (\<not> (rt_enabled retain \<and> rt_segment_max_bytes retain < minimum)) (SegmentTooSmall minimum)) (\<lambda>_.
     and_then (ensure (\<not> oc_max_pending_bytes outbox <
       rt_segment_max_bytes retain + OUTBOX_ROW_ACCOUNTING_ALLOWANCE_BYTES) SegmentTooLarge) (\<lambda>_.
     (let admission = minimum_retained_admission_bytes (rt_tags retain) (oc_max_pending_rows outbox)
            (rt_segment_max_bytes retain) in
     and_then (ensure (\<not> (rt_enabled retain \<and> oc_max_pending_bytes outbox < admission)) AdmissionTooSmall) (\<lambda>_.
     ensure (\<not> oc_retry_max_seconds outbox < oc_retry_initial_seconds outbox) RetryOrder)))))))"

definition load_sections :: "library \<Rightarrow> path \<Rightarrow> (ustr \<times> py) list \<Rightarrow> config_error + better_config" where
  "load_sections lib home merged =
     and_then (check_unknown_keys merged ROOT_KEYS []) (\<lambda>_.
     and_then (normalize_api_url lib (get_or merged ''api_url'' (PStr (lit DEFAULT_API_URL)))) (\<lambda>url.
     and_then (parse_api_key (get_or merged ''api_key'' PNone)) (\<lambda>key.
     and_then (parse_bank_id (get_or merged ''bank_id'' (PStr (lit DEFAULT_BANK_ID)))) (\<lambda>bank.
     and_then (parse_bool (get_or merged ''single_principal'' (PBool False)) ''single_principal'') (\<lambda>single.
     and_then (parse_principals (get_or merged ''allowed_principals'' (PList []))) (\<lambda>principals.
     and_then (parse_recall (get_or merged ''recall'' (PDict []))) (\<lambda>recall.
     and_then (parse_planner lib home (get_or merged ''planner'' (PDict []))) (\<lambda>planner.
     and_then (parse_reflect (get_or merged ''reflect'' (PDict []))) (\<lambda>reflect.
     and_then (parse_mental_models lib (get_or merged ''mental_models'' (PDict []))) (\<lambda>models.
     and_then (ensure (\<not> (mm_enabled models \<and> (rc_tags recall \<noteq> None \<or> rc_tag_mode recall \<noteq> None \<or>
       rf_tags reflect \<noteq> None \<or> rf_tag_mode reflect \<noteq> None))) ModelsScoped) (\<lambda>_.
     and_then (parse_retain lib (get_or merged ''retain'' (PDict []))) (\<lambda>retain.
     and_then (parse_multimodal lib (get_or merged ''multimodal'' (PDict []))) (\<lambda>multimodal.
     and_then (parse_missions (get_or merged ''missions'' (PDict []))) (\<lambda>missions.
     and_then (parse_outbox lib home (get_or merged ''outbox'' (PDict []))) (\<lambda>outbox.
     and_then (parse_diagnostics lib home (get_or merged ''diagnostics'' (PDict []))) (\<lambda>diagnostics.
     and_then (cross_check single recall planner retain outbox) (\<lambda>_.
     and_then (parse_evaluation (get_or merged ''evaluation'' (PDict []))) (\<lambda>evaluation.
     Inr \<lparr>hermes_home = home, api_url = url, api_key = key, bank_id = bank, single_principal = single,
          allowed_principals = principals, recall_cfg = recall, planner_cfg = planner, reflect_cfg = reflect,
          mental_models_cfg = models, retain_cfg = retain, multimodal_cfg = multimodal,
          missions_cfg = missions, outbox_cfg = outbox, diagnostics_cfg = diagnostics,
          evaluation_cfg = evaluation\<rparr>))))))))))))))))))"

definition load_config ::
    "library \<Rightarrow> ustr \<Rightarrow> profile_file \<Rightarrow> (string, ustr) dict \<Rightarrow> py \<Rightarrow> config_error + better_config" where
  "load_config lib hermes file environ injected =
     and_then (parse_hermes_home lib hermes) (\<lambda>home.
     and_then (load_profile_json lib file) (\<lambda>profile.
     and_then (expect_mapping injected ''injected values'') (\<lambda>injected_values.
     and_then (ensure (dict_get injected_values (lit ''api_key'') = None) ApiKeyInjected) (\<lambda>_.
     load_sections lib home
       (merge_mappings (merge_mappings profile (environment_values environ)) injected_values)))))"

end
