(* ===== verification/Envelope.thy ===== *)
theory Envelope
  imports Multimodal Retention Config
begin

text \<open>
  Local snapshots of attachments, \<open>multimodal.py\<close>: reading a file below an allowed root, writing it into
  one canonical envelope, and the strict validation of a stored envelope, which is all that delivery
  relies on. A file and its descriptors are a \<open>file_view\<close>: what the successive system calls answer.
\<close>

section \<open>Base64\<close>

definition b64_char :: "nat \<Rightarrow> nat" where
  "b64_char n =
     (if n < 26 then 65 + n else if n < 52 then 71 + n else if n < 62 then n - 4 else if n = 62 then 43 else 47)"

definition b64_value :: "nat \<Rightarrow> nat option" where
  "b64_value c =
     (if 65 \<le> c \<and> c \<le> 90 then Some (c - 65)
      else if 97 \<le> c \<and> c \<le> 122 then Some (c - 71)
      else if 48 \<le> c \<and> c \<le> 57 then Some (c + 4)
      else if c = 43 then Some 62 else if c = 47 then Some 63 else None)"

fun b64encode :: "bytes \<Rightarrow> ustr" where
  "b64encode [] = []"
| "b64encode [a] = [b64_char (a div 4), b64_char (a mod 4 * 16), 61, 61]"
| "b64encode [a, b] = [b64_char (a div 4), b64_char (a mod 4 * 16 + b div 16), b64_char (b mod 16 * 4), 61]"
| "b64encode (a # b # c # bs) =
     [b64_char (a div 4), b64_char (a mod 4 * 16 + b div 16), b64_char (b mod 16 * 4 + c div 64), b64_char (c mod 64)] @
     b64encode bs"

text \<open>
  Decoding with validation. The code accepts a text only when encoding the result gives the text back,
  so what the decoder does with other paddings does not matter.
\<close>

fun b64decode :: "ustr \<Rightarrow> bytes option" where
  "b64decode [] = Some []"
| "b64decode (w # x # y # z # s) =
     (if y = 61 \<and> z = 61 \<and> s = [] then do {
        p \<leftarrow> b64_value w; q \<leftarrow> b64_value x; Some [p * 4 + q div 16] }
      else if z = 61 \<and> s = [] then do {
        p \<leftarrow> b64_value w; q \<leftarrow> b64_value x; r \<leftarrow> b64_value y; Some [p * 4 + q div 16, q mod 16 * 16 + r div 4] }
      else do {
        p \<leftarrow> b64_value w; q \<leftarrow> b64_value x; r \<leftarrow> b64_value y; t \<leftarrow> b64_value z; bs \<leftarrow> b64decode s;
        Some ([p * 4 + q div 16, q mod 16 * 16 + r div 4, r mod 4 * 64 + t] @ bs) })"
| "b64decode s = None"

section \<open>The stored envelope\<close>

definition media_types :: "ustr \<Rightarrow> ustr list" where
  "media_types kind =
     (if kind = lit ''image'' then map lit [''image/png'', ''image/jpeg'', ''image/webp'', ''image/gif'']
      else if kind = lit ''file'' then map lit [''application/pdf'', ''text/plain'']
      else [])"

definition has_keys :: "(ustr \<times> py) list \<Rightarrow> string list \<Rightarrow> bool" where
  "has_keys d ks \<longleftrightarrow> set (map fst d) = set (map lit ks)"

text \<open>
  \<open>json.dumps\<close> of a validated envelope: it holds text, null, lists and dictionaries only, so the
  other values never get here.
\<close>

fun json_of :: "py \<Rightarrow> json option" where
  "json_of PNone = Some JNull"
| "json_of (PBool b) = Some (JBool b)"
| "json_of (PInt i) = Some (JInt i)"
| "json_of (PStr s) = Some (JStr s)"
| "json_of (PList xs) = map_option JList (each id (map json_of xs))"
| "json_of (PDict kvs) =
     map_option JObj (each (\<lambda>(k, j). map_option (Pair (map char_of k)) j) (map (\<lambda>(k, v). (k, json_of v)) kvs))"
| "json_of _ = None"

definition canonical :: "py \<Rightarrow> ustr option" where
  "canonical v = map_option dumps (json_of v)"

text \<open>\<open>mh_aware\<close>: \<open>datetime.fromisoformat\<close> accepts the text and the result has a time zone.\<close>

record multimodal_host =
  mh_word :: "nat \<Rightarrow> bool"
  mh_printable :: "nat \<Rightarrow> bool"
  mh_loads :: "ustr \<Rightarrow> py option"
  mh_aware :: "ustr \<Rightarrow> bool"

definition decode_source :: "(bytes \<Rightarrow> string) \<Rightarrow> ustr \<Rightarrow> py \<Rightarrow> py \<Rightarrow> bytes option" where
  "decode_source sha kind source digest = do {
     d \<leftarrow> exact_dict source;
     _ \<leftarrow> require (has_keys d [''type'', ''media_type'', ''data''] \<and> field d ''type'' = PStr (lit ''base64'') \<and>
            field d ''media_type'' \<in> PStr ` set (media_types kind));
     text_data \<leftarrow> py_str (field d ''data'');
     raw \<leftarrow> b64decode text_data;
     text_digest \<leftarrow> py_str digest;
     _ \<leftarrow> require (raw \<noteq> [] \<and> b64encode raw = text_data \<and> hex_text 64 text_digest \<and> lit (sha raw) = text_digest);
     Some raw }"

definition decode_block :: "(bytes \<Rightarrow> string) \<Rightarrow> multimodal_host \<Rightarrow> py \<times> py \<Rightarrow> bytes option" where
  "decode_block sha host bd = do {
     d \<leftarrow> exact_dict (fst bd);
     kind \<leftarrow> py_str (field d ''type'');
     _ \<leftarrow> require (media_types kind \<noteq> []);
     _ \<leftarrow> require (has_keys d (if kind = lit ''file'' then [''type'', ''source'', ''filename''] else [''type'', ''source'']));
     _ \<leftarrow> require (kind = lit ''file'' \<longrightarrow>
            (case field d ''filename'' of
               PStr name \<Rightarrow> safe_filename (mh_word host) (mh_printable host) name = name
             | _ \<Rightarrow> False));
     decode_source sha kind (field d ''source'') (snd bd) }"

text \<open>The blocks in order, the decoded sizes summed against the bound after each.\<close>

fun decode_blocks :: "(bytes \<Rightarrow> string) \<Rightarrow> multimodal_host \<Rightarrow> int \<Rightarrow> int \<Rightarrow> (py \<times> py) list \<Rightarrow> bytes list option" where
  "decode_blocks sha host maximum seen [] = Some []"
| "decode_blocks sha host maximum seen (bd # bds) = do {
     raw \<leftarrow> decode_block sha host bd;
     _ \<leftarrow> require (seen + int (length raw) \<le> maximum);
     raws \<leftarrow> decode_blocks sha host maximum (seen + int (length raw)) bds;
     Some (raw # raws) }"

definition text_block_ok :: "py \<Rightarrow> bool" where
  "text_block_ok b \<longleftrightarrow>
     (case b of
        PDict d \<Rightarrow>
          has_keys d [''type'', ''text''] \<and> field d ''type'' = PStr (lit ''text'') \<and>
          (case field d ''text'' of PStr s \<Rightarrow> strip s \<noteq> [] \<and> length s \<le> 16384 | _ \<Rightarrow> False)
      | _ \<Rightarrow> False)"

definition context_ok :: "nat \<Rightarrow> py \<Rightarrow> bool" where
  "context_ok n v \<longleftrightarrow> (case v of PNone \<Rightarrow> True | PStr s \<Rightarrow> length s \<le> n | _ \<Rightarrow> False)"

definition ENVELOPE_KEYS :: "string list" where
  "ENVELOPE_KEYS = [''schema'', ''destination'', ''timestamp'', ''context'', ''blocks'', ''sha256'']"

definition decode_envelope ::
    "(bytes \<Rightarrow> string) \<Rightarrow> multimodal_host \<Rightarrow> ustr \<Rightarrow> better_config \<Rightarrow> (ustr \<times> py) list option" where
  "decode_envelope sha host text config = do {
     encoded \<leftarrow> encode_utf8 text;
     _ \<leftarrow> require (int (length encoded) \<le> mu_max_encoded_bytes (multimodal_cfg config));
     v \<leftarrow> mh_loads host text;
     d \<leftarrow> exact_dict v;
     _ \<leftarrow> require (has_keys d ENVELOPE_KEYS);
     _ \<leftarrow> require (field d ''schema'' = PStr (lit MULTIMODAL_PAYLOAD_SCHEMA) \<and>
            field d ''destination'' = PStr (lit (multimodal_destination_fingerprint sha config)));
     timestamp \<leftarrow> py_str (field d ''timestamp'');
     _ \<leftarrow> require (length timestamp \<le> 64 \<and> mh_aware host timestamp);
     _ \<leftarrow> require (context_ok 1024 (field d ''context''));
     blocks \<leftarrow> exact_list (field d ''blocks'');
     _ \<leftarrow> require (2 \<le> length blocks \<and> int (length blocks) \<le> mu_max_attachments (multimodal_cfg config) + 1);
     hashes \<leftarrow> exact_list (field d ''sha256'');
     _ \<leftarrow> require (length hashes = length blocks - 1);
     _ \<leftarrow> require (text_block_ok (hd blocks));
     raws \<leftarrow> decode_blocks sha host (mu_max_decoded_bytes (multimodal_cfg config)) 0 (zip (tl blocks) hashes);
     rendered \<leftarrow> canonical v;
     _ \<leftarrow> require (rendered = text);
     Some d }"

section \<open>Reading a file\<close>

record file_stat =
  sb_regular :: bool
  sb_size :: int
  sb_identity :: "nat \<times> nat"
  sb_times :: "int \<times> int"

text \<open>
  \<open>fv_blocked\<close>: the host forbids reading the path. \<open>fv_opened\<close>: what \<open>fstat\<close> says after every
  directory and the file were opened without following links, \<open>None\<close> when an open fails.
  \<open>fv_current\<close>: the identity of the path then. \<open>fv_data\<close>: the bytes of the file when it is read.
\<close>

record file_view =
  fv_blocked :: bool
  fv_opened :: "file_stat option"
  fv_current :: "(nat \<times> nat) option"
  fv_data :: bytes
  fv_after :: "file_stat option"

definition read_local :: "path list \<Rightarrow> file_view \<Rightarrow> bool \<times> path \<Rightarrow> int \<Rightarrow> bytes option" where
  "read_local roots view p maximum = do {
     _ \<leftarrow> require (fst p \<and> lit ''..'' \<notin> set (snd p) \<and> 0 < maximum);
     _ \<leftarrow> require (list_ex (\<lambda>root. prefix root (snd p)) roots);
     _ \<leftarrow> require (\<not> fv_blocked view);
     status \<leftarrow> fv_opened view;
     _ \<leftarrow> require (sb_regular status \<and> 0 < sb_size status \<and> sb_size status \<le> maximum);
     _ \<leftarrow> require (fv_current view = Some (sb_identity status));
     after \<leftarrow> fv_after view;
     (let data = take (nat maximum + 1) (fv_data view) in do {
        _ \<leftarrow> require (int (length data) = sb_size status \<and> int (length data) \<le> maximum \<and>
               sb_size status = sb_size after \<and> sb_times status = sb_times after);
        Some data }) }"

section \<open>Building a segment\<close>

definition attachment_block :: "(nat \<Rightarrow> bool) \<Rightarrow> (nat \<Rightarrow> bool) \<Rightarrow> ustr \<Rightarrow> ustr \<Rightarrow> ustr \<Rightarrow> bytes \<Rightarrow> py" where
  "attachment_block word printable kind media name raw =
     PDict
       ([(lit ''type'', PStr kind),
         (lit ''source'', PDict [(lit ''type'', PStr (lit ''base64'')), (lit ''media_type'', PStr media),
                                (lit ''data'', PStr (b64encode raw))])] @
        (if kind = lit ''file'' then [(lit ''filename'', PStr (safe_filename word printable name))] else []))"

definition read_attachment ::
    "multimodal_host \<Rightarrow> path list \<Rightarrow> file_view \<Rightarrow> int \<Rightarrow> py \<Rightarrow> (py \<times> bytes) option" where
  "read_attachment host roots view remaining item = do {
     d \<leftarrow> exact_dict item;
     _ \<leftarrow> require (has_keys d [''path'', ''kind'', ''media_type'']);
     kind \<leftarrow> py_str (field d ''kind'');
     media \<leftarrow> py_str (field d ''media_type'');
     _ \<leftarrow> require (media \<in> set (media_types kind));
     name \<leftarrow> py_str (field d ''path'');
     _ \<leftarrow> require (length name \<le> 4096);
     raw \<leftarrow> read_local roots view (parse_path name) remaining;
     Some (attachment_block (mh_word host) (mh_printable host) kind media
             (let parts = snd (parse_path name) in if parts = [] then [] else last parts) raw, raw) }"

fun read_attachments ::
    "multimodal_host \<Rightarrow> path list \<Rightarrow> int \<Rightarrow> (py \<times> file_view) list \<Rightarrow> (py \<times> bytes) list option" where
  "read_attachments host roots remaining [] = Some []"
| "read_attachments host roots remaining ((item, view) # items) = do {
     (block, raw) \<leftarrow> read_attachment host roots view remaining item;
     rest' \<leftarrow> read_attachments host roots (remaining - int (length raw)) items;
     Some ((block, raw) # rest') }"

definition envelope_dict ::
    "(bytes \<Rightarrow> string) \<Rightarrow> multimodal_host \<Rightarrow> better_config \<Rightarrow> ustr \<Rightarrow> ustr \<Rightarrow> ustr option \<Rightarrow> (py \<times> bytes) list
     \<Rightarrow> (ustr \<times> py) list" where
  "envelope_dict sha host config now text label snapshots =
     [(lit ''schema'', PStr (lit MULTIMODAL_PAYLOAD_SCHEMA)),
      (lit ''destination'', PStr (lit (multimodal_destination_fingerprint sha config))),
      (lit ''timestamp'', PStr now),
      (lit ''context'', case label of None \<Rightarrow> PNone | Some c \<Rightarrow> PStr (redact_sensitive_text (mh_word host) c)),
      (lit ''blocks'', PList (PDict [(lit ''type'', PStr (lit ''text'')),
                                    (lit ''text'', PStr (redact_sensitive_text (mh_word host) text))] #
                             map fst snapshots)),
      (lit ''sha256'', PList (map (PStr \<circ> lit \<circ> sha \<circ> snd) snapshots))]"

text \<open>\<open>views\<close> are the answers of the file system, one per attachment; \<open>now\<close> is the rendered time.\<close>

definition build_multimodal_segment ::
    "(bytes \<Rightarrow> string) \<Rightarrow> multimodal_host \<Rightarrow> better_config \<Rightarrow> (nat \<Rightarrow> file_view) \<Rightarrow> ustr \<Rightarrow> ustr \<Rightarrow> ustr option \<Rightarrow> py
     \<Rightarrow> retained_segment option" where
  "build_multimodal_segment sha host config views now text label attachments = do {
     _ \<leftarrow> require (mu_enabled (multimodal_cfg config) \<and> rt_enabled (retain_cfg config));
     items \<leftarrow> exact_list attachments;
     _ \<leftarrow> require (items \<noteq> [] \<and> int (length items) \<le> mu_max_attachments (multimodal_cfg config));
     _ \<leftarrow> require (strip text \<noteq> [] \<and> length text \<le> 16384);
     snapshots \<leftarrow> read_attachments host (mu_allowed_roots (multimodal_cfg config))
                    (mu_max_decoded_bytes (multimodal_cfg config)) (zip items (map views [0..<length items]));
     envelope \<leftarrow> canonical (PDict (envelope_dict sha host config now text label snapshots));
     _ \<leftarrow> decode_envelope sha host envelope config;
     (let source = sha (utf8_bytes envelope);
          digest = derive_segment_payload_hash sha MULTIMODAL_PAYLOAD_SCHEMA source 0 1 envelope
      in Some
        \<lparr>document_id = MULTIMODAL_PAYLOAD_SCHEMA @ '':'' @ digest, payload_hash = digest,
         payload_schema = MULTIMODAL_PAYLOAD_SCHEMA, source_sha256 = source, segment_index = 0,
         segment_count = 1, content = envelope\<rparr>) }"

end
