(* ===== verification/Adapter.thy ===== *)
theory Adapter
  imports Responses Envelope Sender Recall
begin

text \<open>
  The adapter of \<open>client.py\<close>: the request bodies and the calls the runtime makes. \<open>ad_supported\<close> is the
  one piece of state, whether the server's version was found to support attachments; a call gives its
  outcome together with the new state.

  \<open>host\<close> and \<open>order\<close> are the parameters of the decoders; the request of \<open>replay_recall\<close> and its
  comparison with the current configuration are not modelled.
\<close>

record adapter =
  ad_config :: better_config
  ad_supported :: bool

definition new_adapter :: "better_config \<Rightarrow> adapter" where
  "new_adapter config = \<lparr>ad_config = config, ad_supported = False\<rparr>"

definition bank_path :: "better_config \<Rightarrow> ustr" where
  "bank_path config = lit ''/v1/default/banks/'' @ url_quote (bank_id config)"

section \<open>Bodies\<close>

definition opt_text :: "ustr option \<Rightarrow> py" where
  "opt_text s = (case s of None \<Rightarrow> PNone | Some t \<Rightarrow> PStr t)"

definition opt_texts :: "ustr list option \<Rightarrow> py" where
  "opt_texts xs = (case xs of None \<Rightarrow> PNone | Some ts \<Rightarrow> PList (map PStr ts))"

definition opt_score :: "real option \<Rightarrow> py" where
  "opt_score x = (case x of None \<Rightarrow> PNone | Some r \<Rightarrow> PFloat (Fin r))"

text \<open>\<open>value or default\<close>.\<close>

definition text_or :: "ustr option \<Rightarrow> string \<Rightarrow> py" where
  "text_or s default_text = (case truthy s of None \<Rightarrow> PStr (lit default_text) | Some t \<Rightarrow> PStr t)"

definition int_or :: "int option \<Rightarrow> int \<Rightarrow> py" where
  "int_or i n = (case i of None \<Rightarrow> PInt n | Some k \<Rightarrow> if k = 0 then PInt n else PInt k)"

definition recall_body :: "ustr \<Rightarrow> recall_config \<Rightarrow> (ustr \<times> py) list" where
  "recall_body query c =
     (let source_facts =
            (if rc_include_source_facts c = Some True
             then PDict [(lit ''max_tokens'', int_or (rc_max_source_facts_tokens c) 4096),
                         (lit ''max_tokens_per_observation'', PInt (-1))]
             else PNone);
          min_scores =
            (case rc_min_scores c of
               None \<Rightarrow> PNone
             | Some s \<Rightarrow>
                 PDict [(lit ''semantic'', opt_score (ms_semantic s)), (lit ''keyword'', opt_score (ms_keyword s)),
                        (lit ''reranker'', opt_score (ms_reranker s)), (lit ''final'', opt_score (ms_final s))])
      in
        [(lit ''query'', PStr query),
         (lit ''types'', opt_texts (rc_types c)),
         (lit ''prefer_observations'', PBool (rc_prefer_observations c = Some True)),
         (lit ''budget'', text_or (rc_budget c) ''mid''),
         (lit ''max_tokens'', int_or (rc_max_tokens c) 4096),
         (lit ''trace'', PBool False),
         (lit ''query_timestamp'', PNone),
         (lit ''include'', PDict [(lit ''entities'', PNone), (lit ''chunks'', PNone), (lit ''source_facts'', source_facts)]),
         (lit ''tags'', opt_texts (rc_tags c)),
         (lit ''tags_match'', text_or (rc_tag_mode c) ''any''),
         (lit ''tag_groups'', PNone),
         (lit ''min_scores'', min_scores)])"

definition reflect_body :: "ustr \<Rightarrow> reflect_config \<Rightarrow> (ustr \<times> py) list" where
  "reflect_body query c =
     [(lit ''query'', PStr query),
      (lit ''budget'', PStr (rf_budget c)),
      (lit ''max_tokens'', PInt (rf_max_tokens c)),
      (lit ''tags'', opt_texts (rf_tags c)),
      (lit ''tags_match'', text_or (rf_tag_mode c) ''any'')] @
     (if rf_include_attachments c
      then [(lit ''include'', PDict [(lit ''facts'', PDict []), (lit ''tool_calls'', PNone)])] else [])"

definition observation_scopes_wire :: "observation_scopes \<Rightarrow> py" where
  "observation_scopes_wire s =
     (case s of NoScopes \<Rightarrow> PNone | Combined \<Rightarrow> PStr (lit ''combined'') | SharedScope \<Rightarrow> PList [PList []])"

text \<open>The item of one segment; its text, time and context may be replaced by those of an envelope.\<close>

definition retain_item :: "better_config \<Rightarrow> retain_request \<Rightarrow> py \<times> py \<times> py \<Rightarrow> (ustr \<times> py) list" where
  "retain_item config s parts =
     [(lit ''content'', fst parts),
      (lit ''timestamp'', fst (snd parts)),
      (lit ''context'', snd (snd parts)),
      (lit ''metadata'', PDict
         [(lit ''better_hindsight_payload_schema'', PStr (lit (rq_payload_schema s))),
          (lit ''better_hindsight_segment_count'', PStr (show_int (rq_segment_count s))),
          (lit ''better_hindsight_segment_index'', PStr (show_int (rq_segment_index s))),
          (lit ''better_hindsight_source_sha256'', PStr (lit (rq_source_sha256 s)))]),
      (lit ''document_id'', PStr (lit (rq_document_id s))),
      (lit ''entities'', PNone),
      (lit ''tags'', PList (map PStr (rt_tags (retain_cfg config)))),
      (lit ''observation_scopes'', observation_scopes_wire (rt_observation_scopes (retain_cfg config))),
      (lit ''strategy'', PNone),
      (lit ''update_mode'', PStr (lit ''replace''))]"

section \<open>Calls\<close>

type_synonym 'a call = "((client_exn + 'a) \<times> adapter) io"

definition finish_call :: "adapter \<Rightarrow> (client_exn + 'a) io \<Rightarrow> 'a call" where
  "finish_call ad m = bind_io m (\<lambda>r. Return (r, ad))"

definition version_request :: "real option \<Rightarrow> http_request" where
  "version_request timeout =
     \<lparr>hq_method = GET, hq_path = lit ''/version'', hq_body = None, hq_timeout = timeout, hq_limit = Some 32768\<rparr>"

definition decode_version :: "py \<Rightarrow> ustr option" where
  "decode_version v = do { d \<leftarrow> exact_dict v; required_str d ''api_version'' }"

definition require_multimodal_supported :: "string \<Rightarrow> real option \<Rightarrow> adapter \<Rightarrow> unit call" where
  "require_multimodal_supported category timeout ad =
     (if ad_supported ad then Return (Inr (), ad)
      else
        bind_io (observed_http_call category (version_request timeout) decode_version)
          (\<lambda>r. Return
             (case r of
                Inl e \<Rightarrow> (Inl e, ad)
              | Inr version \<Rightarrow>
                  if version \<in> {lit ''0.10.2'', lit ''1.0.0''} then (Inr (), ad\<lparr>ad_supported := True\<rparr>)
                  else (Inl (ClientError (make_client_error category ''schema_invalid'' None)), ad))))"

text \<open>A call that first checks the version when attachments are wanted.\<close>

definition checked_call :: "bool \<Rightarrow> string \<Rightarrow> real option \<Rightarrow> adapter \<Rightarrow> (client_exn + 'a) io \<Rightarrow> 'a call" where
  "checked_call check category timeout ad m =
     (if check then
        bind_io (require_multimodal_supported category timeout ad)
          (\<lambda>(r, ad'). case r of Inl e \<Rightarrow> Return (Inl e, ad') | Inr _ \<Rightarrow> finish_call ad' m)
      else finish_call ad m)"

definition recall_call :: "multimodal_host \<Rightarrow> string list \<Rightarrow> ustr \<Rightarrow> real option \<Rightarrow> adapter \<Rightarrow> recall_response call" where
  "recall_call host order query timeout ad =
     (let config = ad_config ad; include = rc_include_attachments (recall_cfg config) in
      checked_call include ''recall_failed'' timeout ad
        (observed_http_call ''recall_failed''
           \<lparr>hq_method = POST, hq_path = bank_path config @ lit ''/memories/recall'',
            hq_body = Some (PDict (recall_body query (recall_cfg config))), hq_timeout = timeout,
            hq_limit = Some HINDSIGHT_MAX_RECALL_RESPONSE_BYTES\<rparr>
           (decode_recall_response (mh_word host) (mh_printable host) order (bank_id config) include)))"

text \<open>The timeouts the runtime passes are finite; \<open>None\<close> stands for one that is not.\<close>

definition recall_with_timeout ::
    "multimodal_host \<Rightarrow> string list \<Rightarrow> ustr \<Rightarrow> real option \<Rightarrow> adapter \<Rightarrow> recall_response call" where
  "recall_with_timeout host order query timeout ad =
     (case timeout of
        Some t \<Rightarrow>
          if t \<le> 0 then Return (Inl (ClientError (make_client_error ''recall_failed'' ''timeout'' None)), ad)
          else recall_call host order query (Some t) ad
      | None \<Rightarrow> Return (Inl (ClientError (make_client_error ''recall_failed'' ''timeout'' None)), ad))"

definition reflect_call :: "multimodal_host \<Rightarrow> ustr \<Rightarrow> real option \<Rightarrow> adapter \<Rightarrow> (ustr \<times> json list) call" where
  "reflect_call host query timeout ad =
     (let config = ad_config ad; include = rf_include_attachments (reflect_cfg config) in
      checked_call include ''reflect_failed'' timeout ad
        (observed_http_call ''reflect_failed''
           \<lparr>hq_method = POST, hq_path = bank_path config @ lit ''/reflect'',
            hq_body = Some (PDict (reflect_body query (reflect_cfg config))), hq_timeout = timeout,
            hq_limit = Some HINDSIGHT_MAX_REFLECT_RESPONSE_BYTES\<rparr>
           (decode_reflect_response (mh_word host) (mh_printable host) (bank_id config) include)))"

definition reflect_with_timeout ::
    "multimodal_host \<Rightarrow> ustr \<Rightarrow> real option \<Rightarrow> adapter \<Rightarrow> (ustr \<times> json list) call" where
  "reflect_with_timeout host query timeout ad =
     (case timeout of
        Some t \<Rightarrow>
          if t \<le> 0 then Return (Inl (ClientError (make_client_error ''reflect_failed'' ''timeout'' None)), ad)
          else reflect_call host query (Some t) ad
      | None \<Rightarrow> Return (Inl (ClientError (make_client_error ''reflect_failed'' ''timeout'' None)), ad))"

definition retain_http :: "better_config \<Rightarrow> retain_request \<Rightarrow> py \<times> py \<times> py \<Rightarrow> http_request" where
  "retain_http config s parts =
     \<lparr>hq_method = POST, hq_path = bank_path config @ lit ''/memories'',
      hq_body = Some (PDict [(lit ''items'', PList [PDict (retain_item config s parts)]),
                             (lit ''async'', PBool False), (lit ''document_tags'', PNone)]),
      hq_timeout = None, hq_limit = None\<rparr>"

definition retain_call :: "better_config \<Rightarrow> retain_request \<Rightarrow> py \<times> py \<times> py \<Rightarrow> (client_exn + bool) io" where
  "retain_call config s parts =
     observed_http_call ''retain_failed'' (retain_http config s parts) (decode_retain_confirmation (bank_id config))"

definition retain_segment ::
    "(bytes \<Rightarrow> string) \<Rightarrow> multimodal_host \<Rightarrow> retain_request \<Rightarrow> adapter \<Rightarrow> bool call" where
  "retain_segment sha host s ad =
     (let config = ad_config ad;
          invalid = Return (Inl (ClientError (make_client_error ''retain_failed'' ''schema_invalid'' None)), ad)
      in
        if rq_payload_schema s = MULTIMODAL_PAYLOAD_SCHEMA then
          (if \<not> mu_enabled (multimodal_cfg config) \<or> \<not> rt_enabled (retain_cfg config) then invalid
           else
             (case decode_envelope sha host (rq_content s) config of
                None \<Rightarrow> invalid
              | Some envelope \<Rightarrow>
                  checked_call True ''retain_failed'' (Some (rt_timeout_seconds (retain_cfg config))) ad
                    (retain_call config s
                       (field envelope ''blocks'', field envelope ''timestamp'', field envelope ''context''))))
        else finish_call ad (retain_call config s (PStr (rq_content s), opt_text (rq_timestamp s), PNone)))"

section \<open>What the sender sees\<close>

text \<open>
  The outcome of a delivery, when the runner waited for the call: \<open>Confirmed\<close> is the only one that
  lets the row be deleted.
\<close>

definition delivery_of :: "client_exn + bool \<Rightarrow> delivery" where
  "delivery_of r =
     (case r of
        Inr confirmed \<Rightarrow> if confirmed then Confirmed else NotConfirmed
      | Inl TaskCancelled \<Rightarrow> CallCancelled
      | Inl (ClientError _) \<Rightarrow> ClientFailed
      | Inl CallError \<Rightarrow> CallRaised)"

section \<open>What the provider sees\<close>

text \<open>\<open>ProcessRuntime.recall\<close> and \<open>reflect\<close> leave a margin for the runner's own deadline.\<close>

definition native_timeout :: "real \<Rightarrow> real" where
  "native_timeout timeout = timeout - min 0.005 (timeout / 10)"

definition runtime_recall :: "multimodal_host \<Rightarrow> string list \<Rightarrow> ustr \<Rightarrow> real \<Rightarrow> adapter \<Rightarrow> recall_response call" where
  "runtime_recall host order query timeout ad =
     recall_with_timeout host order query (Some (native_timeout timeout)) ad"

definition runtime_reflect :: "multimodal_host \<Rightarrow> ustr \<Rightarrow> real \<Rightarrow> adapter \<Rightarrow> (ustr \<times> json list) call" where
  "runtime_reflect host query timeout ad = reflect_with_timeout host query (Some (native_timeout timeout)) ad"

text \<open>
  A cancellation leaves the call and the prefetch as itself, so it is no outcome; a timeout of the
  transport becomes one of the runner.
\<close>

definition recall_outcome_of :: "client_exn + recall_response \<Rightarrow> recall_outcome option" where
  "recall_outcome_of r =
     (case r of
        Inr response \<Rightarrow> Some (Recalled (Some (map formatted_result (rr_results response))))
      | Inl TaskCancelled \<Rightarrow> None
      | Inl (ClientError e) \<Rightarrow> Some (if ce_reason e = ''timeout'' then RecallTimedOut else RecallClientFailed)
      | Inl CallError \<Rightarrow> Some RecallRaised)"

section \<open>Missions\<close>

definition get_bank_config :: "better_config \<Rightarrow> (client_exn + mission_snapshot) io" where
  "get_bank_config config =
     observed_http_call ''bank_config_failed''
       \<lparr>hq_method = GET, hq_path = bank_path config @ lit ''/config'', hq_body = None, hq_timeout = None, hq_limit = None\<rparr>
       (decode_bank_config (bank_id config))"

definition MISSION_UPDATE_FIELDS :: "string list" where
  "MISSION_UPDATE_FIELDS = [''retain_mission'', ''observations_mission'']"

definition validate_mission_updates :: "(ustr \<times> ustr) list \<Rightarrow> (ustr \<times> ustr) list option" where
  "validate_mission_updates updates =
     (if updates = [] \<or> \<not> set (map fst updates) \<subseteq> set (map lit MISSION_UPDATE_FIELDS) then None
      else if list_ex (\<lambda>(_, v). strip v = []) updates then None
      else Some updates)"

definition patch_missions :: "better_config \<Rightarrow> (ustr \<times> ustr) list \<Rightarrow> http_request" where
  "patch_missions config updates =
     \<lparr>hq_method = PATCH, hq_path = bank_path config @ lit ''/config'',
      hq_body = Some (PDict [(lit ''updates'', PDict (map (\<lambda>(k, v). (k, PStr v)) updates))]),
      hq_timeout = None, hq_limit = None\<rparr>"

definition update_bank_missions :: "better_config \<Rightarrow> (ustr \<times> ustr) list \<Rightarrow> (client_exn + unit) io" where
  "update_bank_missions config updates =
     (case validate_mission_updates updates of
        None \<Rightarrow> Return (Inl CallError)
      | Some copied \<Rightarrow> observed_http_call ''mission_update_failed'' (patch_missions config copied) decode_mission_update)"

definition mental_model_request ::
    "http_method \<Rightarrow> ustr \<Rightarrow> (ustr \<times> py) list option \<Rightarrow> (py \<Rightarrow> 'a option) \<Rightarrow> (client_exn + 'a) io" where
  "mental_model_request meth path body decoder =
     observed_http_call ''mental_models_failed''
       \<lparr>hq_method = meth, hq_path = path, hq_body = map_option PDict body, hq_timeout = None,
        hq_limit = Some (256 * 1024)\<rparr>
       decoder"

end
