(* ===== verification/Missions.thy ===== *)
theory Missions
  imports Adapter
begin

text \<open>
  Operator commands over the client, \<open>management.py\<close>: the queue status, and the check and the confirmed
  application of the bank's missions.

  A command makes its calls through the runtime. Before each call the code reads the clock, so a call may
  not be made at all (\<open>oc_remaining\<close>); the runner may fail or give up before the operation has started
  (\<open>oc_started\<close>); and it may raise after the operation has run (\<open>oc_lost\<close>). A deadline that passes
  during the operation cancels it, which is a reply of the transport. Payload values are strings except in
  the status.
\<close>

section \<open>Results\<close>

record management_result =
  mr_payload :: "(string \<times> string) list"
  mr_exit :: int

definition fixed_error :: "string \<Rightarrow> string \<Rightarrow> management_result" where
  "fixed_error command error = \<lparr>mr_payload = [(''command'', command), (''error'', error), (''result'', ''error'')], mr_exit = 3\<rparr>"

definition authorized :: "better_config \<Rightarrow> bool" where
  "authorized config \<longleftrightarrow> identity_authorized (authorize_cli config None)"

record operator_call_env =
  oc_remaining :: real
  oc_started :: bool
  oc_lost :: bool

text \<open>Whether the operation starts, and what the caller gets: \<open>None\<close> is an exception.\<close>

definition call_starts :: "operator_call_env \<Rightarrow> bool" where
  "call_starts e \<longleftrightarrow> 0 < oc_remaining e \<and> oc_started e"

definition runtime_call :: "operator_call_env \<Rightarrow> (client_exn + 'a) io \<Rightarrow> 'a option io" where
  "runtime_call e m =
     (if call_starts e
      then bind_io m (\<lambda>r. Return (case r of Inl _ \<Rightarrow> None | Inr x \<Rightarrow> if oc_lost e then None else Some x))
      else Return None)"

section \<open>Comparing missions\<close>

datatype mission_state = MissionEqual | MissionDrift | MissionMissing | MissionUnmanaged | MissionError

definition mission_label :: "mission_state \<Rightarrow> string" where
  "mission_label s =
     (case s of
        MissionEqual \<Rightarrow> ''equal'' | MissionDrift \<Rightarrow> ''drift'' | MissionMissing \<Rightarrow> ''missing''
      | MissionUnmanaged \<Rightarrow> ''unmanaged'' | MissionError \<Rightarrow> ''error'')"

definition field_state :: "ustr option \<Rightarrow> mission_value \<Rightarrow> mission_state" where
  "field_state desired remote =
     (case desired of
        None \<Rightarrow> MissionUnmanaged
      | Some d \<Rightarrow>
          (case (mv_present remote, mv_value remote) of
             (True, Some v) \<Rightarrow> if strip v = [] then MissionMissing else if v = d then MissionEqual else MissionDrift
           | _ \<Rightarrow> MissionMissing))"

definition check_result :: "better_config \<Rightarrow> mission_snapshot \<Rightarrow> management_result" where
  "check_result config snapshot =
     (let retain = field_state (mi_retain (missions_cfg config)) (mp_retain snapshot);
          observations = field_state (mi_observations (missions_cfg config)) (mp_observations snapshot);
          states = {retain, observations};
          overall = (if MissionMissing \<in> states then MissionMissing
                     else if MissionDrift \<in> states then MissionDrift
                     else if retain = MissionUnmanaged \<and> observations = MissionUnmanaged then MissionUnmanaged
                     else MissionEqual)
      in \<lparr>mr_payload = [(''command'', ''missions_check''), (''observations_mission'', mission_label observations),
                       (''result'', mission_label overall), (''retain_mission'', mission_label retain)],
          mr_exit = (if overall = MissionEqual \<or> overall = MissionUnmanaged then 0 else 1)\<rparr>)"

definition failed_check_result :: "better_config \<Rightarrow> management_result" where
  "failed_check_result config =
     (let state = (\<lambda>m. mission_label (case m of None \<Rightarrow> MissionUnmanaged | Some _ \<Rightarrow> MissionError)) in
      \<lparr>mr_payload = [(''command'', ''missions_check''), (''observations_mission'', state (mi_observations (missions_cfg config))),
                     (''result'', ''error''), (''retain_mission'', state (mi_retain (missions_cfg config)))],
       mr_exit = 3\<rparr>)"

text \<open>\<open>me_runtime\<close>: the runtime could be built; \<open>me_finalized\<close>: it could be finalized.\<close>

record mission_env =
  me_runtime :: bool
  me_read :: operator_call_env
  me_write :: operator_call_env
  me_readback :: operator_call_env
  me_finalized :: bool

definition check_missions :: "better_config \<Rightarrow> mission_env \<Rightarrow> management_result io" where
  "check_missions config e =
     (if \<not> authorized config then Return (fixed_error ''missions_check'' ''authorization_required'')
      else if \<not> me_runtime e then Return (fixed_error ''missions_check'' ''mission_check_unavailable'')
      else
        bind_io (runtime_call (me_read e) (get_bank_config config))
          (\<lambda>r. Return
             (if \<not> me_finalized e then fixed_error ''missions_check'' ''runtime_cleanup_failed''
              else case r of None \<Rightarrow> failed_check_result config | Some snapshot \<Rightarrow> check_result config snapshot)))"

section \<open>Applying missions\<close>

definition desired_missions :: "better_config \<Rightarrow> (ustr \<times> ustr) list" where
  "desired_missions config =
     (case mi_retain (missions_cfg config) of None \<Rightarrow> [] | Some m \<Rightarrow> [(lit ''retain_mission'', m)]) @
     (case mi_observations (missions_cfg config) of None \<Rightarrow> [] | Some m \<Rightarrow> [(lit ''observations_mission'', m)])"

definition snapshot_field :: "mission_snapshot \<Rightarrow> ustr \<Rightarrow> mission_value" where
  "snapshot_field s k = (if k = lit ''retain_mission'' then mp_retain s else mp_observations s)"

definition mission_updates :: "(ustr \<times> ustr) list \<Rightarrow> mission_snapshot \<Rightarrow> (ustr \<times> ustr) list" where
  "mission_updates desired before =
     filter (\<lambda>(k, v). snapshot_field before k \<noteq> \<lparr>mv_present = True, mv_value = Some v\<rparr>) desired"

definition expected_snapshot :: "mission_snapshot \<Rightarrow> (ustr \<times> ustr) list \<Rightarrow> mission_snapshot" where
  "expected_snapshot before updates =
     (let updated = (\<lambda>k old. case dict_get updates (lit k) of
                        None \<Rightarrow> old | Some v \<Rightarrow> \<lparr>mv_present = True, mv_value = Some v\<rparr>)
      in \<lparr>mp_retain = updated ''retain_mission'' (mp_retain before),
          mp_observations = updated ''observations_mission'' (mp_observations before)\<rparr>)"

definition apply_error :: "string \<Rightarrow> management_result" where
  "apply_error error = fixed_error ''missions_apply'' error"

definition apply_ok :: "string \<Rightarrow> management_result" where
  "apply_ok outcome =
     \<lparr>mr_payload = [(''command'', ''missions_apply''), (''outcome'', outcome), (''result'', ''ok'')], mr_exit = 0\<rparr>"

definition unknown_write_result :: management_result where
  "unknown_write_result =
     \<lparr>mr_payload = [(''command'', ''missions_apply''), (''outcome'', ''write_attempted_outcome_unknown''), (''result'', ''error'')],
      mr_exit = 4\<rparr>"

text \<open>The write and its readback: the result, and whether the write was attempted.\<close>

definition write_missions ::
    "better_config \<Rightarrow> mission_env \<Rightarrow> mission_snapshot \<Rightarrow> (ustr \<times> ustr) list \<Rightarrow> (management_result \<times> bool) io" where
  "write_missions config e before updates =
     (let attempted = call_starts (me_write e);
          failed = (if attempted then unknown_write_result else apply_error ''mission_prewrite_unavailable'')
      in
        bind_io (runtime_call (me_write e) (update_bank_missions config updates))
          (\<lambda>written. case written of
             None \<Rightarrow> Return (failed, attempted)
           | Some _ \<Rightarrow>
               bind_io (runtime_call (me_readback e) (get_bank_config config))
                 (\<lambda>readback. Return
                    (if readback = Some (expected_snapshot before updates) then apply_ok ''verified_success'' else failed,
                     attempted))))"

definition apply_drift ::
    "better_config \<Rightarrow> mission_env \<Rightarrow> mission_snapshot option \<Rightarrow> (management_result \<times> bool) io" where
  "apply_drift config e read =
     (case read of
        None \<Rightarrow> Return (apply_error ''mission_prewrite_unavailable'', False)
      | Some before \<Rightarrow>
          (let updates = mission_updates (desired_missions config) before in
           if updates = [] then Return (apply_ok ''already_equal'', False)
           else write_missions config e before updates))"

definition finish_apply :: "mission_env \<Rightarrow> management_result \<times> bool \<Rightarrow> management_result" where
  "finish_apply e ra =
     (if me_finalized e then fst ra
      else if snd ra then unknown_write_result else apply_error ''runtime_cleanup_failed'')"

text \<open>\<open>None\<close> is the \<open>PermissionError\<close> without confirmation.\<close>

definition apply_missions :: "better_config \<Rightarrow> bool \<Rightarrow> mission_env \<Rightarrow> management_result option io" where
  "apply_missions config confirmed e =
     (if \<not> confirmed then Return None
      else if \<not> authorized config then Return (Some (apply_error ''authorization_required''))
      else if desired_missions config = [] then Return (Some (apply_error ''mission_configuration_missing''))
      else if \<not> me_runtime e then Return (Some (apply_error ''mission_prewrite_unavailable''))
      else
        bind_io (runtime_call (me_read e) (get_bank_config config))
          (\<lambda>read. bind_io (apply_drift config e read) (\<lambda>ra. Return (Some (finish_apply e ra)))))"

section \<open>Queue status\<close>

record outbox_inspection =
  oi_outbox :: ustr
  oi_sender_ownership :: ustr
  oi_mismatch :: int
  oi_pending :: int
  oi_retry :: int
  oi_sending :: int
  oi_logical_queued_bytes :: int
  oi_max_attempt_count :: int
  oi_oldest_created_at :: "real option"
  oi_next_retry_at :: "real option"
  oi_last_error_category :: "ustr option"
  oi_error_counts :: "(ustr \<times> int) list"

definition age_bucket :: "real option \<Rightarrow> real \<Rightarrow> string" where
  "age_bucket oldest now =
     (case oldest of
        None \<Rightarrow> ''none''
      | Some created \<Rightarrow>
          (let age = max 0 (now - created) in
           if age < 60 then ''lt_1m'' else if age < 3600 then ''1m_to_lt_1h''
           else if age < 86400 then ''1h_to_lt_24h'' else ''gte_24h''))"

definition retry_bucket :: "real option \<Rightarrow> real \<Rightarrow> string" where
  "retry_bucket next_retry now =
     (case next_retry of
        None \<Rightarrow> ''none''
      | Some t \<Rightarrow>
          (let remaining = max 0 (t - now) in
           if remaining \<le> 0 then ''due'' else if remaining < 60 then ''lt_1m''
           else if remaining < 300 then ''1m_to_lt_5m'' else if remaining < 3600 then ''5m_to_lt_1h'' else ''gte_1h''))"

definition queued_count :: "outbox_inspection \<Rightarrow> int" where
  "queued_count i = oi_mismatch i + oi_pending i + oi_retry i + oi_sending i"

definition due_work :: "outbox_inspection \<Rightarrow> real \<Rightarrow> bool" where
  "due_work i now \<longleftrightarrow> 0 < queued_count i \<and> (case oi_next_retry_at i of None \<Rightarrow> True | Some t \<Rightarrow> t \<le> now)"

definition degraded :: "outbox_inspection \<Rightarrow> real \<Rightarrow> bool" where
  "degraded i now \<longleftrightarrow>
     0 < oi_mismatch i \<or> 0 < oi_retry i \<or>
     (0 < oi_sending i \<and> (oi_sender_ownership i \<noteq> lit ''held'' \<or> oi_last_error_category i \<noteq> None)) \<or>
     (0 < queued_count i \<and> age_bucket (oi_oldest_created_at i) now \<in> {''1h_to_lt_24h'', ''gte_24h''}) \<or>
     (due_work i now \<and> oi_sender_ownership i = lit ''unavailable'')"

definition error_counts :: "(ustr \<times> int) list \<Rightarrow> (ustr \<times> py) list" where
  "error_counts counts =
     map (\<lambda>k. (lit k, PInt (case dict_get counts (lit k) of None \<Rightarrow> 0 | Some n \<Rightarrow> n)))
       [''retain_failed'', ''retain_timeout'', ''retain_unconfirmed'']"

text \<open>\<open>deployed\<close> is the identity of the installed plugin.\<close>

definition status_payload :: "py \<Rightarrow> outbox_inspection \<Rightarrow> real \<Rightarrow> (ustr \<times> py) list" where
  "status_payload deployed i now =
     [(lit ''age_bucket'', PStr (lit (age_bucket (oi_oldest_created_at i) now))),
      (lit ''command'', PStr (lit ''status'')),
      (lit ''counts'', PDict [(lit ''mismatch'', PInt (oi_mismatch i)), (lit ''pending'', PInt (oi_pending i)),
                             (lit ''retry'', PInt (oi_retry i)), (lit ''sending'', PInt (oi_sending i))]),
      (lit ''deployed'', deployed),
      (lit ''error_counts'', PDict (error_counts (oi_error_counts i))),
      (lit ''last_error_category'', PStr (case truthy (oi_last_error_category i) of None \<Rightarrow> lit ''none'' | Some c \<Rightarrow> c)),
      (lit ''logical_queued_bytes'', PInt (oi_logical_queued_bytes i)),
      (lit ''max_attempt_count'', PInt (oi_max_attempt_count i)),
      (lit ''next_retry_bucket'', PStr (lit (retry_bucket (oi_next_retry_at i) now))),
      (lit ''outbox'', PStr (oi_outbox i)),
      (lit ''result'', PStr (if degraded i now then lit ''degraded'' else lit ''ok'')),
      (lit ''sender_ownership'', PStr (oi_sender_ownership i))]"

end
