(* ===== verification/ClientTheorems.thy ===== *)
theory ClientTheorems
  imports Adapter Samples
begin

text \<open>
  What the client guarantees to the rest of the program: which replies count as a confirmation, what a
  failure may reveal, what of a trace and of an attachment gets through, and what a stored snapshot holds.
\<close>

section \<open>Failures and accepted responses\<close>

lemma client_error_simps [simp]:
  "ce_category (make_client_error category reason status) = category"
  "ce_status (make_client_error category reason status) = status"
  "ce_reason (make_client_error category reason status) \<in> set HINDSIGHT_ERROR_REASONS"
proof -
  have "''unexpected_error'' \<in> set HINDSIGHT_ERROR_REASONS" by (simp add: HINDSIGHT_ERROR_REASONS_def)
  then show "ce_reason (make_client_error category reason status) \<in> set HINDSIGHT_ERROR_REASONS"
    by (simp add: make_client_error_def)
qed (simp_all add: make_client_error_def)

lemma read_body_Inr: "read_body limit body chunks = Inr b \<Longrightarrow> int (length body) \<le> limit \<Longrightarrow> int (length b) \<le> limit"
  by (induction limit body chunks rule: read_body.induct) (auto split: if_splits)

lemma transport_Reply:
  assumes "transport_request loads closed' ex q = Reply r"
  shows "int (js_bytes r) \<le> HINDSIGHT_MAX_RESPONSE_BYTES \<and>
    (hq_limit q \<noteq> None \<longrightarrow> int (js_bytes r) \<le> the (hq_limit q)) \<and>
    (js_status r = 200 \<or> js_status r = 201 \<and> hq_method q = POST)"
proof -
  let ?limit = "case hq_limit q of None \<Rightarrow> HINDSIGHT_MAX_RESPONSE_BYTES | Some n \<Rightarrow> n"
  from assms obtain a where lim: "0 < ?limit" "?limit \<le> HINDSIGHT_MAX_RESPONSE_BYTES" and a: "read_answer loads q ?limit a = Reply r"
    by (auto simp: transport_request_def Let_def split: if_splits http_exchange.splits)
  from a obtain body where b: "read_body ?limit [] (an_chunks a) = Inr body" "js_bytes r = length body"
      "js_status r = an_status a" "an_status a = 200 \<or> page_created q (an_status a)"
    by (auto simp: read_answer_def split: if_splits sum.splits loads_result.splits)
  have "int (length body) \<le> ?limit" using read_body_Inr [OF b(1)] lim(1) by simp
  with b lim show ?thesis by (auto simp: page_created_def split: option.splits)
qed

text \<open>
  C12. Whatever the server, the network and the payload do, an HTTP call of the client ends in one of three
  ways: it is cancelled; it fails with the operation's own category and one of the 26 fixed reasons, so
  nothing of the exchange leaks; or its decoder accepted the payload of a response that was read within
  the byte limit of the request and had the status of success.
\<close>

theorem client_call_outcomes:
  assumes "play (observed_http_call category q decoder) [transport_request loads session_closed ex q] = (tr, Some r)"
  shows "r = Inl TaskCancelled \<or>
    (\<exists>e. r = Inl (ClientError e) \<and> ce_category e = category \<and> ce_reason e \<in> set HINDSIGHT_ERROR_REASONS) \<or>
    (\<exists>x response. r = Inr x \<and> tr = [(q, Reply response)] \<and> decoder (js_payload response) = Some x \<and>
       int (js_bytes response) \<le> HINDSIGHT_MAX_RESPONSE_BYTES \<and>
       (\<forall>n. hq_limit q = Some n \<longrightarrow> int (js_bytes response) \<le> n) \<and>
       (js_status response = 200 \<or> js_status response = 201 \<and> hq_method q = POST))"
proof -
  have r: "r = observed category decoder (transport_request loads session_closed ex q)"
    "tr = [(q, transport_request loads session_closed ex q)]"
    using assms by (auto simp: observed_http_call_def)
  show ?thesis
  proof (cases "transport_request loads session_closed ex q")
    case (Reply response)
    show ?thesis
      using r Reply transport_Reply [OF Reply] by (auto simp: observed_def split: option.splits)
  qed (use r in \<open>auto simp: observed_def\<close>)
qed

section \<open>Confirmations\<close>

text \<open>The payload of a confirmation: one synchronously stored item in this bank.\<close>

definition confirms :: "ustr \<Rightarrow> py \<Rightarrow> bool" where
  "confirms bank v \<longleftrightarrow>
     (case v of
        PDict d \<Rightarrow>
          field d ''success'' = PBool True \<and> field d ''bank_id'' = PStr bank \<and>
          field d ''items_count'' = PInt 1 \<and> field d ''async'' = PBool False
      | _ \<Rightarrow> False)"

lemma decode_confirms: "decode_retain_confirmation bank v = Some True \<longleftrightarrow> confirms bank v"
  by (cases v)
    (auto simp: decode_retain_confirmation_def confirms_def required_bool_def required_str_def py_bool_Some py_str_Some
      exact_Some exact_dict_def bind_eq_Some_conv)

lemma delivery_Confirmed: "delivery_of r = Confirmed \<longleftrightarrow> r = Inr True"
  by (auto simp: delivery_of_def split: sum.splits client_exn.splits)

lemma observed_Inr: "observed category decoder reply = Inr x \<longleftrightarrow> (\<exists>response. reply = Reply response \<and> decoder (js_payload response) = Some x)"
  by (auto simp: observed_def split: transport_reply.splits option.splits)

text \<open>
  The item that stands for a segment: the text of the segment with its time and no context, or, for a
  snapshot, the blocks, the time and the context of the stored document; the segment's identity, the
  configured tags and scopes, to be stored in the place of an earlier item of the same document.
\<close>

definition carries :: "better_config \<Rightarrow> multimodal_host \<Rightarrow> retain_request \<Rightarrow> (ustr \<times> py) list \<Rightarrow> bool" where
  "carries config host s item \<longleftrightarrow>
     (if rq_payload_schema s = MULTIMODAL_PAYLOAD_SCHEMA
      then mu_enabled (multimodal_cfg config) \<and> rt_enabled (retain_cfg config) \<and>
        (case mh_loads host (rq_content s) of
           Some (PDict envelope) \<Rightarrow>
             field item ''content'' = field envelope ''blocks'' \<and> field item ''timestamp'' = field envelope ''timestamp'' \<and>
             field item ''context'' = field envelope ''context''
         | _ \<Rightarrow> False)
      else field item ''content'' = PStr (rq_content s) \<and> field item ''context'' = PNone \<and>
        field item ''timestamp'' = (case rq_timestamp s of None \<Rightarrow> PNone | Some t \<Rightarrow> PStr t)) \<and>
     field item ''document_id'' = PStr (lit (rq_document_id s)) \<and> field item ''update_mode'' = PStr (lit ''replace'') \<and>
     field item ''metadata'' = PDict
       [(lit ''better_hindsight_payload_schema'', PStr (lit (rq_payload_schema s))),
        (lit ''better_hindsight_segment_count'', PStr (show_int (rq_segment_count s))),
        (lit ''better_hindsight_segment_index'', PStr (show_int (rq_segment_index s))),
        (lit ''better_hindsight_source_sha256'', PStr (lit (rq_source_sha256 s)))] \<and>
     field item ''tags'' = PList (map PStr (rt_tags (retain_cfg config))) \<and>
     field item ''observation_scopes'' =
       (case rt_observation_scopes (retain_cfg config) of
          NoScopes \<Rightarrow> PNone | Combined \<Rightarrow> PStr (lit ''combined'') | SharedScope \<Rightarrow> PList [PList []]) \<and>
     field item ''entities'' = PNone \<and> field item ''strategy'' = PNone \<and>
     has_keys item [''content'', ''timestamp'', ''context'', ''metadata'', ''document_id'', ''entities'', ''tags'',
       ''observation_scopes'', ''strategy'', ''update_mode'']"

text \<open>The one request with which a segment is sent: this item alone, to be stored before the answer.\<close>

definition retention_of :: "better_config \<Rightarrow> multimodal_host \<Rightarrow> retain_request \<Rightarrow> http_request \<Rightarrow> bool" where
  "retention_of config host s q \<longleftrightarrow>
     hq_method q = POST \<and> hq_path q = lit ''/v1/default/banks/'' @ url_quote (bank_id config) @ lit ''/memories'' \<and>
     (\<exists>item. hq_body q = Some (PDict [(lit ''items'', PList [PDict item]), (lit ''async'', PBool False),
        (lit ''document_tags'', PNone)]) \<and> carries config host s item)"

lemma field_Cons [simp]: "field ((k, v) # d) k' = (if lit k' = k then v else field d k')"
  by (simp add: field_def dict_get_def)

lemma retention_of_retain_http:
  assumes "rq_payload_schema s \<noteq> MULTIMODAL_PAYLOAD_SCHEMA"
  shows "retention_of config host s (retain_http config s (PStr (rq_content s), opt_text (rq_timestamp s), PNone))"
  using assms
  by (simp add: retention_of_def retain_http_def carries_def retain_item_def lit_inject bank_path_def opt_text_def
      observation_scopes_wire_def has_keys_def insert_commute)

lemma decode_envelope_loads: "decode_envelope sha host text config = Some d \<Longrightarrow> mh_loads host text = Some (PDict d)"
  by (auto simp: decode_envelope_def result_iff bind_eq_Some_conv)

lemma retention_of_snapshot:
  assumes "rq_payload_schema s = MULTIMODAL_PAYLOAD_SCHEMA" "mu_enabled (multimodal_cfg config)" "rt_enabled (retain_cfg config)"
    and "decode_envelope sha host (rq_content s) config = Some d"
  shows "retention_of config host s (retain_http config s (field d ''blocks'', field d ''timestamp'', field d ''context''))"
  using assms(1-3) decode_envelope_loads [OF assms(4)]
  by (simp add: retention_of_def retain_http_def carries_def retain_item_def lit_inject bank_path_def
      observation_scopes_wire_def has_keys_def insert_commute)

lemma wp_observed: "wp (observed_http_call category q decoder) Q tr \<longleftrightarrow>
    (\<forall>reply. Q (tr @ [(q, reply)]) (observed category decoder reply))"
  by (simp add: observed_http_call_def)

lemma wp_finish [simp]: "wp (finish_call ad m) Q tr \<longleftrightarrow> wp m (\<lambda>tr' r. Q tr' (r, ad)) tr"
  by (simp add: finish_call_def)

text \<open>
  C3. A delivery counts as confirmed exactly when the server answered the one request that carries the
  segment, its content, time and context under its document, with a payload that names success, this
  bank, one item and synchronous storage; no attempt sends the segment twice, and the only other request
  is the version check of a snapshot.
\<close>

theorem delivery_confirmed_exactly:
  assumes "play (retain_segment sha host s ad) rs = (tr, Some (r, ad'))"
  shows "length (filter (\<lambda>(q, _). hq_method q = POST) tr) \<le> 1 \<and>
    list_all (\<lambda>(q, _). retention_of (ad_config ad) host s q \<or> hq_method q = GET \<and> hq_path q = lit ''/version'') tr \<and>
    (delivery_of r = Confirmed \<longleftrightarrow>
       list_ex (\<lambda>(q, reply). retention_of (ad_config ad) host s q \<and>
         (case reply of Reply response \<Rightarrow> confirms (bank_id (ad_config ad)) (js_payload response) | _ \<Rightarrow> False)) tr)"
proof -
  let ?Q = "\<lambda>tr (r, ad'). length (filter (\<lambda>(q, _). hq_method q = POST) tr) \<le> 1 \<and>
    list_all (\<lambda>(q, _). retention_of (ad_config ad) host s q \<or> hq_method q = GET \<and> hq_path q = lit ''/version'') tr \<and>
    (delivery_of r = Confirmed \<longleftrightarrow>
       list_ex (\<lambda>(q, reply). retention_of (ad_config ad) host s q \<and>
         (case reply of Reply response \<Rightarrow> confirms (bank_id (ad_config ad)) (js_payload response) | _ \<Rightarrow> False)) tr)"
  have version: "\<not> retention_of (ad_config ad) host s (version_request t)" for t
    by (auto simp: version_request_def retention_of_def)
  have confirmed: "delivery_of (observed ''retain_failed'' (decode_retain_confirmation bank) reply) = Confirmed \<longleftrightarrow>
      (case reply of Reply response \<Rightarrow> confirms bank (js_payload response) | _ \<Rightarrow> False)" for bank reply
    by (cases reply) (auto simp: delivery_Confirmed observed_Inr decode_confirms)
  have call: "wp (retain_call (ad_config ad) s parts) (\<lambda>tr' r. ?Q tr' (r, x)) tr'"
    if "tr' = [] \<or> (\<exists>t reply. tr' = [(version_request t, reply)])"
      and "retention_of (ad_config ad) host s (retain_http (ad_config ad) s parts)" for parts tr' x
  proof -
    let ?q = "retain_http (ad_config ad) s parts"
    have "hq_method ?q = POST" by (simp add: retain_http_def)
    moreover have "hq_method (version_request t) = GET" "hq_path (version_request t) = lit ''/version''" for t
      by (simp_all add: version_request_def)
    ultimately show ?thesis using that confirmed version by (auto simp: retain_call_def wp_observed)
  qed
  have checked: "wp (checked_call True ''retain_failed'' t ad (retain_call (ad_config ad) s parts)) ?Q []"
    if "retention_of (ad_config ad) host s (retain_http (ad_config ad) s parts)" for t parts
    using call that version
    by (auto simp: checked_call_def require_multimodal_supported_def wp_observed version_request_def delivery_Confirmed
        split: sum.splits)
  have "wp (retain_segment sha host s ad) ?Q []"
    using checked [OF retention_of_snapshot] call [of "[]", OF _ retention_of_retain_http]
    by (auto simp: retain_segment_def Let_def delivery_Confirmed split: option.splits)
  from wp_play [OF this assms] show ?thesis by simp
qed

section \<open>Traces\<close>

lemma set_map_filter: "x \<in> set (List.map_filter f xs) \<longleftrightarrow> (\<exists>y \<in> set xs. f y = Some x)"
  by (induction xs) (auto simp: List.map_filter_simps split: option.splits)

lemma length_map_filter: "length (List.map_filter f xs) \<le> length xs"
  by (induction xs) (auto simp: List.map_filter_simps split: option.splits)

text \<open>What may stand in a trace: a truth value, or a number of at most a thousand million.\<close>

definition plain_detail :: "py \<Rightarrow> bool" where
  "plain_detail v \<longleftrightarrow>
     (case v of
        PBool _ \<Rightarrow> True
      | PInt i \<Rightarrow> \<bar>i\<bar> \<le> 1000000000
      | PFloat (Fin x) \<Rightarrow> \<bar>x\<bar> \<le> 1000000000
      | _ \<Rightarrow> False)"

definition safe_phase :: "phase_metric \<Rightarrow> bool" where
  "safe_phase p \<longleftrightarrow>
     ph_name p \<in> set SAFE_TRACE_PHASE_NAMES \<and> 0 \<le> ph_duration p \<and> ph_duration p \<le> 86400 \<and>
     length (ph_details p) \<le> 8 \<and>
     list_all (\<lambda>(name, v). name \<in> set SAFE_TRACE_DETAIL_NAMES \<and> plain_detail v) (ph_details p)"

lemma safe_trace_detail_Some: "safe_trace_detail v = Some w \<Longrightarrow> plain_detail w"
  by (auto simp: safe_trace_detail_def plain_detail_def MAX_TRACE_DETAIL_NUMBER_def split: py.splits pyfloat.splits if_splits)

lemma decode_details_safe:
  "length (decode_details v) \<le> MAX_TRACE_DETAILS"
  "list_all (\<lambda>(name, w). name \<in> set SAFE_TRACE_DETAIL_NAMES \<and> plain_detail w) (decode_details v)"
proof -
  show "length (decode_details v) \<le> MAX_TRACE_DETAILS" by (simp add: decode_details_def split: py.splits)
  have "name \<in> set SAFE_TRACE_DETAIL_NAMES \<and> plain_detail w" if "(name, w) \<in> set (decode_details v)" for name w
    using that by (auto simp: decode_details_def set_map_filter dest!: in_set_takeD dest: safe_trace_detail_Some split: py.splits)
  then show "list_all (\<lambda>(name, w). name \<in> set SAFE_TRACE_DETAIL_NAMES \<and> plain_detail w) (decode_details v)"
    by (auto simp: list_all_iff)
qed

lemma trace_duration_Some: "trace_duration v = Some x \<Longrightarrow> 0 \<le> x \<and> x \<le> MAX_TRACE_DURATION_SECONDS"
  by (auto simp: trace_duration_def split: option.splits if_splits)

lemma decode_phase_safe: "decode_phase v = Some p \<Longrightarrow> safe_phase p"
  using decode_details_safe [unfolded MAX_TRACE_DETAILS_def]
  by (auto simp: decode_phase_def safe_phase_def safe_phase_name_def MAX_TRACE_DURATION_SECONDS_def find_Some_iff dest: trace_duration_Some
      split: py.splits option.splits)

lemma decode_phase_metrics_safe:
  "length (decode_phase_metrics order v) \<le> MAX_TRACE_PHASES" "list_all safe_phase (decode_phase_metrics order v)"
proof -
  have "length (List.map_filter decode_phase (take MAX_TRACE_PHASES xs)) \<le> MAX_TRACE_PHASES" for xs
    using length_map_filter [of decode_phase "take MAX_TRACE_PHASES xs"] by simp
  then show "length (decode_phase_metrics order v) \<le> MAX_TRACE_PHASES"
    by (simp add: decode_phase_metrics_def split: py.splits)
  show "list_all safe_phase (decode_phase_metrics order v)"
    by (auto simp: decode_phase_metrics_def list_all_iff set_map_filter dest: decode_phase_safe split: py.splits)
qed

lemma retrieval_candidate_count_le: "retrieval_candidate_count items \<le> 1000000"
proof -
  let ?f = "\<lambda>item count. case item of
      PDict d \<Rightarrow> (case collection_size (field d ''results'') of None \<Rightarrow> count | Some n \<Rightarrow> min 1000000 (count + n))
    | _ \<Rightarrow> count"
  have "fold ?f xs n \<le> 1000000" if "n \<le> 1000000" for xs and n :: nat
    using that by (induction xs arbitrary: n) (auto split: py.splits option.splits)
  then show ?thesis by (simp add: retrieval_candidate_count_def)
qed

lemma trace_counts_safe:
  "list_all (\<lambda>(name, n). name \<in> set TRACE_COLLECTIONS \<union> {''retrieval_methods'', ''retrieval_candidates''} \<and> n \<le> 1000000)
     (trace_counts trace)"
  using retrieval_candidate_count_le
  by (auto simp: trace_counts_def list_all_iff set_map_filter split: py.splits)

text \<open>
  C23. What a recall trace lets through is bounded and free of content, for every payload the server may
  send and every iteration order of the name set: at most 24 phases with an allowlisted name and a
  duration of at most a day, at most eight allowlisted details per phase whose values are booleans or
  bounded numbers, and counts of eight fixed collections up to a million.
\<close>

theorem trace_is_safe:
  assumes "decode_recall_trace order v = Some t"
  shows "length (tr_phases t) \<le> 24 \<and> list_all safe_phase (tr_phases t) \<and>
    pred_option (\<lambda>x. 0 \<le> x \<and> x \<le> 86400) (tr_total t) \<and>
    list_all (\<lambda>(name, n). name \<in> set TRACE_COLLECTIONS \<union> {''retrieval_methods'', ''retrieval_candidates''} \<and> n \<le> 1000000)
      (tr_counts t)"
  using assms trace_counts_safe decode_phase_metrics_safe [unfolded MAX_TRACE_PHASES_def]
    trace_duration_Some [unfolded MAX_TRACE_DURATION_SECONDS_def]
  by (auto simp: decode_recall_trace_def Let_def pred_option_def split: py.splits if_splits)

section \<open>Attachments\<close>

text \<open>A descriptor of an attachment that the server keeps in this bank.\<close>

definition attachment_of_bank :: "ustr \<Rightarrow> json \<Rightarrow> bool" where
  "attachment_of_bank bank a \<longleftrightarrow>
     (case a of
        JObj kvs \<Rightarrow>
          (case (map_of kvs ''id'', map_of kvs ''url'') of
             (Some (JStr identifier), Some (JStr url)) \<Rightarrow> attachment_id identifier \<and> url = attachment_prefix bank @ identifier
           | _ \<Rightarrow> False) \<and>
          fst ` set kvs \<subseteq> {''id'', ''hash'', ''kind'', ''media_type'', ''byte_size'', ''url'', ''filename''}
      | _ \<Rightarrow> False)"

definition few_attachments :: "ustr \<Rightarrow> json list \<Rightarrow> bool" where
  "few_attachments bank atts \<longleftrightarrow> length atts \<le> MAX_ATTACHMENTS \<and> list_all (attachment_of_bank bank) atts"

lemma attachment_descriptor_of_bank:
  "attachment_descriptor word printable bank item = Some a \<Longrightarrow> attachment_of_bank bank a"
  by (auto simp: attachment_descriptor_def attachment_of_bank_def split: py.splits if_splits)

lemma few_attachment_descriptors: "few_attachments bank (attachment_descriptors word printable bank v)"
  using length_attachment_descriptors [of word printable bank v]
  by (auto simp: few_attachments_def attachment_descriptors_def list_all_iff set_map_filter
      dest!: in_set_takeD dest: attachment_descriptor_of_bank split: py.splits)

lemma few_attachments_Nil [simp]: "few_attachments bank []"
  by (simp add: few_attachments_def)

lemma few_add_attachments:
  "few_attachments bank atts \<Longrightarrow> list_all (attachment_of_bank bank) new \<Longrightarrow> few_attachments bank (fold add_attachment new atts)"
  by (induction new arbitrary: atts) (auto simp: few_attachments_def add_attachment_def)

lemma few_inherit_attachments:
  assumes "few_attachments bank atts" and "list_all (\<lambda>(_, r). few_attachments bank (dr_attachments r)) facts"
  shows "few_attachments bank (inherit_attachments facts sources atts)"
  using assms
proof (induction facts sources atts rule: inherit_attachments.induct)
  case (2 facts source sources atts)
  have new: "few_attachments bank (fold add_attachment (dr_attachments origin) atts)" if "dict_get facts source = Some origin" for origin
    using that 2(3,4) by (intro few_add_attachments) (auto simp: list_all_iff few_attachments_def dest!: dict_get_in_set)
  show ?case
  proof (cases "dict_get facts source")
    case None
    with 2 show ?thesis by simp
  next
    case (Some origin)
    with 2(2) [OF Some refl] new [OF Some] 2(4) show ?thesis by (simp add: Let_def)
  qed
qed simp

lemma decode_result_few:
  "decode_recall_result word printable bank include v = Some r \<Longrightarrow>
     few_attachments bank (dr_attachments r) \<and> (\<not> include \<longrightarrow> dr_attachments r = [])"
  using few_attachment_descriptors by (auto simp: decode_recall_result_def bind_eq_Some_conv)

lemma decode_source_facts_Some:
  assumes "decode_source_facts word printable bank include w = Some (Some fs)"
  shows "\<exists>kvs :: (ustr \<times> py) list. list_all2 (\<lambda>(_, item) y. decode_recall_result word printable bank include item = Some (snd y)) kvs fs"
proof (cases w)
  case (PDict kvs)
  with assms have "list_all2 (\<lambda>(_, item) y. decode_recall_result word printable bank include item = Some (snd y)) kvs fs"
    by (auto simp: decode_source_facts_def each_Some case_prod_beta elim!: list_all2_mono split: if_splits)
  then show ?thesis by blast
qed (use assms in \<open>auto simp: decode_source_facts_def\<close>)

text \<open>
  C22. The attachments that reach the formatter are the bank's own: each recalled result and each source
  fact carries at most eight, also after an observation has inherited those of its sources, and every one
  names a resource below the bank's attachment path and nothing else; none is there unless the
  configuration asks for attachments.
\<close>

theorem recalled_attachments_confined:
  assumes "decode_recall_response word printable order bank include v = Some response"
  shows "list_all (\<lambda>r. few_attachments bank (dr_attachments r) \<and> (\<not> include \<longrightarrow> dr_attachments r = [])) (rr_results response) \<and>
    pred_option (list_all (\<lambda>(_, r). few_attachments bank (dr_attachments r))) (rr_source_facts response)"
proof -
  from assms obtain raw results facts where
    results: "list_all2 (\<lambda>x y. decode_recall_result word printable bank include x = Some y) raw results"
    and facts: "\<exists>w. decode_source_facts word printable bank include w = Some facts"
    and response: "rr_source_facts response = facts"
      "rr_results response = (case facts of Some fs \<Rightarrow> if include \<and> fs \<noteq> [] then map (with_source_attachments fs) results else results
        | None \<Rightarrow> results)"
    by (clarsimp simp: decode_recall_response_def bind_eq_Some_conv each_Some)
      (rule that, assumption, rule exI, assumption, simp_all)
  have few: "few_attachments bank (dr_attachments r) \<and> (\<not> include \<longrightarrow> dr_attachments r = [])" if "r \<in> set results" for r
    using results that by (auto simp: list_all2_conv_all_nth in_set_conv_nth dest!: decode_result_few)
  have sources: "list_all (\<lambda>(_, r). few_attachments bank (dr_attachments r)) fs" if "facts = Some fs" for fs
  proof -
    from facts that obtain w where "decode_source_facts word printable bank include w = Some (Some fs)" by blast
    then obtain kvs :: "(ustr \<times> py) list" where "list_all2 (\<lambda>(_, item) y. decode_recall_result word printable bank include item = Some (snd y)) kvs fs"
      by (auto dest: decode_source_facts_Some)
    then show ?thesis by (induction kvs fs rule: list_all2_induct) (auto dest!: decode_result_few)
  qed
  have "few_attachments bank (dr_attachments (with_source_attachments fs r))" if "r \<in> set results" "facts = Some fs" for r fs
    using few [OF that(1)] few_inherit_attachments [OF _ sources [OF that(2)]] by (auto simp: with_source_attachments_def)
  with few sources response show ?thesis by (auto simp: list_all_iff pred_option_def split: option.splits if_splits)
qed

section \<open>Snapshots\<close>

lemma b64_value_char: "n < 64 \<Longrightarrow> b64_value (b64_char n) = Some n" "n < 64 \<Longrightarrow> b64_char n \<noteq> 61"
  by (auto simp: b64_value_def b64_char_def)

text \<open>Base64 loses nothing.\<close>

lemma b64decode_encode: "list_all (\<lambda>b. b < 256) raw \<Longrightarrow> b64decode (b64encode raw) = Some raw"
proof (induction raw rule: b64encode.induct)
  case (2 a)
  then have "a div 4 < 64" "a mod 4 * 16 < 64" by auto
  then show ?case by (simp add: b64_value_char)
next
  case (3 a b)
  then have "a div 4 < 64" "a mod 4 * 16 + b div 16 < 64" "b mod 16 * 4 < 64" by auto
  moreover have "(a mod 4 * 16 + b div 16) div 16 = a mod 4" "(a mod 4 * 16 + b div 16) mod 16 = b div 16"
    using 3 by auto
  ultimately show ?case using b64_value_char by simp
next
  case (4 a b c bs)
  then have "a div 4 < 64" "a mod 4 * 16 + b div 16 < 64" "b mod 16 * 4 + c div 64 < 64" "c mod 64 < 64" by auto
  moreover have "(a mod 4 * 16 + b div 16) div 16 = a mod 4" "(a mod 4 * 16 + b div 16) mod 16 = b div 16"
    "(b mod 16 * 4 + c div 64) div 4 = b mod 16" "(b mod 16 * 4 + c div 64) mod 4 = c div 64"
    using 4 by auto
  ultimately show ?case using b64_value_char 4 by simp
qed simp

lemma read_local_Some:
  assumes "read_local roots view p maximum = Some raw"
  shows "fst p" "lit ''..'' \<notin> set (snd p)" "\<exists>root \<in> set roots. prefix root (snd p)" "\<not> fv_blocked view"
    "raw = fv_data view" "0 < length raw" "int (length raw) \<le> maximum"
    "\<exists>status. fv_opened view = Some status \<and> sb_regular status \<and> fv_current view = Some (sb_identity status)"
proof -
  from assms obtain status after where
    r: "fst p" "lit ''..'' \<notin> set (snd p)" "0 < maximum" "list_ex (\<lambda>root. prefix root (snd p)) roots" "\<not> fv_blocked view"
      "fv_opened view = Some status" "sb_regular status" "0 < sb_size status" "fv_current view = Some (sb_identity status)"
      "raw = take (nat maximum + 1) (fv_data view)" "int (length raw) = sb_size status" "int (length raw) \<le> maximum"
    by (auto simp: read_local_def bind_eq_Some_conv require_Some Let_def)
  have "length raw \<noteq> nat maximum + 1" using r(3,12) by auto
  then have "raw = fv_data view" using r(10) by (auto simp: min_def split: if_splits)
  with r show "fst p" "lit ''..'' \<notin> set (snd p)" "\<exists>root \<in> set roots. prefix root (snd p)" "\<not> fv_blocked view"
    "raw = fv_data view" "0 < length raw" "int (length raw) \<le> maximum"
    "\<exists>status. fv_opened view = Some status \<and> sb_regular status \<and> fv_current view = Some (sb_identity status)"
    by (auto simp: list_ex_iff)
qed

text \<open>A block that carries the bytes of a regular file below an allowed root.\<close>

definition snapshot_of :: "multimodal_host \<Rightarrow> path list \<Rightarrow> py \<Rightarrow> file_view \<Rightarrow> py \<times> bytes \<Rightarrow> bool" where
  "snapshot_of host roots item view br \<longleftrightarrow>
     (\<exists>d kind media name label. item = PDict d \<and> field d ''path'' = PStr name \<and>
        fst (parse_path name) \<and> lit ''..'' \<notin> set (snd (parse_path name)) \<and>
        list_ex (\<lambda>root. prefix root (snd (parse_path name))) roots \<and> \<not> fv_blocked view \<and>
        (\<exists>status. fv_opened view = Some status \<and> sb_regular status \<and> fv_current view = Some (sb_identity status)) \<and>
        media \<in> set (media_types kind) \<and> snd br = fv_data view \<and> snd br \<noteq> [] \<and>
        fst br = attachment_block (mh_word host) (mh_printable host) kind media label (fv_data view))"

lemma read_attachment_Some:
  assumes "read_attachment host roots view remaining item = Some br"
  shows "snapshot_of host roots item view br" "int (length (snd br)) \<le> remaining"
proof -
  from assms obtain d kind media name label raw where
    r: "item = PDict d" "media \<in> set (media_types kind)" "field d ''path'' = PStr name"
      "read_local roots view (parse_path name) remaining = Some raw"
      "br = (attachment_block (mh_word host) (mh_printable host) kind media label raw, raw)"
    by (auto simp: read_attachment_def bind_eq_Some_conv require_Some exact_Some py_str_Some Let_def)
  with read_local_Some [OF r(4)] show "snapshot_of host roots item view br" "int (length (snd br)) \<le> remaining"
    by (auto simp: snapshot_of_def list_ex_iff)
qed

lemma read_attachments_Some:
  assumes "read_attachments host roots remaining ivs = Some snapshots" and "0 \<le> remaining"
  shows "list_all2 (\<lambda>(item, view) br. snapshot_of host roots item view br) ivs snapshots \<and>
    (\<Sum>br \<leftarrow> snapshots. int (length (snd br))) \<le> remaining"
  using assms
proof (induction ivs arbitrary: remaining snapshots)
  case (Cons iv ivs)
  obtain item view where iv: "iv = (item, view)" by force
  from Cons.prems iv obtain block raw more where
    r: "read_attachment host roots view remaining item = Some (block, raw)"
      "read_attachments host roots (remaining - int (length raw)) ivs = Some more" "snapshots = (block, raw) # more"
    by (auto simp: bind_eq_Some_conv)
  from read_attachment_Some [OF r(1)] Cons.IH [OF r(2)] r(3) iv show ?case by simp
qed simp

lemma decode_envelope_size:
  assumes "decode_envelope sha host text config = Some d"
  shows "encode_utf8 text = Some (utf8_bytes text)" "int (utf8_len text) \<le> mu_max_encoded_bytes (multimodal_cfg config)"
    "text \<noteq> []"
proof -
  from assms obtain encoded v where e: "encode_utf8 text = Some encoded"
      "int (length encoded) \<le> mu_max_encoded_bytes (multimodal_cfg config)" "canonical v = Some text" "exact_dict v = Some d"
    by (auto simp: decode_envelope_def bind_eq_Some_conv require_Some)
  then show "encode_utf8 text = Some (utf8_bytes text)" "int (utf8_len text) \<le> mu_max_encoded_bytes (multimodal_cfg config)"
    by (auto simp: encode_utf8_Some utf8_len_def)
  from e(3,4) show "text \<noteq> []" by (auto simp: canonical_def exact_Some dumps.simps(6))
qed

text \<open>
  C21. A snapshot is faithful and admissible. When one is built, every attachment named a path below an
  allowed root, without parent steps and not blocked by the host, that was opened without following links
  as a regular file and still had the same identity; the envelope carries exactly the bytes of those files
  in order, at most the decoded bound in all; its text fits the encoded bound; and an outbox of the same
  configuration accepts it as a turn of one segment.
\<close>

theorem snapshot_is_faithful:
  assumes "build_multimodal_segment sha host config views now text label attachments = Some seg"
    and "\<And>b. hex_digest 64 (sha b)" and "ob_config ob = config"
  shows "(\<exists>items snapshots. attachments = PList items \<and>
      list_all2 (\<lambda>(item, view) br. snapshot_of host (mu_allowed_roots (multimodal_cfg config)) item view br)
        (zip items (map views [0..<length items])) snapshots \<and>
      (\<Sum>br \<leftarrow> snapshots. int (length (snd br))) \<le> mu_max_decoded_bytes (multimodal_cfg config) \<and>
      canonical (PDict (envelope_dict sha host config now text label snapshots)) = Some (content seg)) \<and>
    int (utf8_len (content seg)) \<le> mu_max_encoded_bytes (multimodal_cfg config) \<and>
    validate_candidates sha (\<lambda>c body. decode_envelope sha host body c \<noteq> None) ob [seg] = Some ([seg], 0)"
proof -
  from assms(1) obtain items snapshots d where
    b: "mu_enabled (multimodal_cfg config)" "rt_enabled (retain_cfg config)" "attachments = PList items" "items \<noteq> []"
      "read_attachments host (mu_allowed_roots (multimodal_cfg config)) (mu_max_decoded_bytes (multimodal_cfg config))
         (zip items (map views [0..<length items])) = Some snapshots"
      "canonical (PDict (envelope_dict sha host config now text label snapshots)) = Some (content seg)"
      "decode_envelope sha host (content seg) config = Some d"
    and seg: "source_sha256 seg = sha (utf8_bytes (content seg))"
      "payload_hash seg = derive_segment_payload_hash sha MULTIMODAL_PAYLOAD_SCHEMA (source_sha256 seg) 0 1 (content seg)"
      "payload_schema seg = MULTIMODAL_PAYLOAD_SCHEMA" "segment_index seg = 0" "segment_count seg = 1"
      "document_id seg = MULTIMODAL_PAYLOAD_SCHEMA @ '':'' @ payload_hash seg"
    by (auto simp: build_multimodal_segment_def bind_eq_Some_conv require_Some exact_Some Let_def)
  have "0 \<le> mu_max_decoded_bytes (multimodal_cfg config)"
  proof (rule ccontr)
    assume "\<not> 0 \<le> mu_max_decoded_bytes (multimodal_cfg config)"
    with b(4,5) show False
      by (cases items) (auto simp: read_attachment_def read_local_def bind_eq_Some_conv require_Some upt_conv_Cons simp del: upt_Suc)
  qed
  from read_attachments_Some [OF b(5) this] b(3,6)
  have "\<exists>items snapshots. attachments = PList items \<and>
      list_all2 (\<lambda>(item, view) br. snapshot_of host (mu_allowed_roots (multimodal_cfg config)) item view br)
        (zip items (map views [0..<length items])) snapshots \<and>
      (\<Sum>br \<leftarrow> snapshots. int (length (snd br))) \<le> mu_max_decoded_bytes (multimodal_cfg config) \<and>
      canonical (PDict (envelope_dict sha host config now text label snapshots)) = Some (content seg)" by blast
  moreover note size = decode_envelope_size [OF b(7)]
  moreover have "valid_segment sha (\<lambda>c body. decode_envelope sha host body c \<noteq> None) ob seg"
    using size seg b(1,2,7) assms(2,3)
    by (auto simp: valid_segment_def Let_def multimodal_fp_enabled_def utf8_len_def derive_segment_payload_hash_def)
  then have "validate_candidates sha (\<lambda>c body. decode_envelope sha host body c \<noteq> None) ob [seg] = Some ([seg], 0)"
    using seg by (simp add: validate_candidates_def dict_set_def)
  ultimately show ?thesis by blast
qed

section \<open>Sample exchanges\<close>

theorem client_call_outcomes_witness:
  "ce_reason (make_client_error ''recall_failed'' (status_outcome 404) (Some 404)) \<in> set HINDSIGHT_ERROR_REASONS"
proof -
  let ?q = "version_request None"
  let ?ex = "Answered \<lparr>an_status = 404, an_content_type = [], an_chunks = []\<rparr>"
  have "play (observed_http_call ''recall_failed'' ?q decode_version) [transport_request (\<lambda>_. NotJson) False ?ex ?q] =
      ([(?q, ReplyError (status_outcome 404) 0 (Some 404))],
       Some (Inl (ClientError (make_client_error ''recall_failed'' (status_outcome 404) (Some 404)))))"
    by (simp add: observed_http_call_def observed_def transport_request_def read_answer_def version_request_def
        HINDSIGHT_MAX_RESPONSE_BYTES_def page_created_def)
  from client_call_outcomes [OF this] show ?thesis by auto
qed

definition sample_media_host :: multimodal_host where
  "sample_media_host =
     \<lparr>mh_word = ascii_word, mh_printable = (\<lambda>c. 32 \<le> c \<and> c < 127), mh_loads = (\<lambda>_. None), mh_aware = (\<lambda>_. True)\<rparr>"

definition sample_retention :: retain_request where
  "sample_retention =
     \<lparr>rq_content = lit ''x'', rq_document_id = ''d'', rq_payload_schema = PAYLOAD_SCHEMA_VERSION, rq_source_sha256 = ''0'',
      rq_segment_index = 0, rq_segment_count = 1, rq_timestamp = None\<rparr>"

definition sample_confirmation :: json_response where
  "sample_confirmation =
     \<lparr>js_payload = PDict [(lit ''success'', PBool True), (lit ''bank_id'', PStr (lit ''b'')), (lit ''items_count'', PInt 1),
                        (lit ''async'', PBool False)],
      js_bytes = 60, js_status = 200\<rparr>"

theorem delivery_confirmed_exactly_witness:
  "fst (the (snd (play (retain_segment sample_digest sample_media_host sample_retention (new_adapter sample_config))
     [Reply sample_confirmation]))) = Inr True"
proof -
  let ?q = "retain_http sample_config sample_retention (PStr (lit ''x''), PNone, PNone)"
  obtain r ad where p: "play (retain_segment sample_digest sample_media_host sample_retention (new_adapter sample_config))
      [Reply sample_confirmation] = ([(?q, Reply sample_confirmation)], Some (r, ad))"
    by (simp add: retain_segment_def sample_retention_def new_adapter_def finish_call_def retain_call_def
        observed_http_call_def opt_text_def Let_def)
  have "confirms (bank_id sample_config) (js_payload sample_confirmation)" by code_simp
  moreover have "retention_of sample_config sample_media_host sample_retention ?q"
  proof -
    have "rq_payload_schema sample_retention \<noteq> MULTIMODAL_PAYLOAD_SCHEMA" "rq_timestamp sample_retention = None"
      "rq_content sample_retention = lit ''x''" by code_simp+
    with retention_of_retain_http [of sample_retention sample_config sample_media_host] show ?thesis by (simp add: opt_text_def)
  qed
  ultimately have "delivery_of r = Confirmed"
    using delivery_confirmed_exactly [OF p] by (simp add: new_adapter_def)
  with p show ?thesis by (simp add: delivery_Confirmed)
qed

definition sample_phase :: py where
  "sample_phase = PDict
     [(lit ''phase_name'', PStr (lit ''reranking'')), (lit ''duration_seconds'', PInt 1),
      (lit ''details'', PDict [(lit ''diagnostic'', PStr (lit ''secret'')), (lit ''result_count'', PInt 5)])]"

definition sample_trace :: py where
  "sample_trace = PDict [(lit ''summary'', PDict [(lit ''phase_metrics'', PList [sample_phase])])]"

lemma sample_phase_decoded:
  "decode_phase sample_phase =
     Some \<lparr>ph_name = ''reranking'', ph_duration = 1, ph_details = [(''result_count'', PInt 5)]\<rparr>"
proof -
  have "decode_details (PDict [(lit ''diagnostic'', PStr (lit ''secret'')), (lit ''result_count'', PInt 5)]) =
      [(''result_count'', PInt 5)]" by code_simp
  moreover have "safe_phase_name (PStr (lit ''reranking'')) = Some ''reranking''" by code_simp
  moreover have "trace_duration (PInt 1) = Some 1"
    by (simp add: trace_duration_def optional_finite_number_def float_of_int_def float_limit_def MAX_TRACE_DURATION_SECONDS_def)
  ultimately show ?thesis by (simp add: decode_phase_def sample_phase_def lit_inject)
qed

theorem trace_is_safe_witness:
  "\<exists>t. decode_recall_trace [] sample_trace = Some t \<and> length (tr_phases t) = 1 \<and> list_all safe_phase (tr_phases t)"
proof -
  obtain t where "decode_recall_trace [] sample_trace = Some t" "length (tr_phases t) = 1"
    by (simp add: decode_recall_trace_def sample_trace_def lit_inject decode_phase_metrics_def MAX_TRACE_PHASES_def
        sample_phase_decoded List.map_filter_simps)
  with trace_is_safe [OF this(1)] show ?thesis by auto
qed

definition sample_recall_payload :: py where
  "sample_recall_payload =
     PDict [(lit ''results'', PList [PDict
       [(lit ''id'', PStr (lit ''m'')), (lit ''text'', PStr (lit ''hi'')),
        (lit ''attachments'', PList [PDict
           [(lit ''id'', PStr (lit ''a'')), (lit ''hash'', PStr (replicate 64 48)), (lit ''kind'', PStr (lit ''image'')),
            (lit ''media_type'', PStr (lit ''image/png'')), (lit ''byte_size'', PInt 3),
            (lit ''url'', PStr (lit ''/v1/default/banks/b/attachments/a''))]])]])]"

theorem recalled_attachments_confined_witness:
  "list_all (\<lambda>r. few_attachments (lit ''b'') (dr_attachments r))
     (rr_results (the (decode_recall_response ascii_word (\<lambda>_. True) [] (lit ''b'') True sample_recall_payload)))"
proof -
  have "decode_recall_response ascii_word (\<lambda>_. True) [] (lit ''b'') True sample_recall_payload \<noteq> None" by code_simp
  then obtain response where
    d: "decode_recall_response ascii_word (\<lambda>_. True) [] (lit ''b'') True sample_recall_payload = Some response" by blast
  from recalled_attachments_confined [OF d] d show ?thesis by (auto simp: list_all_iff)
qed

definition sample_multimodal :: better_config where
  "sample_multimodal =
     sample_config\<lparr>multimodal_cfg :=
       \<lparr>mu_enabled = True, mu_allowed_roots = [[lit ''r'']], mu_max_attachments = 1, mu_max_decoded_bytes = 10,
        mu_max_encoded_bytes = 4000\<rparr>\<rparr>"

definition sample_file :: file_view where
  "sample_file =
     (let status = \<lparr>sb_regular = True, sb_size = 2, sb_identity = (1, 2), sb_times = (0, 0)\<rparr> in
      \<lparr>fv_blocked = False, fv_opened = Some status, fv_current = Some (1, 2), fv_data = [104, 105], fv_after = Some status\<rparr>)"

definition sample_snapshots :: "(py \<times> bytes) list" where
  "sample_snapshots = [(attachment_block ascii_word (mh_printable sample_media_host) (lit ''image'') (lit ''image/png'') [] [104, 105], [104, 105])]"

definition snapshot_host :: multimodal_host where
  "snapshot_host =
     sample_media_host\<lparr>mh_loads := (\<lambda>_. Some (PDict (envelope_dict sample_digest sample_media_host sample_multimodal (lit ''now'') (lit ''hi'') None
       sample_snapshots)))\<rparr>"

definition sample_attachments :: py where
  "sample_attachments =
     PList [PDict [(lit ''path'', PStr (lit ''/r/a'')), (lit ''kind'', PStr (lit ''image'')), (lit ''media_type'', PStr (lit ''image/png''))]]"

theorem snapshot_is_faithful_witness:
  "int (utf8_len (content (the (build_multimodal_segment sample_digest snapshot_host sample_multimodal (\<lambda>_. sample_file)
     (lit ''now'') (lit ''hi'') None sample_attachments)))) \<le> 4000"
proof -
  have "build_multimodal_segment sample_digest snapshot_host sample_multimodal (\<lambda>_. sample_file)
     (lit ''now'') (lit ''hi'') None sample_attachments \<noteq> None" by code_simp
  then obtain seg where b: "build_multimodal_segment sample_digest snapshot_host sample_multimodal (\<lambda>_. sample_file)
     (lit ''now'') (lit ''hi'') None sample_attachments = Some seg" by blast
  have "ob_config ((sample_outbox [])\<lparr>ob_config := sample_multimodal\<rparr>) = sample_multimodal" by simp
  from snapshot_is_faithful [OF b hex_digest_sample this] b show ?thesis by (simp add: sample_multimodal_def)
qed

end
