(* ===== verification/MissionTheorems.thy ===== *)
theory MissionTheorems
  imports Missions ClientTheorems
begin

text \<open>What the operator may conclude from the result of a mission command and from the queue status.\<close>

section \<open>Applying missions\<close>

definition mission_set :: "mission_snapshot \<Rightarrow> ustr \<times> ustr \<Rightarrow> bool" where
  "mission_set s kv \<longleftrightarrow> snapshot_field s (fst kv) = \<lparr>mv_present = True, mv_value = Some (snd kv)\<rparr>"

lemma mission_keys [simp]: "lit ''retain_mission'' \<noteq> lit ''observations_mission''"
  "lit ''observations_mission'' \<noteq> lit ''retain_mission''"
  by (simp_all add: lit_inject)

lemma expected_desired:
  "list_all (mission_set (expected_snapshot before (mission_updates (desired_missions config) before))) (desired_missions config)"
  by (auto simp: desired_missions_def mission_updates_def expected_snapshot_def mission_set_def snapshot_field_def
      dict_get_def Let_def split: option.splits)

lemma no_updates: "mission_updates desired before = [] \<longleftrightarrow> list_all (mission_set before) desired"
  by (auto simp: mission_updates_def mission_set_def list_all_iff filter_empty_conv)

lemma expected_no_updates: "expected_snapshot before [] = before"
  by (simp add: expected_snapshot_def Let_def dict_get_def)

text \<open>A reply that shows the missions of the bank.\<close>

definition shows_missions :: "better_config \<Rightarrow> exchange \<Rightarrow> mission_snapshot \<Rightarrow> bool" where
  "shows_missions config x s \<longleftrightarrow>
     hq_method (fst x) = GET \<and>
     (case snd x of Reply response \<Rightarrow> decode_bank_config (bank_id config) (js_payload response) = Some s | _ \<Rightarrow> False)"

definition patches :: "exchange list \<Rightarrow> http_request list" where
  "patches tr = filter (\<lambda>q. hq_method q = PATCH) (map fst tr)"

text \<open>The write of exactly the configured missions that a reply showed to differ, stated without the code that
selects them.\<close>

definition drift_patch :: "better_config \<Rightarrow> exchange \<Rightarrow> http_request \<Rightarrow> bool" where
  "drift_patch config x q \<longleftrightarrow>
     (\<exists>before drifted. shows_missions config x before \<and> q = patch_missions config drifted \<and> drifted \<noteq> [] \<and>
        drifted = filter (\<lambda>kv. \<not> mission_set before kv) (desired_missions config))"

lemma mission_updates_drifted: "mission_updates desired before = filter (\<lambda>kv. \<not> mission_set before kv) desired"
  by (simp add: mission_updates_def mission_set_def case_prod_unfold)

text \<open>What holds of the exchanges and the result of one application.\<close>

definition apply_sound :: "better_config \<Rightarrow> exchange list \<Rightarrow> management_result \<Rightarrow> bool" where
  "apply_sound config tr result \<longleftrightarrow>
     length (patches tr) \<le> 1 \<and>
     (patches tr \<noteq> [] \<longrightarrow> mr_exit result \<in> {0, 4}) \<and>
     (mr_exit result = 0 \<longrightarrow> (\<exists>before after. tr \<noteq> [] \<and> shows_missions config (hd tr) before \<and> shows_missions config (last tr) after \<and>
        after = expected_snapshot before (mission_updates (desired_missions config) before) \<and>
        list_all (mission_set after) (desired_missions config))) \<and>
     list_all (drift_patch config (hd tr)) (patches tr)"

definition write_sound :: "better_config \<Rightarrow> exchange list \<Rightarrow> management_result \<times> bool \<Rightarrow> bool" where
  "write_sound config tr ra \<longleftrightarrow>
     apply_sound config tr (fst ra) \<and> apply_sound config tr unknown_write_result \<and>
     (\<not> snd ra \<longrightarrow> patches tr = [] \<and> mr_exit (fst ra) = 3)"

lemma exits [simp]:
  "mr_exit (apply_error s) = 3" "mr_exit unknown_write_result = 4" "mr_exit (apply_ok s) = 0"
  by (simp_all add: apply_error_def fixed_error_def unknown_write_result_def apply_ok_def)

lemma wp_runtime_call:
  "wp (runtime_call e m) Q tr \<longleftrightarrow>
     (if call_starts e
      then wp m (\<lambda>tr' r. Q tr' (case r of Inl _ \<Rightarrow> None | Inr x \<Rightarrow> if oc_lost e then None else Some x)) tr
      else Q tr None)"
  by (simp add: runtime_call_def)

lemma wp_read:
  assumes "\<And>tr'. tr' = tr \<or> (\<exists>q reply. tr' = tr @ [(q, reply)] \<and> hq_method q = GET) \<Longrightarrow> Q tr' None"
    and "\<And>q reply s. hq_method q = GET \<Longrightarrow> shows_missions config (q, reply) s \<Longrightarrow> Q (tr @ [(q, reply)]) (Some s)"
  shows "wp (runtime_call e (get_bank_config config)) Q tr"
proof -
  let ?q = "\<lparr>hq_method = GET, hq_path = bank_path config @ lit ''/config'', hq_body = None, hq_timeout = None, hq_limit = None\<rparr>"
  have "Q (tr @ [(?q, reply)]) (case observed ''bank_config_failed'' (decode_bank_config (bank_id config)) reply of
      Inl _ \<Rightarrow> None | Inr x \<Rightarrow> if oc_lost e then None else Some x)" for reply
  proof (cases "observed ''bank_config_failed'' (decode_bank_config (bank_id config)) reply")
    case (Inl a)
    then show ?thesis using assms(1) by simp
  next
    case (Inr s)
    then have "shows_missions config (?q, reply) s" by (auto simp: observed_Inr shows_missions_def)
    with Inr show ?thesis using assms by simp
  qed
  then show ?thesis using assms(1) by (simp add: wp_runtime_call get_bank_config_def wp_observed)
qed

lemma wp_write:
  assumes start: "shows_missions config (hd tr) before" "length tr = 1"
    and updates: "updates = mission_updates (desired_missions config) before" "updates \<noteq> []"
  shows "wp (write_missions config e before updates)
    (write_sound config) tr"
proof -
  obtain x where tr: "tr = [x]" using start(2) by (cases tr) auto
  have get: "hq_method (fst x) = GET" using start(1) tr by (simp add: shows_missions_def)
  let ?q = "patch_missions config updates"
  have q: "hq_method ?q = PATCH" "drift_patch config x ?q"
    using start(1) updates tr by (auto simp: patch_missions_def drift_patch_def mission_updates_drifted)
  have unknown: "apply_sound config tr' unknown_write_result" if "tr' = [x] \<or> (\<exists>r y. tr' = [x, (?q, r)] \<or> tr' = [x, (?q, r), y] \<and> hq_method (fst y) = GET)" for tr'
    using that get q by (auto simp: apply_sound_def patches_def)
  show ?thesis
  proof (cases "call_starts (me_write e)")
    case False
    then show ?thesis
      using unknown [of "[x]"] get tr by (simp add: write_missions_def Let_def wp_runtime_call write_sound_def apply_sound_def patches_def)
  next
    case True
    note written = True
    have reread: "wp (bind_io (runtime_call (me_readback e) (get_bank_config config))
        (\<lambda>readback. Return (if readback = Some (expected_snapshot before updates) then apply_ok ''verified_success''
           else unknown_write_result, True)))
      (write_sound config)
      [x, (?q, r)]" for r
      unfolding wp_bind
    proof (rule wp_read)
      fix tr'
      assume "tr' = [x, (?q, r)] \<or> (\<exists>q reply. tr' = [x, (?q, r)] @ [(q, reply)] \<and> hq_method q = GET)"
      then have "tr' = [x] \<or> (\<exists>r y. tr' = [x, (?q, r)] \<or> tr' = [x, (?q, r), y] \<and> hq_method (fst y) = GET)" by auto
      from unknown [OF this] show "wp (Return (if None = Some (expected_snapshot before updates) then apply_ok ''verified_success''
          else unknown_write_result, True))
        (write_sound config) tr'" by (simp add: write_sound_def)
    next
      fix q reply s
      assume read: "hq_method q = GET" "shows_missions config (q, reply) s"
      then have u: "apply_sound config ([x, (?q, r)] @ [(q, reply)]) unknown_write_result" using unknown by auto
      have "apply_sound config ([x, (?q, r)] @ [(q, reply)]) (apply_ok ''verified_success'')"
        if "s = expected_snapshot before updates"
        using read that get start(1) tr updates expected_desired q
        by (auto simp: apply_sound_def patches_def)
      with u show "wp (Return (if Some s = Some (expected_snapshot before updates) then apply_ok ''verified_success''
          else unknown_write_result, True))
        (write_sound config)
        ([x, (?q, r)] @ [(q, reply)])" by (simp add: write_sound_def)
    qed
    show ?thesis
    proof (cases "validate_mission_updates updates")
      case None
      with written unknown [of "[x]"] get tr show ?thesis
        by (simp add: write_missions_def Let_def wp_runtime_call update_bank_missions_def write_sound_def)
    next
      case (Some copied)
      then have "copied = updates" by (auto simp: validate_mission_updates_def split: if_splits)
      with Some written unknown reread tr show ?thesis
        by (auto simp: write_missions_def Let_def wp_runtime_call update_bank_missions_def wp_observed write_sound_def
            split: sum.splits)
    qed
  qed
qed

lemma quiet_error: "patches tr = [] \<Longrightarrow> apply_sound config tr (apply_error s)"
  by (simp add: apply_sound_def)

lemma wp_drift_unread:
  assumes "patches tr = []"
  shows "wp (apply_drift config e None) (\<lambda>tr ra. apply_sound config tr (finish_apply e ra)) tr"
  using assms by (simp add: apply_drift_def finish_apply_def quiet_error)

lemma wp_drift_read:
  assumes "hq_method q = GET" "shows_missions config (q, reply) s"
  shows "wp (apply_drift config e (Some s)) (\<lambda>tr ra. apply_sound config tr (finish_apply e ra)) [(q, reply)]"
proof (cases "mission_updates (desired_missions config) s = []")
  case True
  have none: "patches [(q, reply)] = []" using assms(1) by (simp add: patches_def)
  have "apply_sound config [(q, reply)] (apply_ok ''already_equal'')"
    using assms none True expected_no_updates [of s] expected_desired [of s config] by (auto simp: apply_sound_def)
  then show ?thesis using none True by (simp add: apply_drift_def finish_apply_def quiet_error)
next
  case False
  have "wp (write_missions config e s (mission_updates (desired_missions config) s))
      (\<lambda>tr ra. apply_sound config tr (finish_apply e ra)) [(q, reply)]"
    by (rule wp_mono [OF wp_write]) (use assms False in \<open>auto simp: write_sound_def finish_apply_def quiet_error\<close>)
  then show ?thesis using False by (simp add: apply_drift_def Let_def)
qed

text \<open>
  C11. The result of applying missions can be trusted. Whatever the server and the runtime do, at most one
  write is sent, and only after a reply of this bank; the write holds exactly the configured missions that
  reply showed to differ. Exit status 0 means that the last reply of the bank shows every configured
  mission, and every other mission as it was before. Once a write has been sent the status is 0 or 4, the
  unknown outcome, and never a claim that nothing was written.
\<close>

theorem apply_missions_verified:
  assumes "play (apply_missions config confirmed e) rs = (tr, Some (Some result))"
  shows "confirmed \<and> apply_sound config tr result"
proof -
  let ?Q = "\<lambda>tr r. \<forall>result. r = Some result \<longrightarrow> apply_sound config tr result"
  have read: "wp (runtime_call (me_read e) (get_bank_config config))
      (\<lambda>tr read. wp (apply_drift config e read) (\<lambda>tr ra. apply_sound config tr (finish_apply e ra)) tr) []"
    by (rule wp_read) (auto intro: wp_drift_unread wp_drift_read simp: patches_def)
  have early: "apply_sound config [] (apply_error s)" for s by (simp add: quiet_error patches_def)
  have "wp (apply_missions config True e) ?Q []"
    using read early by (simp add: apply_missions_def)
  moreover have "confirmed" using assms by (cases confirmed) (simp_all add: apply_missions_def)
  ultimately show ?thesis using wp_play [where rs = rs] assms by fastforce
qed

definition sample_missions :: better_config where
  "sample_missions =
     sample_config\<lparr>missions_cfg := \<lparr>mi_retain = Some (lit ''m''), mi_observations = None\<rparr>\<rparr>"

definition sample_bank_reply :: "ustr \<Rightarrow> transport_reply" where
  "sample_bank_reply mission =
     Reply \<lparr>js_payload = PDict [(lit ''bank_id'', PStr (lit ''b'')), (lit ''config'', PDict [(lit ''retain_mission'', PStr mission)]),
                               (lit ''overrides'', PDict [])],
            js_bytes = 60, js_status = 200\<rparr>"

definition sample_mission_env :: mission_env where
  "sample_mission_env =
     (let call = \<lparr>oc_remaining = 1, oc_started = True, oc_lost = False\<rparr> in
      \<lparr>me_runtime = True, me_read = call, me_write = call, me_readback = call, me_finalized = True\<rparr>)"

theorem apply_missions_verified_witness:
  "apply_sound sample_missions
     (fst (play (apply_missions sample_missions True sample_mission_env)
        [sample_bank_reply (lit ''old''), sample_bank_reply (lit ''old''), sample_bank_reply (lit ''m'')]))
     (apply_ok ''verified_success'')"
proof -
  let ?run = "play (apply_missions sample_missions True sample_mission_env)
    [sample_bank_reply (lit ''old''), sample_bank_reply (lit ''old''), sample_bank_reply (lit ''m'')]"
  have "snd ?run = Some (Some (apply_ok ''verified_success''))" by code_simp
  then have "?run = (fst ?run, Some (Some (apply_ok ''verified_success'')))" by (metis prod.collapse)
  from apply_missions_verified [OF this] show ?thesis by simp
qed

section \<open>The status tool\<close>

text \<open>
  C38. The status tool tells the model what the operator's status says: for every inspection with
  nonnegative counts it answers with the number of queued rows, and with the result ok exactly when
  nothing mismatches or retries, no row is being sent without a live sender or after an error, nothing
  queued is older than an hour, and no work is due that no sender could own.
\<close>

theorem status_tool_reports_queue:
  assumes "0 \<le> oi_mismatch i" and "0 \<le> oi_pending i" and "0 \<le> oi_retry i" and "0 \<le> oi_sending i"
    and "oi_outbox i \<noteq> []"
  shows "\<exists>reply. compact_status_payload (PDict (status_payload deployed i now)) = Some reply \<and>
    map_of reply ''queued'' = Some (JInt (queued_count i)) \<and> map_of reply ''retention_queue'' = Some (JStr (oi_outbox i)) \<and>
    map_of reply ''result'' = Some (JStr (if degraded i now then lit ''degraded'' else lit ''ok'')) \<and>
    (\<not> degraded i now \<longrightarrow> oi_mismatch i = 0 \<and> oi_retry i = 0 \<and>
       (0 < queued_count i \<longrightarrow> pred_option (\<lambda>t. now - t < 3600) (oi_oldest_created_at i)))"
proof -
  have counts: "queue_count [(lit ''mismatch'', PInt (oi_mismatch i)), (lit ''pending'', PInt (oi_pending i)),
      (lit ''retry'', PInt (oi_retry i)), (lit ''sending'', PInt (oi_sending i))] k =
    (if k = ''mismatch'' then Some (oi_mismatch i) else if k = ''pending'' then Some (oi_pending i)
     else if k = ''retry'' then Some (oi_retry i) else if k = ''sending'' then Some (oi_sending i) else None)" for k
    using assms(1-4) by (auto simp: queue_count_def lit_inject)
  have young: "pred_option (\<lambda>t. now - t < 3600) (oi_oldest_created_at i)" if "\<not> degraded i now" "0 < queued_count i"
    using that by (auto simp: degraded_def age_bucket_def Let_def pred_option_def split: if_splits option.splits)
  have clean: "oi_mismatch i = 0 \<and> oi_retry i = 0" if "\<not> degraded i now"
    using that assms by (auto simp: degraded_def)
  show ?thesis
    using counts young clean assms(5)
    by (auto simp: compact_status_payload_def status_payload_def lit_inject queued_count_def Let_def)
qed

theorem status_tool_reports_queue_witness:
  "map_of (the (compact_status_payload (PDict (status_payload PNone
     \<lparr>oi_outbox = lit ''ready'', oi_sender_ownership = lit ''held'', oi_mismatch = 0, oi_pending = 2, oi_retry = 0,
      oi_sending = 0, oi_logical_queued_bytes = 9, oi_max_attempt_count = 0, oi_oldest_created_at = Some 5,
      oi_next_retry_at = None, oi_last_error_category = None, oi_error_counts = []\<rparr> 6)))) ''queued'' = Some (JInt 2)"
proof -
  let ?i = "\<lparr>oi_outbox = lit ''ready'', oi_sender_ownership = lit ''held'', oi_mismatch = 0, oi_pending = 2, oi_retry = 0,
      oi_sending = 0, oi_logical_queued_bytes = 9, oi_max_attempt_count = 0, oi_oldest_created_at = Some 5,
      oi_next_retry_at = None, oi_last_error_category = None, oi_error_counts = []\<rparr>"
  have "oi_outbox ?i \<noteq> []" by (simp add: lit_def)
  from status_tool_reports_queue [where i = ?i and deployed = PNone and now = 6] this
  show ?thesis by (auto simp: queued_count_def)
qed

end
