(* ===== verification/ConfigTheorems.thy ===== *)
theory ConfigTheorems
  imports Config Samples
begin

text \<open>
  What a loaded configuration guarantees to the rest of the program: the range of every option and the
  conditions across sections (\<open>config_valid\<close>), where its values come from, and which documents
  are refused.
\<close>

section \<open>Valid configurations\<close>

definition int_in :: "int \<Rightarrow> int \<Rightarrow> bool" where
  "int_in i hi \<longleftrightarrow> 0 < i \<and> i \<le> hi"

definition optional :: "('a \<Rightarrow> bool) \<Rightarrow> 'a option \<Rightarrow> bool" where
  "optional P x \<longleftrightarrow> (case x of None \<Rightarrow> True | Some v \<Rightarrow> P v)"

definition tags_ok :: "ustr list \<Rightarrow> bool" where
  "tags_ok ts \<longleftrightarrow> length ts \<le> MAX_TAG_COUNT \<and> distinct ts \<and>
     list_all (\<lambda>t. exact_text t \<and> length t \<le> MAX_TAG_CHARS) ts"

definition scores_ok :: "recall_min_scores \<Rightarrow> bool" where
  "scores_ok s \<longleftrightarrow> optional (\<lambda>r. 0 \<le> r) (ms_semantic s) \<and> optional (\<lambda>r. 0 \<le> r) (ms_keyword s) \<and>
     optional (\<lambda>r. 0 \<le> r) (ms_reranker s) \<and> optional (\<lambda>r. 0 \<le> r) (ms_final s)"

definition recall_ok :: "recall_config \<Rightarrow> bool" where
  "recall_ok r \<longleftrightarrow>
     0 < rc_timeout_seconds r \<and> rc_timeout_seconds r \<le> MAX_RECALL_TIMEOUT_SECONDS \<and>
     int_in (rc_input_max_chars r) MAX_RECALL_INPUT_CHARS \<and>
     int_in (rc_input_max_tokens r) MAX_RECALL_INPUT_TOKENS \<and>
     int_in (rc_context_max_bytes r) MAX_RECALL_CONTEXT_BYTES \<and>
     optional (\<lambda>b. b \<in> lit ` set BUDGETS) (rc_budget r) \<and>
     optional (\<lambda>n. int_in n MAX_RECALL_TOKENS) (rc_max_tokens r) \<and>
     optional (\<lambda>ts. distinct ts \<and> ts \<noteq> [] \<and> set ts \<subseteq> lit ` set RECALL_TYPES) (rc_types r) \<and>
     optional tags_ok (rc_tags r) \<and>
     optional (\<lambda>m. m \<in> lit ` set TAG_MODES) (rc_tag_mode r) \<and>
     optional scores_ok (rc_min_scores r) \<and>
     optional (\<lambda>n. int_in n MAX_RECALL_TOKENS) (rc_max_source_facts_tokens r)"

definition planner_ok :: "planner_config \<Rightarrow> bool" where
  "planner_ok p \<longleftrightarrow>
     0 < pl_timeout_seconds p \<and> pl_timeout_seconds p \<le> MAX_PLANNER_TIMEOUT_SECONDS \<and>
     int_in (pl_history_max_exchanges p) MAX_PLANNER_HISTORY_EXCHANGES \<and>
     int_in (pl_history_max_chars p) MAX_PLANNER_HISTORY_CHARS \<and>
     int_in (pl_query_max_chars p) MAX_PLANNER_QUERY_CHARS"

definition reflect_ok :: "reflect_config \<Rightarrow> bool" where
  "reflect_ok r \<longleftrightarrow>
     0 < rf_timeout_seconds r \<and> rf_timeout_seconds r \<le> MAX_REFLECT_TIMEOUT_SECONDS \<and>
     int_in (rf_input_max_chars r) MAX_REFLECT_INPUT_CHARS \<and>
     int_in (rf_input_max_tokens r) MAX_REFLECT_INPUT_TOKENS \<and>
     int_in (rf_output_max_bytes r) MAX_REFLECT_OUTPUT_BYTES \<and>
     rf_budget r \<in> lit ` set BUDGETS \<and>
     int_in (rf_max_tokens r) MAX_REFLECT_MAX_TOKENS \<and>
     optional tags_ok (rf_tags r) \<and> optional (\<lambda>m. m \<in> lit ` set TAG_MODES) (rf_tag_mode r)"

definition policy_ok :: "(ustr \<Rightarrow> bool) \<Rightarrow> summary_policy \<Rightarrow> bool" where
  "policy_ok cron_ok p \<longleftrightarrow>
     sp_mode p \<in> {lit ''full'', lit ''delta''} \<and> sp_budget p \<in> {lit ''low'', lit ''mid'', lit ''high''} \<and>
     optional (\<lambda>c. strip c = c \<and> length c \<le> 120 \<and> field_count False c = 5 \<and> cron_ok c \<and>
       \<not> sp_refresh_after_consolidation p) (sp_refresh_cron p) \<and>
     0 \<le> sp_min_refresh_interval_seconds p \<and> sp_min_refresh_interval_seconds p \<le> 31536000 \<and>
     256 \<le> sp_max_tokens p \<and> sp_max_tokens p \<le> 8192 \<and>
     int_in (sp_recall_max_tokens p) 16384 \<and> int_in (sp_observations_max_tokens p) 16384"

definition models_ok :: "(ustr \<Rightarrow> bool) \<Rightarrow> mental_models_config \<Rightarrow> bool" where
  "models_ok cron_ok m \<longleftrightarrow>
     (mm_enabled m \<or> \<not> mm_create_enabled m \<and> \<not> mm_refresh_enabled m \<and> \<not> mm_pages_enabled m) \<and>
     policy_ok cron_ok (mm_creation m) \<and> int_in (mm_max_models m) 20 \<and>
     0 < mm_timeout_seconds m \<and> mm_timeout_seconds m \<le> 30"

definition multimodal_ok :: "multimodal_config \<Rightarrow> bool" where
  "multimodal_ok m \<longleftrightarrow>
     (mu_enabled m \<longrightarrow> mu_allowed_roots m \<noteq> []) \<and> length (mu_allowed_roots m) \<le> 16 \<and>
     sorted (mu_allowed_roots m) \<and> distinct (mu_allowed_roots m) \<and> [] \<notin> set (mu_allowed_roots m) \<and>
     int_in (mu_max_attachments m) 16 \<and> int_in (mu_max_decoded_bytes m) 16777216 \<and>
     int_in (mu_max_encoded_bytes m) 25165824"

definition retain_ok :: "retain_config \<Rightarrow> bool" where
  "retain_ok r \<longleftrightarrow>
     0 < rt_timeout_seconds r \<and> rt_timeout_seconds r \<le> MAX_RETAIN_TIMEOUT_SECONDS \<and>
     int_in (rt_segment_max_bytes r) MAX_RETAIN_SEGMENT_BYTES \<and>
     sorted (rt_tags r) \<and> distinct (rt_tags r) \<and> length (rt_tags r) \<le> MAX_TAG_COUNT \<and>
     list_all canonical_tag (rt_tags r)"

definition outbox_config_ok :: "path \<Rightarrow> outbox_config \<Rightarrow> bool" where
  "outbox_config_ok home x \<longleftrightarrow>
     inside home (oc_path x) \<and>
     int_in (oc_max_pending_rows x) MAX_OUTBOX_PENDING_ROWS \<and>
     int_in (oc_max_pending_bytes x) MAX_OUTBOX_PENDING_BYTES \<and>
     0 < oc_busy_timeout_seconds x \<and> oc_busy_timeout_seconds x \<le> MAX_OUTBOX_BUSY_TIMEOUT_SECONDS \<and>
     MIN_OUTBOX_POLL_INTERVAL_SECONDS \<le> oc_poll_interval_seconds x \<and>
     oc_poll_interval_seconds x \<le> MAX_OUTBOX_POLL_INTERVAL_SECONDS \<and>
     0 < oc_retry_initial_seconds x \<and> oc_retry_initial_seconds x \<le> MAX_OUTBOX_RETRY_SECONDS \<and>
     0 < oc_retry_max_seconds x \<and> oc_retry_max_seconds x \<le> MAX_OUTBOX_RETRY_SECONDS"

definition evaluation_ok :: "evaluation_config \<Rightarrow> bool" where
  "evaluation_ok e \<longleftrightarrow>
     int_in (ev_max_records e) 2000 \<and> int_in (ev_max_record_bytes e) 524288 \<and> int_in (ev_max_age_seconds e) 2592000"

definition diagnostics_ok :: "path \<Rightarrow> diagnostic_config \<Rightarrow> bool" where
  "diagnostics_ok home d \<longleftrightarrow>
     inside home (dg_path d) \<and> 0.1 \<le> dg_slow_threshold_seconds d \<and>
     dg_slow_threshold_seconds d \<le> MAX_RECALL_TIMEOUT_SECONDS \<and> int_in (dg_max_records d) MAX_DIAGNOSTIC_RECORDS \<and>
     0.1 \<le> dg_replay_timeout_seconds d \<and> dg_replay_timeout_seconds d \<le> MAX_DIAGNOSTIC_REPLAY_TIMEOUT_SECONDS"

definition principal_ok :: "allowed_principal \<Rightarrow> bool" where
  "principal_ok p \<longleftrightarrow> exact_text (pr_platform p) \<and> exact_text (pr_identifier p)"

definition mission_text_ok :: "ustr \<Rightarrow> bool" where
  "mission_text_ok s \<longleftrightarrow> \<not> blank s \<and> \<not> contains_control True s"

text \<open>The conditions across sections.\<close>

definition sections_agree :: "better_config \<Rightarrow> bool" where
  "sections_agree c \<longleftrightarrow>
     (mm_enabled (mental_models_cfg c) \<longrightarrow>
        rc_tags (recall_cfg c) = None \<and> rc_tag_mode (recall_cfg c) = None \<and>
        rf_tags (reflect_cfg c) = None \<and> rf_tag_mode (reflect_cfg c) = None) \<and>
     (rt_observation_scopes (retain_cfg c) = SharedScope \<longrightarrow> single_principal c) \<and>
     (rc_enabled (recall_cfg c) \<and> pl_mode (planner_cfg c) \<noteq> Off \<longrightarrow>
        pl_timeout_seconds (planner_cfg c) + rc_timeout_seconds (recall_cfg c) \<le> PLANNER_AND_RECALL_BUDGET_SECONDS) \<and>
     (rt_enabled (retain_cfg c) \<longrightarrow>
        minimum_retained_segment_bytes (rt_tags (retain_cfg c)) (oc_max_pending_rows (outbox_cfg c))
          \<le> rt_segment_max_bytes (retain_cfg c) \<and>
        minimum_retained_admission_bytes (rt_tags (retain_cfg c)) (oc_max_pending_rows (outbox_cfg c))
          (rt_segment_max_bytes (retain_cfg c)) \<le> oc_max_pending_bytes (outbox_cfg c)) \<and>
     rt_segment_max_bytes (retain_cfg c) + OUTBOX_ROW_ACCOUNTING_ALLOWANCE_BYTES \<le> oc_max_pending_bytes (outbox_cfg c) \<and>
     oc_retry_initial_seconds (outbox_cfg c) \<le> oc_retry_max_seconds (outbox_cfg c)"

definition config_valid :: "library \<Rightarrow> better_config \<Rightarrow> bool" where
  "config_valid lib c \<longleftrightarrow>
     exact_text (bank_id c) \<and> optional (\<lambda>k. k \<noteq> []) (api_key c) \<and>
     distinct (allowed_principals c) \<and> list_all principal_ok (allowed_principals c) \<and>
     recall_ok (recall_cfg c) \<and> planner_ok (planner_cfg c) \<and> reflect_ok (reflect_cfg c) \<and>
     models_ok (lib_cron_ok lib) (mental_models_cfg c) \<and> retain_ok (retain_cfg c) \<and>
     multimodal_ok (multimodal_cfg c) \<and>
     optional mission_text_ok (mi_retain (missions_cfg c)) \<and>
     optional mission_text_ok (mi_observations (missions_cfg c)) \<and>
     outbox_config_ok (hermes_home c) (outbox_cfg c) \<and> diagnostics_ok (hermes_home c) (diagnostics_cfg c) \<and>
     evaluation_ok (evaluation_cfg c) \<and> sections_agree c"

section \<open>The parsers establish it\<close>

lemma optional_simps [simp]: "optional P None" "optional P (Some x) = P x"
  by (simp_all add: optional_def)

lemma parse_string_sequence_Inr [result_iff]:
  "parse_string_sequence v f e = Inr xs \<longleftrightarrow> v = PList (map PStr xs) \<and> (e \<or> xs \<noteq> [])"
proof -
  have "list_all (\<lambda>x. py_str x \<noteq> None) ys \<and> map (\<lambda>x. the (py_str x)) ys = xs \<longleftrightarrow> ys = map PStr xs" for ys
  proof (induction ys arbitrary: xs)
    case (Cons a ys)
    then show ?case by (cases xs) (auto simp: py_str_Some)
  qed auto
  then show ?thesis by (auto simp: parse_string_sequence_def split: py.splits if_splits)
qed

lemma parse_tag_Inr: "parse_tag f t = Inr u \<longleftrightarrow> exact_text t \<and> length t \<le> MAX_TAG_CHARS"
  by (auto simp: parse_tag_def and_then_Inr parse_exact_Inr ensure_Inr)

lemma parse_tags_ok: "parse_tags v f = Inr ts \<Longrightarrow> tags_ok ts"
  by (auto simp: parse_tags_def and_then_Inr ensure_Inr all_of_Inr parse_tag_Inr tags_ok_def list_all_length
      dest: list_all2_lengthD list_all2_nthD)

lemma parse_optional_positive_int_ok:
  "parse_optional_positive_int v f = Inr x \<Longrightarrow> optional (\<lambda>n. int_in n MAX_RECALL_TOKENS) x"
  by (auto simp: parse_optional_positive_int_def if_present_Inr parse_positive_int_Inr int_in_def split: if_splits)

lemma parse_recall_types_ok: "parse_recall_types v = Inr x \<Longrightarrow>
    optional (\<lambda>ts. distinct ts \<and> ts \<noteq> [] \<and> set ts \<subseteq> lit ` set RECALL_TYPES) x"
  by (auto simp: parse_recall_types_def if_present_Inr and_then_Inr ensure_Inr parse_string_sequence_Inr
      list_all_iff split: if_splits)

lemma parse_optional_tags_ok: "parse_optional_tags v f = Inr x \<Longrightarrow> optional tags_ok x"
  by (auto simp: parse_optional_tags_def if_present_Inr intro: parse_tags_ok split: if_splits)

lemma parse_score_ok: "parse_score values name = Inr x \<Longrightarrow> optional (\<lambda>r. 0 \<le> r) x"
  by (auto simp: parse_score_def if_present_Inr split: if_splits option.splits)

lemma parse_min_scores_ok: "parse_min_scores v = Inr x \<Longrightarrow> optional scores_ok x"
  by (auto simp: parse_min_scores_def if_present_Inr and_then_Inr scores_ok_def
      dest!: parse_score_ok split: if_splits)

lemma present_literal_ok: "if_present (\<lambda>v. parse_literal v f xs) v = Inr x \<Longrightarrow> optional (\<lambda>b. b \<in> lit ` set xs) x"
  by (auto simp: if_present_Inr parse_literal_Inr split: if_splits)

lemma parse_recall_ok: "parse_recall v = Inr r \<Longrightarrow> recall_ok r"
  unfolding parse_recall_def and_then_Inr
  by (elim exE conjE)
    (auto simp: recall_ok_def parse_bounded_float_Inr parse_positive_int_Inr int_in_def
      dest: parse_optional_positive_int_ok parse_recall_types_ok parse_optional_tags_ok parse_min_scores_ok
        present_literal_ok)

lemma parse_planner_ok: "parse_planner lib home v = Inr r \<Longrightarrow> planner_ok r"
  unfolding parse_planner_def and_then_Inr
  by (elim exE conjE)
    (auto simp: planner_ok_def parse_bounded_float_Inr parse_positive_int_Inr int_in_def)

lemma parse_reflect_ok: "parse_reflect v = Inr r \<Longrightarrow> reflect_ok r"
  unfolding parse_reflect_def and_then_Inr
  by (elim exE conjE)
    (auto simp: reflect_ok_def parse_bounded_float_Inr parse_positive_int_Inr int_in_def parse_literal_Inr
      dest: parse_optional_tags_ok present_literal_ok)

lemma check_cron_Inr: "check_cron cron_ok v b = Inr u \<longleftrightarrow>
    v = PNone \<or> (\<exists>c. v = PStr c \<and> strip c = c \<and> length c \<le> 120 \<and> field_count False c = 5 \<and> cron_ok c \<and> \<not> b)"
  by (auto simp: check_cron_def split: py.splits if_splits)

lemma int_between_iff: "int_between v lo hi \<longleftrightarrow> (\<exists>i. v = PInt i \<and> lo \<le> i \<and> i \<le> hi)"
  by (auto simp: int_between_def split: py.splits)

lemma policy_of_values_Inr:
  "policy_of_values cron_ok d = Inr p \<longleftrightarrow> policy_ok cron_ok p \<and>
     get_or d ''mode'' PNone = PStr (sp_mode p) \<and> get_or d ''budget'' PNone = PStr (sp_budget p) \<and>
     get_or d ''refresh_after_consolidation'' PNone = PBool (sp_refresh_after_consolidation p) \<and>
     get_or d ''refresh_cron'' PNone = (case sp_refresh_cron p of None \<Rightarrow> PNone | Some c \<Rightarrow> PStr c) \<and>
     get_or d ''min_refresh_interval_seconds'' PNone = PInt (sp_min_refresh_interval_seconds p) \<and>
     get_or d ''max_tokens'' PNone = PInt (sp_max_tokens p) \<and>
     get_or d ''recall_max_tokens'' PNone = PInt (sp_recall_max_tokens p) \<and>
     get_or d ''observations_max_tokens'' PNone = PInt (sp_observations_max_tokens p)" (is "?L \<longleftrightarrow> ?R")
proof
  assume L: ?L
  then obtain b where b: "get_or d ''refresh_after_consolidation'' PNone = PBool b"
    by (auto simp: policy_of_values_def and_then_Inr split: py.splits)
  note facts = L [unfolded policy_of_values_def b py.case and_then_Inr ensure_Inr check_cron_Inr int_between_iff]
  obtain m where m: "get_or d ''mode'' PNone = PStr m" "m = lit ''full'' \<or> m = lit ''delta''"
    using facts by (elim exE conjE insertE emptyE) simp_all
  obtain u where u: "get_or d ''budget'' PNone = PStr u" "u = lit ''low'' \<or> u = lit ''mid'' \<or> u = lit ''high''"
    using facts by (elim exE conjE insertE emptyE) simp_all
  obtain c where c: "get_or d ''refresh_cron'' PNone = (case c of None \<Rightarrow> PNone | Some c \<Rightarrow> PStr c)"
    "optional (\<lambda>c. strip c = c \<and> length c \<le> 120 \<and> field_count False c = 5 \<and> cron_ok c \<and> \<not> b) c"
  proof -
    from facts have "get_or d ''refresh_cron'' PNone = PNone \<or> (\<exists>c. get_or d ''refresh_cron'' PNone = PStr c \<and>
        strip c = c \<and> length c \<le> 120 \<and> field_count False c = 5 \<and> cron_ok c \<and> \<not> b)" by (elim exE conjE)
    then show ?thesis
    proof (elim disjE exE conjE)
      fix x
      assume "get_or d ''refresh_cron'' PNone = PStr x" "strip x = x" "length x \<le> 120"
        "field_count False x = 5" "cron_ok x" "\<not> b"
      then show ?thesis by (intro that [of "Some x"]) simp_all
    qed (intro that [of None], simp_all)
  qed
  obtain n1 n2 n3 n4 where n: "get_or d ''min_refresh_interval_seconds'' PNone = PInt n1" "0 \<le> n1" "n1 \<le> 31536000"
    "get_or d ''max_tokens'' PNone = PInt n2" "256 \<le> n2" "n2 \<le> 8192"
    "get_or d ''recall_max_tokens'' PNone = PInt n3" "1 \<le> n3" "n3 \<le> 16384"
    "get_or d ''observations_max_tokens'' PNone = PInt n4" "1 \<le> n4" "n4 \<le> 16384"
    using facts by (elim exE conjE) (rule that)
  have "py_str (get_or d ''refresh_cron'' PNone) = c" using c(1) by (cases c) (simp_all add: py_str_def)
  with facts m(1) u(1) n have "p = \<lparr>sp_mode = m, sp_budget = u, sp_refresh_after_consolidation = b,
      sp_refresh_cron = c, sp_min_refresh_interval_seconds = n1, sp_max_tokens = n2, sp_recall_max_tokens = n3,
      sp_observations_max_tokens = n4\<rparr>"
    by (elim exE conjE) (simp add: as_text_def as_int_def)
  with m u c n b show ?R by (simp add: policy_ok_def int_in_def)
next
  assume ?R
  then show ?L
    by (cases "sp_refresh_cron p")
      (auto simp: policy_of_values_def check_cron_def int_between_def as_text_def as_int_def py_str_def
        policy_ok_def int_in_def ensure_def)
qed

lemma parse_policy_Inr: "parse_policy cron_ok v base = Inr p \<Longrightarrow> policy_ok cron_ok p"
  by (auto simp: parse_policy_def policy_of_values_Inr split: py.splits if_splits)

lemma parse_mental_models_ok: "parse_mental_models lib v = Inr r \<Longrightarrow> models_ok (lib_cron_ok lib) r"
  unfolding parse_mental_models_def and_then_Inr
  by (elim exE conjE)
    (auto simp: models_ok_def parse_bounded_float_Inr parse_positive_int_Inr int_in_def ensure_Inr policy_result_def
      intro: parse_policy_Inr split: sum.splits)

lemma parse_root_nonempty: "parse_root lib v = Inr p \<Longrightarrow> p \<noteq> []"
  by (auto simp: parse_root_def split: py.splits if_splits option.splits)

lemma parse_multimodal_ok: "parse_multimodal lib v = Inr r \<Longrightarrow> multimodal_ok r"
  unfolding parse_multimodal_def and_then_Inr
proof (elim exE conjE)
  fix vals u roots validated enabled w attachments decoded encoded
  assume r: "(case get_or vals ''allowed_roots'' (PList []) of
        PList roots \<Rightarrow> if 16 < length roots then Inl BadRoots else Inr roots | _ \<Rightarrow> Inl BadRoots) = Inr roots"
    and v: "all_of (parse_root lib) roots = Inr validated"
    and e: "ensure (\<not> (enabled \<and> validated = [])) RootsMissing = Inr w"
    and n: "parse_positive_int (get_or vals ''max_attachments'' (PInt 4)) ''multimodal.max_attachments'' 16 = Inr attachments"
      "parse_positive_int (get_or vals ''max_decoded_bytes'' (PInt 8388608)) ''multimodal.max_decoded_bytes'' 16777216 = Inr decoded"
      "parse_positive_int (get_or vals ''max_encoded_bytes'' (PInt 12582912)) ''multimodal.max_encoded_bytes'' 25165824 = Inr encoded"
    and c: "Inr \<lparr>mu_enabled = enabled, mu_allowed_roots = sort (remdups validated), mu_max_attachments = attachments,
          mu_max_decoded_bytes = decoded, mu_max_encoded_bytes = encoded\<rparr> = Inr r"
  have all: "list_all2 (\<lambda>x y. parse_root lib x = Inr y) roots validated" using v by (simp add: all_of_Inr)
  have "length validated \<le> 16"
    using r list_all2_lengthD [OF all] by (auto split: py.splits if_splits)
  then have "length (remdups validated) \<le> 16" by (rule le_trans [OF length_remdups_leq])
  moreover have "[] \<notin> set validated"
    using all parse_root_nonempty by (auto simp: list_all2_conv_all_nth in_set_conv_nth)
  moreover have "sort (remdups validated) = [] \<longleftrightarrow> validated = []"
    by (metis set_empty set_remdups set_sort)
  ultimately show ?thesis
    using e n c by (auto simp: multimodal_ok_def ensure_Inr parse_positive_int_Inr int_in_def)
qed

lemma canonicalize_retain_tags_ok:
  assumes "canonicalize_retain_tags lib v = Inr ts"
  shows "sorted ts \<and> distinct ts \<and> length ts \<le> MAX_TAG_COUNT \<and> list_all canonical_tag ts"
  using assms parse_tags_ok
  by (auto simp: canonicalize_retain_tags_def and_then_Inr ensure_Inr Let_def tags_ok_def list_all_iff)

lemma parse_retain_ok: "parse_retain lib v = Inr r \<Longrightarrow> retain_ok r"
  unfolding parse_retain_def and_then_Inr
  by (elim exE conjE)
    (auto simp: retain_ok_def parse_bounded_float_Inr parse_positive_int_Inr int_in_def
      dest: canonicalize_retain_tags_ok)

lemma parse_optional_text_ok: "parse_optional_text v f = Inr x \<Longrightarrow> optional mission_text_ok x"
  by (auto simp: parse_optional_text_def mission_text_ok_def split: py.splits if_splits)

lemma parse_missions_ok: "parse_missions v = Inr r \<Longrightarrow>
    optional mission_text_ok (mi_retain r) \<and> optional mission_text_ok (mi_observations r)"
  by (auto simp: parse_missions_def and_then_Inr dest: parse_optional_text_ok)

lemma parse_local_path_inside: "parse_local_path lib home v f = Inr p \<Longrightarrow> inside home p"
  by (auto simp: parse_local_path_def Let_def split: py.splits if_splits option.splits prod.splits)

lemma parse_outbox_ok: "parse_outbox lib home v = Inr r \<Longrightarrow> outbox_config_ok home r"
  unfolding parse_outbox_def and_then_Inr
  by (elim exE conjE)
    (auto simp: outbox_config_ok_def parse_bounded_float_Inr parse_closed_bounded_float_Inr
      parse_positive_int_Inr int_in_def parse_outbox_path_def dest: parse_local_path_inside)

lemma parse_evaluation_ok: "parse_evaluation v = Inr r \<Longrightarrow> evaluation_ok r"
  by (auto simp: parse_evaluation_def and_then_Inr evaluation_ok_def parse_positive_int_Inr int_in_def)

lemma parse_diagnostics_ok: "parse_diagnostics lib home v = Inr r \<Longrightarrow> diagnostics_ok home r"
  unfolding parse_diagnostics_def and_then_Inr
  by (elim exE conjE)
    (auto simp: diagnostics_ok_def parse_closed_bounded_float_Inr parse_positive_int_Inr int_in_def
      parse_diagnostic_path_def dest: parse_local_path_inside)

lemma parse_principal_ok: "parse_principal v = Inr p \<Longrightarrow> principal_ok p"
  by (auto simp: parse_principal_def and_then_Inr parse_exact_Inr principal_ok_def)

lemma collect_principals_ok:
  "collect_principals seen items = Inr ps \<Longrightarrow> distinct seen \<Longrightarrow> list_all principal_ok seen \<Longrightarrow>
     distinct ps \<and> list_all principal_ok ps"
  by (induction seen items rule: collect_principals.induct)
    (auto simp: and_then_Inr parse_principal_ok split: if_splits)

lemma parse_principals_ok: "parse_principals v = Inr ps \<Longrightarrow> distinct ps \<and> list_all principal_ok ps"
  by (auto simp: parse_principals_def dest: collect_principals_ok split: py.splits)

lemma parse_api_key_ok: "parse_api_key v = Inr k \<Longrightarrow> optional (\<lambda>k. k \<noteq> []) k"
  by (auto simp: parse_api_key_def split: py.splits if_splits)

lemma cross_check_Inr: "cross_check single recall planner retain outbox = Inr u \<longleftrightarrow>
    (rt_observation_scopes retain = SharedScope \<longrightarrow> single) \<and>
    (rc_enabled recall \<and> pl_mode planner \<noteq> Off \<longrightarrow>
       pl_timeout_seconds planner + rc_timeout_seconds recall \<le> PLANNER_AND_RECALL_BUDGET_SECONDS) \<and>
    (rt_enabled retain \<longrightarrow>
       minimum_retained_segment_bytes (rt_tags retain) (oc_max_pending_rows outbox) \<le> rt_segment_max_bytes retain) \<and>
    rt_segment_max_bytes retain + OUTBOX_ROW_ACCOUNTING_ALLOWANCE_BYTES \<le> oc_max_pending_bytes outbox \<and>
    (rt_enabled retain \<longrightarrow> minimum_retained_admission_bytes (rt_tags retain) (oc_max_pending_rows outbox)
       (rt_segment_max_bytes retain) \<le> oc_max_pending_bytes outbox) \<and>
    oc_retry_initial_seconds outbox \<le> oc_retry_max_seconds outbox"
  by (auto simp: cross_check_def and_then_Inr ensure_Inr Let_def not_less)

lemma load_sections_valid: "load_sections lib home merged = Inr c \<Longrightarrow> config_valid lib c \<and> hermes_home c = home"
  unfolding load_sections_def and_then_Inr
  by (elim exE conjE, drule parse_api_key_ok, drule parse_principals_ok, drule parse_recall_ok,
      drule parse_planner_ok, drule parse_reflect_ok, drule parse_mental_models_ok, drule parse_retain_ok,
      drule parse_multimodal_ok, drule parse_missions_ok, drule parse_outbox_ok, drule parse_diagnostics_ok,
      drule parse_evaluation_ok, drule sum.inject(2) [THEN iffD1], hypsubst,
      simp only: config_valid_def sections_agree_def cross_check_Inr ensure_Inr parse_bank_id_def parse_exact_Inr
        better_config.simps simp_thms) blast

lemma load_sections_root:
  "load_sections lib home merged = Inr c \<Longrightarrow>
     fst ` set merged \<subseteq> lit ` set ROOT_KEYS \<and>
     normalize_api_url lib (get_or merged ''api_url'' (PStr (lit DEFAULT_API_URL))) = Inr (api_url c) \<and>
     parse_api_key (get_or merged ''api_key'' PNone) = Inr (api_key c) \<and>
     parse_bank_id (get_or merged ''bank_id'' (PStr (lit DEFAULT_BANK_ID))) = Inr (bank_id c)"
  unfolding load_sections_def and_then_Inr
  by (elim exE conjE, drule sum.inject(2) [THEN iffD1], hypsubst,
      simp only: check_unknown_keys_Inr better_config.simps simp_thms)

lemma load_config_Inr: "load_config lib hermes file environ injected = Inr c \<longleftrightarrow>
    (\<exists>home profile injected_values. parse_hermes_home lib hermes = Inr home \<and> load_profile_json lib file = Inr profile \<and>
       injected = PDict injected_values \<and> dict_get injected_values (lit ''api_key'') = None \<and>
       load_sections lib home
         (merge_mappings (merge_mappings profile (environment_values environ)) injected_values) = Inr c)"
  by (auto simp: load_config_def and_then_Inr expect_mapping_Inr ensure_Inr)

section \<open>Sources of values\<close>

fun has_secret :: "(ustr \<Rightarrow> bool) \<Rightarrow> py \<Rightarrow> bool" where
  "has_secret secret (PDict kvs) \<longleftrightarrow> list_ex (\<lambda>(k, v). secret k \<or> has_secret secret v) kvs"
| "has_secret secret (PList xs) \<longleftrightarrow> list_ex (has_secret secret) xs"
| "has_secret secret _ \<longleftrightarrow> False"

lemma find_secret_None: "find_secret secret stack = None \<longleftrightarrow> (\<forall>(v, p) \<in> set stack. \<not> has_secret secret v)"
proof (induction secret stack rule: find_secret.induct)
  case (2 secret kvs p stack)
  show ?case
  proof (cases "find (\<lambda>(k, _). secret k) kvs")
    case None
    then have no: "\<forall>(k, v) \<in> set kvs. \<not> secret k" by (auto simp: find_None_iff)
    have "find_secret secret ((PDict kvs, p) # stack) = None \<longleftrightarrow>
        (\<forall>(v, p) \<in> set (rev (map (\<lambda>(k, v). (v, nested_path p k)) kvs) @ stack). \<not> has_secret secret v)"
      using 2 [OF None] None by simp
    also have "\<dots> \<longleftrightarrow> (\<forall>(k, v) \<in> set kvs. \<not> has_secret secret v) \<and> (\<forall>(v, p) \<in> set stack. \<not> has_secret secret v)"
      by (auto simp: image_iff)
    finally show ?thesis using no by (auto simp: list_ex_iff)
  next
    case (Some kv)
    then have "\<exists>(k, v) \<in> set kvs. secret k"
      by (cases kv) (auto simp: find_Some_iff in_set_conv_nth intro!: bexI)
    with Some show ?thesis by (cases kv) (auto simp: list_ex_iff)
  qed
next
  case (3 secret xs p stack)
  have "(\<forall>(v, p) \<in> set (rev (map (\<lambda>(i, v). (v, index_path p i)) (zip [0..<length xs] xs)) @ stack). \<not> has_secret secret v)
      \<longleftrightarrow> (\<forall>v \<in> snd ` set (zip [0..<length xs] xs). \<not> has_secret secret v) \<and> (\<forall>(v, p) \<in> set stack. \<not> has_secret secret v)"
    by (simp add: ball_Un split_beta)
  moreover have "snd ` set (zip [0..<length xs] xs) = set xs"
    by (metis length_map map_nth map_snd_zip set_map length_upt minus_nat.diff_0)
  ultimately show ?case using 3 by (auto simp: list_ex_iff)
qed auto

lemma reject_secret_json_keys_Inr:
  "reject_secret_json_keys lib kvs = Inr u \<longleftrightarrow> \<not> has_secret (is_secret_key lib) (PDict kvs)"
  using find_secret_None [of "is_secret_key lib" "[(PDict kvs, [])]"]
  by (auto simp: reject_secret_json_keys_def simp del: find_secret.simps has_secret.simps split: option.splits)

lemma merge_mappings_Cons:
  obtains w where "merge_mappings m ((key, v) # items) = merge_mappings (dict_set m key w) items"
    "(\<And>kvs. v \<noteq> PDict kvs) \<Longrightarrow> w = v"
proof (cases v)
  case (PDict higher)
  then show ?thesis
    by (intro that [of "PDict (case dict_get m key of Some (PDict lower) \<Rightarrow> merge_mappings lower higher | _ \<Rightarrow> higher)"])
      simp_all
qed (auto intro: that)

lemma dict_get_Cons: "dict_get ((k', v) # d) k = (if k = k' then Some v else dict_get d k)"
  by (simp add: dict_get_def)

lemma dict_get_merge_absent: "dict_get h k = None \<Longrightarrow> dict_get (merge_mappings m h) k = dict_get m k"
proof (induction h arbitrary: m)
  case (Cons kv h)
  obtain key v where kv: "kv = (key, v)" by (cases kv)
  obtain w where "merge_mappings m (kv # h) = merge_mappings (dict_set m key w) h"
    unfolding kv by (rule merge_mappings_Cons)
  with Cons kv show ?case by (auto simp: dict_get_Cons split: if_splits)
qed simp

lemma dict_get_merge_scalar:
  assumes "dict_ok h" and "dict_get h k = Some v" and "\<And>kvs. v \<noteq> PDict kvs"
  shows "dict_get (merge_mappings m h) k = Some v"
  using assms(1,2)
proof (induction h arbitrary: m)
  case (Cons kv h)
  obtain key x where kv: "kv = (key, x)" by (cases kv)
  obtain w where w: "merge_mappings m (kv # h) = merge_mappings (dict_set m key w) h" "(\<And>kvs. x \<noteq> PDict kvs) \<Longrightarrow> w = x"
    unfolding kv using merge_mappings_Cons by metis
  show ?case
  proof (cases "k = key")
    case True
    with Cons.prems kv have "dict_get h k = None" "x = v"
      by (auto simp: dict_get_Cons dict_ok_def dict_get_None_iff)
    with w assms(3) True show ?thesis by (simp add: dict_get_merge_absent)
  next
    case False
    with Cons kv w show ?thesis by (simp add: dict_get_Cons dict_ok_def)
  qed
qed simp

lemma environment_values_get:
  "dict_get (environment_values environ) (lit target) =
     map_option PStr (if target = ''api_url'' then dict_get environ ''HINDSIGHT_API_URL''
       else if target = ''api_key'' then dict_get environ ''HINDSIGHT_API_KEY''
       else if target = ''bank_id'' then dict_get environ ''HINDSIGHT_BANK_ID'' else None)"
  by (auto simp: environment_values_def dict_get_Cons lit_inject split: option.splits)

lemma environment_values_ok: "dict_ok (environment_values environ)"
  by (auto simp: environment_values_def dict_ok_def lit_inject split: option.splits)

section \<open>A sample library\<close>

definition sample_url :: url_parts where
  "sample_url =
     \<lparr>up_scheme = lit ''http'', up_netloc = lit ''localhost:8888'', up_path = [], up_query = [], up_fragment = [],
      up_hostname = Some (lit ''localhost''), up_port = Some 8888, up_username = None, up_password = None\<rparr>"

definition sample_library :: library where
  "sample_library =
     \<lparr>lib_word = ascii_word, lib_casefold = ascii_lower, lib_lower = ascii_lower,
      lib_urlsplit = (\<lambda>s. if s = lit DEFAULT_API_URL then Some sample_url else None),
      lib_ip_compressed = (\<lambda>_. None), lib_idna = Some, lib_resolve = (\<lambda>(_, p). Some p),
      lib_cron_ok = (\<lambda>_. True)\<rparr>"

definition sample_document :: py where
  "sample_document =
     PDict [(lit ''bank_id'', PStr (lit ''team'')),
            (lit ''retain'', PDict [(lit ''enabled'', PBool True), (lit ''tags'', PList [PStr (lit ''work'')])])]"

definition sample_environ :: "(string, ustr) dict" where
  "sample_environ = [(''HINDSIGHT_API_KEY'', lit ''k'')]"

definition sample_loaded :: "config_error + better_config" where
  "sample_loaded =
     load_config sample_library (lit ''/home/u'') (Document sample_document) sample_environ (PDict [])"

lemma sample_loaded_Inr: "map_sum id bank_id sample_loaded = Inr (lit ''team'')"
  by code_simp

section \<open>Properties\<close>

text \<open>
  C10. Every configuration that \<open>load_config\<close> returns, from any document, environment and injected
  values, is valid: each option lies in its documented range, every path option stays inside the
  profile's home, retain tags are canonical, sorted and free of duplicates, and the sections agree (the
  combined deadline, the smallest retained event fits a segment and the queue, retry delays are ordered).
\<close>

theorem load_config_valid:
  assumes "load_config lib hermes file environ injected = Inr c"
  shows "config_valid lib c"
  using assms load_sections_valid by (auto simp: load_config_Inr)

theorem load_config_valid_witness:
  "\<exists>c. sample_loaded = Inr c \<and> config_valid sample_library c \<and> bank_id c = lit ''team''"
proof -
  have "\<exists>c. sample_loaded = Inr c \<and> bank_id c = lit ''team''"
    using map_sum_InrD [OF sample_loaded_Inr] by blast
  then obtain c where c: "sample_loaded = Inr c" "bank_id c = lit ''team''" by blast
  with load_config_valid [OF c(1) [unfolded sample_loaded_def]] show ?thesis by blast
qed

lemma merged_text:
  assumes "dict_get (merge_mappings m h) k = Some (PStr s)" and "dict_ok h" and "dict_get h k = Some v"
  shows "v = PStr s"
proof (cases v)
  case (PDict kvs)
  have "\<exists>kvs'. dict_get (merge_mappings m h) k = Some (PDict kvs')"
    using assms(2,3) unfolding PDict
  proof (induction h arbitrary: m)
    case (Cons kv h)
    obtain key x where kv: "kv = (key, x)" by (cases kv)
    show ?case
    proof (cases "k = key")
      case True
      with Cons.prems kv have "x = PDict kvs" "dict_get h k = None"
        by (auto simp: dict_get_Cons dict_ok_def dict_get_None_iff)
      with kv True show ?thesis by (simp add: dict_get_merge_absent)
    next
      case False
      obtain w where "merge_mappings m (kv # h) = merge_mappings (dict_set m key w) h"
        unfolding kv by (rule merge_mappings_Cons)
      with Cons kv False show ?thesis by (simp add: dict_get_Cons dict_ok_def)
    qed
  qed simp
  with assms(1) show ?thesis by auto
qed (use assms dict_get_merge_scalar [OF assms(2,3), of m] in auto)

definition chosen :: "(ustr \<times> py) list \<Rightarrow> (string, ustr) dict \<Rightarrow> (ustr \<times> py) list \<Rightarrow> string \<Rightarrow> string \<Rightarrow> py \<Rightarrow> py" where
  "chosen profile environ injected variable key fallback =
     (case dict_get injected (lit key) of
        Some v \<Rightarrow> v
      | None \<Rightarrow>
          (case dict_get environ variable of
             Some s \<Rightarrow> PStr s
           | None \<Rightarrow> get_or profile key fallback))"

lemma merged_chosen:
  assumes "dict_ok injected"
    and "get_or (merge_mappings (merge_mappings profile (environment_values environ)) injected) key fallback = PStr s"
    and "(key, variable) \<in> {(''api_url'', ''HINDSIGHT_API_URL''), (''bank_id'', ''HINDSIGHT_BANK_ID'')}"
  shows "chosen profile environ injected variable key fallback = PStr s"
proof -
  have env: "dict_get (environment_values environ) (lit key) = map_option PStr (dict_get environ variable)"
    using assms(3) by (auto simp: environment_values_get)
  show ?thesis
  proof (cases "dict_get injected (lit key)")
    case None
    show ?thesis
    proof (cases "dict_get environ variable")
      case None
      with env have "dict_get (environment_values environ) (lit key) = None" by simp
      with assms(2) None \<open>dict_get injected (lit key) = None\<close> show ?thesis
        by (simp add: chosen_def get_or_def dict_get_merge_absent)
    next
      case (Some t)
      with env have "dict_get (merge_mappings profile (environment_values environ)) (lit key) = Some (PStr t)"
        by (intro dict_get_merge_scalar environment_values_ok) auto
      with assms(2) None Some show ?thesis by (simp add: chosen_def get_or_def dict_get_merge_absent)
    qed
  next
    case (Some v)
    have "dict_get (merge_mappings (merge_mappings profile (environment_values environ)) injected) (lit key) = Some (PStr s)"
    proof (cases "dict_get (merge_mappings (merge_mappings profile (environment_values environ)) injected) (lit key)")
      case None
      moreover have "dict_get (merge_mappings m h) k \<noteq> None" if "dict_get h k \<noteq> None" for m h k
        using that
      proof (induction h arbitrary: m)
        case (Cons kv h)
        obtain x y where kv: "kv = (x, y)" by (cases kv)
        obtain w where "merge_mappings m (kv # h) = merge_mappings (dict_set m x w) h"
          unfolding kv by (rule merge_mappings_Cons)
        with Cons kv show ?case
          by (cases "dict_get h k") (auto simp: dict_get_Cons dict_get_merge_absent split: if_splits)
      qed simp
      ultimately show ?thesis using Some by (metis option.distinct(1))
    qed (use assms(2) in \<open>simp add: get_or_def\<close>)
    from merged_text [OF this assms(1) Some] Some show ?thesis by (simp add: chosen_def)
  qed
qed

text \<open>
  Precedence. The bank and the API URL of a loaded configuration come from the injected values if
  they name one, else from the environment variable, else from the profile's document, else from the
  documented default; nothing of a lower source survives a higher one.
\<close>

theorem load_config_precedence:
  assumes "load_config lib hermes (Document (PDict profile)) environ (PDict injected) = Inr c"
    and "dict_ok injected"
  shows "chosen profile environ injected ''HINDSIGHT_BANK_ID'' ''bank_id'' (PStr (lit DEFAULT_BANK_ID)) = PStr (bank_id c) \<and>
    normalize_api_url lib
      (chosen profile environ injected ''HINDSIGHT_API_URL'' ''api_url'' (PStr (lit DEFAULT_API_URL))) = Inr (api_url c)"
proof -
  let ?merged = "merge_mappings (merge_mappings profile (environment_values environ)) injected"
  from assms(1) obtain home where "load_sections lib home ?merged = Inr c"
    by (auto simp: load_config_Inr load_profile_json_def and_then_Inr expect_mapping_Inr)
  from load_sections_root [OF this]
  have url: "normalize_api_url lib (get_or ?merged ''api_url'' (PStr (lit DEFAULT_API_URL))) = Inr (api_url c)"
    and bank: "get_or ?merged ''bank_id'' (PStr (lit DEFAULT_BANK_ID)) = PStr (bank_id c)"
    by (simp_all add: parse_bank_id_def parse_exact_Inr)
  from url obtain s where "get_or ?merged ''api_url'' (PStr (lit DEFAULT_API_URL)) = PStr s"
    by (auto simp: normalize_api_url_def split: py.splits)
  with merged_chosen [OF assms(2) this, of "''HINDSIGHT_API_URL''"] url
    merged_chosen [OF assms(2) bank, of "''HINDSIGHT_BANK_ID''"]
  show ?thesis by simp
qed

theorem load_config_precedence_witness:
  "\<exists>c profile. sample_loaded = Inr c \<and> sample_document = PDict profile \<and>
     chosen profile sample_environ [] ''HINDSIGHT_BANK_ID'' ''bank_id'' (PStr (lit DEFAULT_BANK_ID)) = PStr (bank_id c)"
proof -
  obtain profile where p: "sample_document = PDict profile" by (simp add: sample_document_def)
  have "\<exists>c. sample_loaded = Inr c" using map_sum_InrD [OF sample_loaded_Inr] by blast
  then obtain c where c: "sample_loaded = Inr c" by blast
  from load_config_precedence [OF c [unfolded sample_loaded_def p]] c p show ?thesis by auto
qed

text \<open>
  C16. The API key of a loaded configuration comes from \<open>HINDSIGHT_API_KEY\<close> and from nowhere
  else: neither the profile's document nor an injected value can supply or change it. The hypothesis on
  \<open>casefold\<close> is its documented effect on a lower-case ASCII text.
\<close>

theorem api_key_only_from_environment:
  assumes "load_config lib hermes file environ injected = Inr c"
    and "lib_casefold lib (lit ''api_key'') = lit ''api_key''"
  shows "api_key c = truthy (dict_get environ ''HINDSIGHT_API_KEY'')"
proof -
  from assms(1) obtain home profile ivs where l: "load_profile_json lib file = Inr profile"
    "dict_get ivs (lit ''api_key'') = None"
    "load_sections lib home (merge_mappings (merge_mappings profile (environment_values environ)) ivs) = Inr c"
    by (auto simp: load_config_Inr)
  have secret: "is_secret_key lib (lit ''api_key'')"
  proof -
    have split: "split_camel (lit ''api_key'') = lit ''api_key''" by code_simp
    have "list_ex (\<lambda>sfx. suffix (lit sfx) (filter join_labels (lit ''api_key''))) SECRET_KEY_SUFFIXES" by code_simp
    with split assms(2) show ?thesis by (simp add: is_secret_key_def Let_def)
  qed
  have "dict_get profile (lit ''api_key'') = None"
  proof (rule ccontr)
    assume "dict_get profile (lit ''api_key'') \<noteq> None"
    then obtain v where v: "(lit ''api_key'', v) \<in> set profile" by (auto dest: dict_get_in_set)
    then have "file \<noteq> Absent" using l(1) by (auto simp: load_profile_json_def)
    with l(1) have "reject_secret_json_keys lib profile = Inr ()"
      by (auto simp: load_profile_json_def and_then_Inr expect_mapping_Inr split: profile_file.splits)
    then have "\<not> has_secret (is_secret_key lib) (PDict profile)"
      unfolding reject_secret_json_keys_Inr .
    with v secret show False by (auto simp: list_ex_iff)
  qed
  with l(2) have "get_or (merge_mappings (merge_mappings profile (environment_values environ)) ivs) ''api_key'' PNone =
      (case dict_get environ ''HINDSIGHT_API_KEY'' of None \<Rightarrow> PNone | Some s \<Rightarrow> PStr s)"
    using dict_get_merge_scalar [OF environment_values_ok, of environ "lit ''api_key''"]
    by (cases "dict_get environ ''HINDSIGHT_API_KEY''")
      (auto simp: get_or_def dict_get_merge_absent environment_values_get)
  with load_sections_root [OF l(3)] show ?thesis
    by (auto simp: parse_api_key_def truthy_def split: option.splits if_splits)
qed

theorem api_key_only_from_environment_witness:
  "\<exists>c. sample_loaded = Inr c \<and> api_key c = Some (lit ''k'')"
proof -
  have "\<exists>c. sample_loaded = Inr c" using map_sum_InrD [OF sample_loaded_Inr] by blast
  then obtain c where c: "sample_loaded = Inr c" by blast
  from api_key_only_from_environment [OF c [unfolded sample_loaded_def]] have "api_key c = Some (lit ''k'')"
    by (simp add: sample_library_def sample_environ_def dict_get_def truthy_def lit_def ascii_lower_def)
  with c show ?thesis by blast
qed

text \<open>
  C35. A document is refused when any object in it, at any depth, has a key that looks like a secret,
  when any object repeats a key, or when a key of its root is unknown: \<open>load_config\<close> raises, whatever
  the environment and the injected values are.
\<close>

theorem bad_documents_refused:
  assumes "has_secret (is_secret_key lib) v \<or> \<not> no_duplicate_keys v \<or>
    (\<exists>kvs k. v = PDict kvs \<and> k \<in> fst ` set kvs \<and> k \<notin> lit ` set ROOT_KEYS)"
  shows "\<exists>e. load_config lib hermes (Document v) environ injected = Inl e"
proof (cases "load_config lib hermes (Document v) environ injected")
  case (Inr c)
  from this obtain home profile ivs where doc: "load_profile_json lib (Document v) = Inr profile"
    and sections: "load_sections lib home (merge_mappings (merge_mappings profile (environment_values environ)) ivs) = Inr c"
    by (auto simp: load_config_Inr)
  have l: "no_duplicate_keys v" "v = PDict profile" "\<not> has_secret (is_secret_key lib) v"
    using doc
    by (auto simp: load_profile_json_def and_then_Inr ensure_Inr expect_mapping_Inr reject_secret_json_keys_Inr
        simp del: no_duplicate_keys.simps has_secret.simps)
  have keep: "fst ` set m \<subseteq> fst ` set (merge_mappings m h)" for m h
  proof (induction h arbitrary: m)
    case (Cons kv h)
    obtain x y where kv: "kv = (x, y)" by (cases kv)
    obtain w where "merge_mappings m (kv # h) = merge_mappings (dict_set m x w) h"
      unfolding kv by (rule merge_mappings_Cons)
    moreover have "fst ` set m \<subseteq> fst ` set (dict_set m x w)"
      by (simp add: dict_set_def dom_update) auto
    ultimately show ?case using Cons [of "dict_set m x w"] by auto
  qed simp
  have "fst ` set profile \<subseteq> lit ` set ROOT_KEYS"
    using load_sections_root [OF sections] keep [of profile "environment_values environ"]
      keep [of "merge_mappings profile (environment_values environ)" ivs] by (meson subset_trans)
  with assms l show ?thesis by blast
qed simp

theorem bad_documents_refused_witness:
  "has_secret (is_secret_key sample_library) (PDict [(lit ''db'', PList [PDict [(lit ''authToken'', PStr [])]])]) \<and>
   (\<exists>e. load_config sample_library (lit ''/home/u'')
     (Document (PDict [(lit ''db'', PList [PDict [(lit ''authToken'', PStr [])]])])) [] (PDict []) = Inl e)"
proof -
  let ?v = "PDict [(lit ''db'', PList [PDict [(lit ''authToken'', PStr [])]])]"
  have s: "has_secret (is_secret_key sample_library) ?v" by code_simp
  then have "has_secret (is_secret_key sample_library) ?v \<or> \<not> no_duplicate_keys ?v \<or>
    (\<exists>kvs k. ?v = PDict kvs \<and> k \<in> fst ` set kvs \<and> k \<notin> lit ` set ROOT_KEYS)" by (rule disjI1)
  from bad_documents_refused [OF this] s show ?thesis by blast
qed

text \<open>
  The traversal that looks for secret-bearing keys keeps its own stack. It visits every object at
  every depth: it names a key exactly when the recursive specification finds one in a value on the stack.
\<close>

theorem secret_scan_is_complete:
  "find_secret secret stack = None \<longleftrightarrow> \<not> list_ex (\<lambda>(v, p). has_secret secret v) stack"
  using find_secret_None by (auto simp: list_ex_iff)

lemma map_PStr_eq: "map PStr xs = map PStr ys \<longleftrightarrow> xs = ys"
  by (rule inj_map_eq_map) (simp add: inj_def)

text \<open>
  The order in which the profile lists its retain tags does not matter: a permutation of the list is
  canonicalized to the same tags, so it loads to the same destination fingerprint.
\<close>

theorem retain_tags_order_irrelevant:
  assumes "canonicalize_retain_tags lib (PList (map PStr tags)) = Inr ts" and "mset tags' = mset tags"
  shows "canonicalize_retain_tags lib (PList (map PStr tags')) = Inr ts"
proof -
  have set: "set tags' = set tags" and len: "length tags' = length tags"
    using assms(2) by (metis set_mset_mset, metis size_mset)
  have dist: "distinct tags' = distinct tags" using assms(2) by (rule mset_eq_imp_distinct_iff)
  have images: "mset (map f tags') = mset (map f tags)" for f :: "ustr \<Rightarrow> ustr"
    using assms(2) by simp
  have dist_r: "distinct (map f tags') = distinct (map f tags)" for f :: "ustr \<Rightarrow> ustr"
    using images by (rule mset_eq_imp_distinct_iff)
  have sorted: "sort (map f tags') = sort (map f tags)" for f :: "ustr \<Rightarrow> ustr"
    using images by (metis sorted_list_of_multiset_mset)
  have all: "(\<exists>us. all_of (parse_tag f) xs = Inr us) \<longleftrightarrow> (\<forall>t \<in> set xs. \<exists>u. parse_tag f t = Inr u)" for f xs
    by (induction xs) (auto simp: and_then_Inr)
  from assms(1) show ?thesis
    unfolding canonicalize_retain_tags_def parse_tags_def and_then_Inr ensure_Inr parse_string_sequence_Inr Let_def
    using set len dist dist_r sorted all
    by (auto simp: list_all_iff map_PStr_eq)
qed

theorem retain_tags_order_irrelevant_witness:
  "\<exists>ts. canonicalize_retain_tags sample_library (PList (map PStr [lit ''b'', lit ''a''])) = Inr ts \<and>
     canonicalize_retain_tags sample_library (PList (map PStr [lit ''a'', lit ''b''])) = Inr ts"
proof -
  have c: "canonicalize_retain_tags sample_library (PList (map PStr [lit ''b'', lit ''a''])) = Inr [lit ''a'', lit ''b'']"
    by code_simp
  have "mset [lit ''a'', lit ''b''] = mset [lit ''b'', lit ''a'']" by simp
  from retain_tags_order_irrelevant [OF c this] c show ?thesis by blast
qed

text \<open>
  C37. Round trip of the refresh policy. A valid policy written out as a dictionary parses to itself,
  whatever the defaults it is laid over, and a remote model that carries the policy's trigger record, its
  token budget and the bank-wide empty tag list passes the check of the fixed policy.
\<close>

theorem policy_round_trip:
  assumes "policy_ok cron_ok p"
  shows "parse_policy cron_ok (PDict (policy_dict p)) base = Inr p \<and>
    validate_fixed_policy cron_ok
      [(lit ''tags'', PList []), (lit ''trigger'', PDict (trigger True p)), (lit ''max_tokens'', PInt (sp_max_tokens p))] =
      Inr ()"
proof
  show "parse_policy cron_ok (PDict (policy_dict p)) base = Inr p"
    using assms
    by (simp add: parse_policy_def policy_of_values_Inr dict_update_def policy_dict_def get_or_def lit_inject)
next
  let ?fields = "[(lit ''mode'', PStr (sp_mode p)), (lit ''budget'', PStr (sp_budget p)),
      (lit ''refresh_after_consolidation'', PBool (sp_refresh_after_consolidation p)),
      (lit ''refresh_cron'', case sp_refresh_cron p of None \<Rightarrow> PNone | Some c \<Rightarrow> PStr c),
      (lit ''min_refresh_interval_seconds'', PInt (sp_min_refresh_interval_seconds p)),
      (lit ''recall_max_tokens'', PInt (sp_recall_max_tokens p)),
      (lit ''observations_max_tokens'', PInt (sp_observations_max_tokens p)),
      (lit ''max_tokens'', PInt (sp_max_tokens p))]"
  have "parse_policy cron_ok (PDict ?fields) default_policy = Inr p"
    using assms
    by (simp add: parse_policy_def policy_of_values_Inr dict_update_def policy_dict_def get_or_def lit_inject)
  then show "validate_fixed_policy cron_ok
      [(lit ''tags'', PList []), (lit ''trigger'', PDict (trigger True p)), (lit ''max_tokens'', PInt (sp_max_tokens p))] =
      Inr ()"
    by (simp add: validate_fixed_policy_def get_or_def dict_get_Cons lit_inject trigger_def EDITABLE_def
        equals_constant_def number_value_def ensure_def rename_key_def dict_set_new)
qed

theorem policy_round_trip_witness:
  "policy_ok (\<lambda>_. True) default_policy \<and>
   parse_policy (\<lambda>_. True) (PDict (policy_dict default_policy)) default_policy = Inr default_policy"
proof -
  have ok: "policy_ok (\<lambda>_. True) default_policy" by code_simp
  from policy_round_trip [OF ok, of default_policy] ok show ?thesis by blast
qed

text \<open>
  Shape of a loaded API URL: it is \<open>http\<close> or \<open>https\<close>, names a non-empty host, carries no
  default port and no trailing slash, and none of the credentials, query and fragment of its source; the
  input had no control character, blank or backslash inside.
\<close>

theorem api_url_shape:
  assumes "normalize_api_url lib v = Inr url"
  shows "\<exists>given parsed scheme host port p.
    v = PStr given \<and> \<not> contains_control False (strip given) \<and> \<not> list_ex py_space (strip given) \<and> 92 \<notin> set (strip given) \<and>
    lib_urlsplit lib (strip given) = Some parsed \<and> up_username parsed = None \<and> up_password parsed = None \<and>
    up_query parsed = [] \<and> up_fragment parsed = [] \<and>
    url = scheme @ lit ''://'' @ bracketed host @ port @ p \<and>
    scheme \<in> {lit ''http'', lit ''https''} \<and> (p = [] \<or> hd p = 47 \<and> last p \<noteq> 47) \<and>
    (port = [] \<or> (\<exists>n. port = 58 # show_int n \<and> \<not> default_port scheme n))"
proof -
  from assms obtain given parsed hostname host where
    t: "v = PStr given" "\<not> contains_control False (strip given)" "92 \<notin> set (strip given)" "\<not> list_ex py_space (strip given)"
    "lib_urlsplit lib (strip given) = Some parsed"
    "lib_lower lib (up_scheme parsed) = lit ''http'' \<or> lib_lower lib (up_scheme parsed) = lit ''https''"
    "up_username parsed = None" "up_password parsed = None" "up_query parsed = []" "up_fragment parsed = []"
    "normalize_hostname lib hostname = Inr host"
    "url = urlunsplit (lib_lower lib (up_scheme parsed))
       (bracketed host @ (case up_port parsed of None \<Rightarrow> []
          | Some port \<Rightarrow> if default_port (lib_lower lib (up_scheme parsed)) port then [] else 58 # show_int port))
       (if rstrip_slash (up_path parsed) = [47] then [] else rstrip_slash (up_path parsed))"
    by (auto simp: normalize_api_url_def Let_def and_then_Inr split: py.splits if_splits option.splits)
  let ?scheme = "lib_lower lib (up_scheme parsed)"
  let ?port = "case up_port parsed of None \<Rightarrow> []
          | Some port \<Rightarrow> if default_port ?scheme port then [] else 58 # show_int port"
  let ?q = "if rstrip_slash (up_path parsed) = [47] then [] else rstrip_slash (up_path parsed)"
  let ?p = "if ?q \<noteq> [] \<and> hd ?q \<noteq> 47 then 47 # ?q else ?q"
  have last: "last (rstrip_slash s) \<noteq> 47" if "rstrip_slash s \<noteq> []" for s
    using that hd_dropWhile [of "\<lambda>c. c = 47" "rev s"] by (simp add: rstrip_slash_def last_rev)
  have p: "?p = [] \<or> hd ?p = 47 \<and> last ?p \<noteq> 47" using last by auto
  have port: "?port = [] \<or> (\<exists>n. ?port = 58 # show_int n \<and> \<not> default_port ?scheme n)"
    by (auto split: option.splits)
  have u: "url = ?scheme @ lit ''://'' @ bracketed host @ ?port @ ?p"
    by (simp add: t(12) urlunsplit_def lit_def)
  have sch: "?scheme \<in> {lit ''http'', lit ''https''}" using t(6) by blast
  show ?thesis
    by (rule exI [of _ given], rule exI [of _ parsed], rule exI [of _ ?scheme], rule exI [of _ host],
        rule exI [of _ ?port], rule exI [of _ ?p], intro conjI)
      (rule t u sch p port)+
qed

theorem api_url_shape_witness:
  "\<exists>url. normalize_api_url sample_library (PStr (lit '' http://localhost:8888'')) = Inr url \<and>
     url = lit ''http://localhost:8888''"
proof -
  have n: "normalize_api_url sample_library (PStr (lit '' http://localhost:8888'')) = Inr (lit ''http://localhost:8888'')"
    by code_simp
  from api_url_shape [OF n] n show ?thesis by blast
qed

end
