(* ===== verification/Spec2Isabelle.thy ===== *)
theory Spec2Isabelle
  imports OutboxTheorems SenderTheorems ProjectionTheorems EvidenceTheorems PlannerTheorems RuntimeTheorems RecallTheorems MissionTheorems MailboxTheorems ConfigTheorems
begin

text \<open>
  Verification library of better-hermes-hindsight, a memory provider of the Hermes agent. After each
  turn the provider stores the conversation in a durable queue, from which a sender thread delivers
  it to a Hindsight server; before each turn it recalls memories from the server and injects them as
  evidence. All files named below are in \<open>src/better_hermes_hindsight/\<close>.

  \<^bold>\<open>The parts and how they interact.\<close>

  \<^item> \<open>config.py\<close> and \<open>summary_policy.py\<close> turn defaults, a profile file, the environment and injected
    values into one immutable configuration, or an error. Everything else reads that record.
  \<^item> \<open>provider.py\<close> is the handle the host calls. Its sessions borrow the one \<open>ProcessRuntime\<close> of the
    process; its recall takes the plan of the turn from \<open>plan_mailbox.py\<close>, where the hook of
    \<open>planner.py\<close> left it, projects the query with \<open>formatting.py\<close>, calls the server through the
    runtime and formats what comes back; after a turn it hands the turn to the runtime.
  \<^item> \<open>retention.py\<close> splits a turn into redacted segments (\<open>redaction.py\<close>), \<open>outbox.py\<close> admits them
    all or none, and the \<open>OutboxSender\<close> of \<open>runtime.py\<close> delivers them under the profile lock, through
    \<open>client.py\<close>. Local files enter as snapshots of \<open>multimodal.py\<close>.
  \<^item> \<open>management.py\<close> reads the queue's state and applies bank missions for the operator.

  \<^bold>\<open>Theories, in the order of their imports.\<close>

  \<^item> \<open>Prelude\<close>: Python text (\<open>ustr\<close>, a list of code points) and dynamically typed values (\<open>py\<close>),
    UTF-8 sizes, insertion-ordered dictionaries, ORDER BY with LIMIT 1, the rule collections
    \<open>result_iff\<close> and others. \<open>Runs\<close>: a component as a list of operations with results, with the
    locales \<open>guarded\<close> (an invariant kept by every allowed operation, hence by every run) and
    \<open>keyed_store\<close> (what a run takes under a key was put there before). \<open>Samples\<close>: one concrete
    configuration, file system and queue for the witnesses.
  \<^item> \<open>Json\<close>: the canonical serialization. \<open>Settings\<close>, \<open>ConfigParse\<close>, \<open>Config\<close>, \<open>SummaryPolicy\<close>,
    \<open>ConfigTheorems\<close>: the configuration records, one parser per value with its raise as an error
    value, the sections and sources in the order of \<open>load_config\<close>, and the fingerprints and the
    authorization. Shown: the range of every option of a loaded configuration, the origin of the API
    key, the refusal of wrong documents, the round trip of the summary policy.
  \<^item> \<open>Redaction\<close>: the five credential patterns over a backtracking semantics of regular expressions.
    \<open>Retention\<close>, \<open>TurnAdmission\<close>: \<open>build_retained_segments\<close> from the validated turn to the segments.
    Shown: every segment obeys the byte bound, nothing visible is lost in the split, and what is built
    is a turn that the outbox accepts as valid.
  \<^item> \<open>Locks\<close>: the lock file, its captured identity and \<open>flock\<close> over a table of open descriptors.
    \<open>Outbox\<close>, \<open>Admission\<close>: the table of the queue as a list of records and each method of
    \<open>SQLiteOutbox\<close> as its transactions, with contention and faults as arguments. \<open>Queue\<close>, \<open>OutboxRuns\<close>,
    \<open>OutboxTheorems\<close>: the invariant, the exact effect of every transition, runs of operations with
    restarts. Shown: all-or-nothing admission, the choice of the claimed row, capacity, exclusiveness of
    the lock, and that a row leaves only by a completion of its current attempt.
  \<^item> \<open>Sender\<close>, \<open>SenderTheorems\<close>: the sender thread as a state machine (\<open>sender_pc\<close>) in a world of the
    outbox, the lock, other processes and the deliveries so far. Shown over every interleaving: a row
    is deleted only after its delivery was confirmed, a requested stop takes at most eight steps of
    the thread (the measure \<open>stop_rank\<close>), and while nothing fails eight steps per row drain the queue.
  \<^item> \<open>Runtime\<close>, \<open>RuntimeTheorems\<close>: \<open>AsyncRunner\<close>, \<open>ProcessRuntime\<close> and the process singleton as
    interleaved steps of callers, the loop thread and the finalizing thread. Shown: the outbox is
    closed only at rest, with the sender's thread at its end; only one runtime is alive as long as no
    finalization is interrupted; an abandoned call blocks new ones until it has settled. \<open>Sessions\<close>,
    \<open>SessionsTheorems\<close>: the provider's identity, and callbacks of rotations between distinct sessions,
    which arrive out of order and end at the same session in every order.
  \<^item> \<open>Mailbox\<close>, \<open>MailboxInvariant\<close>, \<open>MailboxRuns\<close>, \<open>MailboxTheorems\<close>: the registry of plans and each
    operation as one step under its lock. Shown: an invariant, where a consumed plan comes from, that
    it is consumed once, and a refinement to one slot per turn. \<open>Planner\<close>, \<open>PlannerTheorems\<close>: the hook
    from the transcript to the published plan; the bounds of the capsule before and after
    its scrub, and the soundness of what it publishes.
  \<^item> \<open>Projection\<close>, \<open>ProjectionTheorems\<close>: the projected query under its character and token bounds, with
    the UTF-8 decoder. \<open>Evidence\<close>, \<open>EvidenceTheorems\<close>: the envelope of recalled results; its budget,
    its frame that no line can imitate, and the longest prefix kept by a cut.
  \<^item> \<open>Remote\<close>: a coroutine as a value of \<open>'a io\<close>, a tree of requests with the continuation on every
    answer. \<open>play\<close> runs it against a list of answers and gives the trace; \<open>wp\<close> is its weakest
    precondition, sound for \<open>play\<close> by the lemma \<open>wp_play\<close>. \<open>Client\<close>, \<open>Multimodal\<close>, \<open>Responses\<close>,
    \<open>Envelope\<close>, \<open>Adapter\<close>, \<open>ClientTheorems\<close>: the transport, the decoders, the snapshots and the calls
    of the adapter. Shown: what counts as a confirmed delivery, the fixed errors, what passes of a
    trace and of an attachment, and what a snapshot holds.
  \<^item> \<open>Recall\<close>, \<open>RecallTheorems\<close>: the provider's recall and its tools over the parts above. Shown: what is
    sent and injected, obedience to the plan, the bound of a reflection, the inertness of a handle that
    is not authorized. \<open>Missions\<close>, \<open>MissionTheorems\<close>: the mission commands as conversations and the
    status of the queue. Shown: success is reported only for what was read back.

  \<^bold>\<open>Interfaces.\<close> \<open>guarded\<close> is interpreted by the sender's world (\<open>process\<close>), the runtime (\<open>lifetime\<close>),
  the process (\<open>singleton\<close>) and the mailbox (\<open>mailbox\<close>), and \<open>keyed_store\<close> by the mailbox
  (\<open>plan_slots\<close>). The properties of runs rest on their lemmas.

  \<^bold>\<open>Parameters.\<close> Code that is not in the repository, and tables too large to write down, are arguments:
  SHA-256 (\<open>sha\<close>), the Unicode tables of word characters, printable characters, case and NFKC,
  \<open>json.loads\<close>, the tokenizer, the address and path functions of the standard library, croniter,
  \<open>datetime.fromisoformat\<close>, and the functions of the host. Clock readings, random tokens, file-system
  answers, HTTP replies and database faults are arguments of the step in which the code obtains them.
  A hypothesis about one of them is stated in the property that needs it, and its witness
  instantiates it.

  \<^bold>\<open>Loops and bounds.\<close> Loops over data are structural recursions, or \<open>function\<close> with a measure (the
  shrinking and bisecting loops of the projection and of the evidence). The retry loops of the outbox
  follow the list of faults they meet. Threads that run for ever are step functions, and runs are lists
  of steps of any length; no fuel is used. Numbers of Python are \<open>int\<close>, sizes \<open>nat\<close>.

  \<^bold>\<open>Not modelled.\<close> Opening and inspecting the database file, which are SQLite and file-system calls without
  a transition of the rows; log events, diagnostic capture, stage evaluation and the shadow rewrite,
  which are best effort and read by nothing above; the replay of captured recalls; the client of the mental models,
  the knowledge pages and the operator's summary commands, which are off by default and apart from the
  queue; the watchdog, canary, command line and the scripts of the repository.
\<close>

end
